(* ===== verification/Prelude.thy ===== *)
theory Prelude
  imports Main "HOL-Library.Monad_Syntax" "HOL-Library.AList" "HOL-Library.List_Lexorder"
    "HOL-Library.Char_ord" "HOL-Library.Word"
begin

text \<open>
  Shared vocabulary of the development: the parts of Go's standard library the operator
  computes with (package strings, package strconv, maps, slices), the types every component
  uses, and the generic lemmas the component theories share.

  A Go map is an association list whose keys are distinct (\<open>gomap_ok\<close>). Go leaves the order
  of a range loop over a map open; the list is in an arbitrary order, so a statement about all
  lists with distinct keys is a statement about every iteration order.

  A computation that may panic returns an option, with \<open>None\<close> for the panic. An error value of
  Go (a nil or non-nil \<open>error\<close>) is an ordinary value, \<open>goerr option\<close>.
\<close>

type_synonym int32 = "32 word"
type_synonym ('k, 'v) gomap = "('k \<times> 'v) list"
type_synonym labels = "(string, string) gomap"

text \<open>The zero value of metav1.Time is 0; every other moment is positive.\<close>

type_synonym gotime = nat

text \<open>
  Go's errors, as far as the operator tells them apart: API status errors by their reason
  (\<open>k8serrors.IsNotFound\<close> and the like), the RESTMapper's \<open>NoKindMatchError\<close>, the two MongoDB
  driver errors the management reconciler tests for, the YAML parse error of yamlutils, plain
  messages, and errors wrapped with \<open>errors.Wrap\<close>.
\<close>

datatype status_reason = ReasonNotFound | ReasonAlreadyExists | ReasonConflict | ReasonOther

datatype goerr =
    StatusError status_reason string
  | NoKindMatchError string
  | ErrNoDocuments
  | ServerSelectionError string
  | YamlFileParseError string "nat list"
  | ErrorString string
  | WrappedError string goerr

text \<open>The reason of an API error is found below the wrappers, as \<open>errors.As\<close> finds it.\<close>

fun reasonForError :: "goerr \<Rightarrow> status_reason option" where
  "reasonForError (StatusError r _) = Some r"
| "reasonForError (WrappedError _ e) = reasonForError e"
| "reasonForError _ = None"

definition isNotFound :: "goerr \<Rightarrow> bool" where
  "isNotFound e \<longleftrightarrow> reasonForError e = Some ReasonNotFound"

definition isAlreadyExists :: "goerr \<Rightarrow> bool" where
  "isAlreadyExists e \<longleftrightarrow> reasonForError e = Some ReasonAlreadyExists"

definition isConflict :: "goerr \<Rightarrow> bool" where
  "isConflict e \<longleftrightarrow> reasonForError e = Some ReasonConflict"

lemma is_reason_simps [simp]:
  "isNotFound (StatusError r m) \<longleftrightarrow> r = ReasonNotFound"
  "isAlreadyExists (StatusError r m) \<longleftrightarrow> r = ReasonAlreadyExists"
  "isConflict (StatusError r m) \<longleftrightarrow> r = ReasonConflict"
  "isNotFound (WrappedError t e) \<longleftrightarrow> isNotFound e"
  "isAlreadyExists (WrappedError t e) \<longleftrightarrow> isAlreadyExists e"
  "isConflict (WrappedError t e) \<longleftrightarrow> isConflict e"
  "\<not> isNotFound (ErrorString t)" "\<not> isAlreadyExists (ErrorString t)" "\<not> isConflict (ErrorString t)"
  "\<not> isNotFound (NoKindMatchError t)" "\<not> isAlreadyExists (NoKindMatchError t)"
  by (simp_all add: isNotFound_def isAlreadyExists_def isConflict_def)

text \<open>The \<open>Error()\<close> text.\<close>

fun errorText :: "goerr \<Rightarrow> string" where
  "errorText (StatusError _ m) = m"
| "errorText (NoKindMatchError m) = m"
| "errorText ErrNoDocuments = ''mongo: no documents in result''"
| "errorText (ServerSelectionError m) = m"
| "errorText (YamlFileParseError m _) = m"
| "errorText (ErrorString m) = m"
| "errorText (WrappedError t e) = t @ '': '' @ errorText e"

text \<open>
  \<open>err != nil && !k8serrors.IsNotFound(err)\<close> and its companion, the two tests the operator makes
  most often.
\<close>

definition realError :: "(goerr \<Rightarrow> bool) \<Rightarrow> goerr option \<Rightarrow> bool" where
  "realError ignored err = (case err of None \<Rightarrow> False | Some e \<Rightarrow> \<not> ignored e)"

lemma realError_simps [simp]:
  "\<not> realError ignored None"
  "realError ignored (Some e) \<longleftrightarrow> \<not> ignored e"
  by (simp_all add: realError_def)

section \<open>Maps\<close>

definition gomap_ok :: "('k, 'v) gomap \<Rightarrow> bool" where
  "gomap_ok m \<longleftrightarrow> distinct (map fst m)"

text \<open>\<open>m[k]\<close> for a map to strings: the zero value for a missing key.\<close>

definition gomap_get :: "('k, string) gomap \<Rightarrow> 'k \<Rightarrow> string" where
  "gomap_get m k = (case map_of m k of None \<Rightarrow> '''' | Some v \<Rightarrow> v)"

definition gomap_has :: "('k, 'v) gomap \<Rightarrow> 'k \<Rightarrow> bool" where
  "gomap_has m k \<longleftrightarrow> map_of m k \<noteq> None"

lemma gomap_ok_Nil [simp]: "gomap_ok []"
  by (simp add: gomap_ok_def)

lemma gomap_ok_update [simp]: "gomap_ok m \<Longrightarrow> gomap_ok (AList.update k v m)"
  by (simp add: gomap_ok_def distinct_update)

lemma gomap_ok_delete [simp]: "gomap_ok m \<Longrightarrow> gomap_ok (AList.delete k m)"
  by (simp add: gomap_ok_def distinct_delete)

lemma gomap_get_update [simp]:
  "gomap_get (AList.update k v m) k' = (if k' = k then v else gomap_get m k')"
  by (simp add: gomap_get_def update_conv)

lemma gomap_has_update [simp]:
  "gomap_has (AList.update k v m) k' \<longleftrightarrow> k' = k \<or> gomap_has m k'"
  by (simp add: gomap_has_def update_conv)

lemma gomap_has_set: "gomap_has m k \<longleftrightarrow> k \<in> fst ` set m"
  by (simp add: gomap_has_def map_of_eq_None_iff)

lemma gomap_get_Nil [simp]: "gomap_get [] k = ''''"
  by (simp add: gomap_get_def)

lemma gomap_has_Nil [simp]: "\<not> gomap_has [] k"
  by (simp add: gomap_has_def)

section \<open>Slices\<close>

text \<open>\<open>xs[i]\<close>, a panic out of range.\<close>

definition nth_opt :: "'a list \<Rightarrow> nat \<Rightarrow> 'a option" where
  "nth_opt xs i = (if i < length xs then Some (xs ! i) else None)"

text \<open>\<open>xs[i] = f(xs[i])\<close>, a panic out of range.\<close>

definition upd_nth :: "nat \<Rightarrow> ('a \<Rightarrow> 'a) \<Rightarrow> 'a list \<Rightarrow> 'a list option" where
  "upd_nth i f xs = (if i < length xs then Some (xs[i := f (xs ! i)]) else None)"

lemma upd_nth_0_Cons [simp]: "upd_nth 0 f (x # xs) = Some (f x # xs)"
  by (simp add: upd_nth_def)

lemma upd_nth_Nil [simp]: "upd_nth i f [] = None"
  by (simp add: upd_nth_def)

lemma upd_nth_0_Some: "upd_nth 0 f xs = Some ys \<longleftrightarrow> (\<exists>x zs. xs = x # zs \<and> ys = f x # zs)"
  by (cases xs) auto

section \<open>Strings\<close>

text \<open>\<open>strings.Join\<close>\<close>

fun go_join :: "string \<Rightarrow> string list \<Rightarrow> string" where
  "go_join sep [] = []"
| "go_join sep [x] = x"
| "go_join sep (x # y # ys) = x @ sep @ go_join sep (y # ys)"

text \<open>
  \<open>strings.Split\<close> for a non-empty separator: the pieces between the leftmost, non-overlapping
  occurrences. Every separator of the operator is a non-empty literal.
\<close>

function go_split :: "string \<Rightarrow> string \<Rightarrow> string list" where
  "go_split sep [] = [[]]"
| "go_split sep (c # cs) =
     (if sep \<noteq> [] \<and> take (length sep) (c # cs) = sep
      then [] # go_split sep (drop (length sep) (c # cs))
      else (case go_split sep cs of [] \<Rightarrow> [[c]] | w # ws \<Rightarrow> (c # w) # ws))"
  by pat_completeness auto
termination
  by (relation "measure (length \<circ> snd)") (auto simp: neq_Nil_conv)

text \<open>\<open>strings.ReplaceAll\<close> for a non-empty old string\<close>

definition go_replaceAll :: "string \<Rightarrow> string \<Rightarrow> string \<Rightarrow> string" where
  "go_replaceAll s old new = go_join new (go_split old s)"

text \<open>\<open>strings.ToLower\<close> on ASCII letters\<close>

definition go_toLower :: "string \<Rightarrow> string" where
  "go_toLower s = map (\<lambda>c. if CHR ''A'' \<le> c \<and> c \<le> CHR ''Z'' then char_of (of_char c + (32::nat)) else c) s"

text \<open>\<open>%d\<close> of a natural number and \<open>%t\<close> of a boolean\<close>

fun nat_dec :: "nat \<Rightarrow> string" where
  "nat_dec n = (if n < 10 then [char_of (48 + n)] else nat_dec (n div 10) @ [char_of (48 + n mod 10)])"

declare nat_dec.simps [simp del]

definition formatBool :: "bool \<Rightarrow> string" where
  "formatBool b = (if b then ''true'' else ''false'')"

lemma go_split_not_Nil [simp]: "go_split sep s \<noteq> []"
  by (induction sep s rule: go_split.induct) (auto split: list.splits)

lemma go_join_Cons: "xs \<noteq> [] \<Longrightarrow> go_join sep (x # xs) = x @ sep @ go_join sep xs"
  by (cases xs) auto

text \<open>Joining the pieces of a split gives the string back.\<close>

lemma go_join_split: "go_join sep (go_split sep s) = s"
proof (induction sep s rule: go_split.induct)
  case (1 sep)
  show ?case by simp
next
  case (2 sep c cs)
  show ?case
  proof (cases "sep \<noteq> [] \<and> take (length sep) (c # cs) = sep")
    case True
    with 2(1) have "go_join sep (go_split sep (c # cs)) = sep @ drop (length sep) (c # cs)"
      by (simp add: go_join_Cons)
    also have "\<dots> = c # cs"
      using True append_take_drop_id [of "length sep" "c # cs"] by simp
    finally show ?thesis .
  next
    case False
    obtain w ws where w: "go_split sep cs = w # ws"
      by (cases "go_split sep cs") auto
    with 2(2) False have "go_join sep (w # ws) = cs" by simp
    moreover have "go_split sep (c # cs) = (c # w) # ws"
      unfolding go_split.simps(2) if_not_P [OF False] w by simp
    ultimately show ?thesis by (cases ws) auto
  qed
qed

subsection \<open>Separators of one character\<close>

lemma go_split_char_Cons [simp]:
  "go_split [d] (c # cs) =
     (if c = d then [] # go_split [d] cs
      else (case go_split [d] cs of [] \<Rightarrow> [[c]] | w # ws \<Rightarrow> (c # w) # ws))"
  by simp

lemma go_split_char_absent: "d \<notin> set s \<Longrightarrow> go_split [d] s = [s]"
  by (induction s) auto

lemma go_split_char_append:
  "d \<notin> set a \<Longrightarrow> go_split [d] (a @ d # b) = a # go_split [d] b"
  by (induction a) auto

lemma go_split_char_pieces: "w \<in> set (go_split [d] s) \<Longrightarrow> d \<notin> set w"
  by (induction s arbitrary: w) (auto split: if_splits list.splits)

text \<open>Splitting a joined list gives the list back when no piece holds the separator.\<close>

lemma go_split_join_char:
  assumes "xs \<noteq> []" and "\<And>x. x \<in> set xs \<Longrightarrow> d \<notin> set x"
  shows "go_split [d] (go_join [d] xs) = xs"
  using assms
proof (induction xs)
  case Nil
  then show ?case by simp
next
  case (Cons x xs)
  show ?case
  proof (cases xs)
    case Nil
    with Cons.prems show ?thesis by (simp add: go_split_char_absent)
  next
    case (Cons y ys)
    with Cons.IH Cons.prems show ?thesis by (simp add: go_split_char_append)
  qed
qed

lemma go_join_map_char:
  "go_join [e] (go_split [d] s) = map (\<lambda>c. if c = d then e else c) s"
proof (induction s)
  case Nil
  then show ?case by simp
next
  case (Cons c cs)
  obtain w ws where "go_split [d] cs = w # ws" by (cases "go_split [d] cs") auto
  with Cons show ?case by (cases ws) auto
qed

text \<open>Replacing one character by another is a map over the string.\<close>

lemma go_replaceAll_char: "go_replaceAll s [d] [e] = map (\<lambda>c. if c = d then e else c) s"
  by (simp add: go_replaceAll_def go_join_map_char)

subsection \<open>Decimal digits\<close>

lemma digit_chars [simp]:
  "char_of (48 :: nat) = CHR ''0''"
  "char_of (49 :: nat) = CHR ''1''"
  "char_of (50 :: nat) = CHR ''2''"
  "char_of (51 :: nat) = CHR ''3''"
  "char_of (52 :: nat) = CHR ''4''"
  "char_of (53 :: nat) = CHR ''5''"
  "char_of (54 :: nat) = CHR ''6''"
  "char_of (55 :: nat) = CHR ''7''"
  "char_of (56 :: nat) = CHR ''8''"
  "char_of (57 :: nat) = CHR ''9''"
  by (simp_all add: char_of_eq_iff)

lemma nat_dec_digits: "c \<in> set (nat_dec n) \<Longrightarrow> \<exists>d<10. c = char_of (48 + d :: nat)"
proof (induction n rule: nat_dec.induct)
  case (1 n)
  show ?case
  proof (cases "n < 10")
    case True
    with 1(2) show ?thesis by (subst (asm) nat_dec.simps) auto
  next
    case False
    with 1(2) have "c \<in> set (nat_dec (n div 10)) \<or> c = char_of (48 + n mod 10)"
      by (subst (asm) nat_dec.simps) auto
    then show ?thesis using 1(1) [OF False] by (auto intro: exI [of _ "n mod 10"])
  qed
qed

lemma nat_dec_not_Nil [simp]: "nat_dec n \<noteq> []"
  by (subst nat_dec.simps) simp

section \<open>Computations that may panic\<close>

lemma bind_Some_conv [simp]: "(Some x \<bind> f) = f x"
  by simp

lemma bind_case_prod_Some:
  "(m \<bind> (\<lambda>(a, s). f a s)) = Some r \<longleftrightarrow> (\<exists>a s. m = Some (a, s) \<and> f a s = Some r)"
  by (cases m) auto

lemmas bind_eq_Some = Option.bind_eq_Some_conv

text \<open>A loop whose body may panic: the list is mapped from left to right.\<close>

fun mapM :: "('a \<Rightarrow> 'b option) \<Rightarrow> 'a list \<Rightarrow> 'b list option" where
  "mapM f [] = Some []"
| "mapM f (x # xs) = do { y \<leftarrow> f x; ys \<leftarrow> mapM f xs; Some (y # ys) }"

lemma mapM_Some_length: "mapM f xs = Some ys \<Longrightarrow> length ys = length xs"
  by (induction xs arbitrary: ys) (auto simp: bind_eq_Some)

lemma mapM_Some_nth:
  "mapM f xs = Some ys \<Longrightarrow> i < length xs \<Longrightarrow> f (xs ! i) = Some (ys ! i)"
proof (induction xs arbitrary: ys i)
  case Nil
  then show ?case by simp
next
  case (Cons x xs)
  then show ?case by (cases i) (auto simp: bind_eq_Some)
qed

lemma mapM_total: "(\<And>x. x \<in> set xs \<Longrightarrow> f x = Some (g x)) \<Longrightarrow> mapM f xs = Some (map g xs)"
  by (induction xs) auto

end
