(* ===== verification/KubeTypes.thy ===== *)
theory KubeTypes
  imports Prelude
begin

text \<open>
  The Kubernetes objects the operator reads and writes, each a record of the fields the operator's
  code names (k8s.io/api and apimachinery hold the types themselves). A pointer field of Go, or a
  slice or map the code compares with nil, is an option.
\<close>

record owner_reference =
  or_apiVersion :: string
  or_kind :: string
  or_name :: string
  or_uid :: string
  or_blockOwnerDeletion :: "bool option"
  or_controller :: "bool option"

record obj_meta =
  om_name :: string
  om_namespace :: string
  om_labels :: "labels option"
  om_annotations :: "labels option"
  om_ownerReferences :: "owner_reference list"

section \<open>Pods\<close>

datatype env_source =
    SecretKeyRef string string   \<comment> \<open>the secret's name and the key in it\<close>
  | OtherRef string

record env_var =
  ev_name :: string
  ev_value :: string
  ev_valueFrom :: "env_source option"

datatype volume_source =
    HostPath string
  | ConfigMapVolume string
  | OtherVolume string

record volume =
  vol_name :: string
  vol_source :: volume_source

record volume_mount =
  vm_name :: string
  vm_path :: string

datatype pull_policy = PullAlways | PullIfNotPresent | PullNever | PullUnset

record container =
  c_name :: string
  c_image :: string
  c_imagePullPolicy :: pull_policy
  c_env :: "env_var list"
  c_command :: "string list"
  c_args :: "string list"
  c_volumeMounts :: "volume_mount list"
  c_securityContext :: "bool option option"   \<comment> \<open>the context and, in it, \<open>Privileged\<close>\<close>

record pod_spec =
  ps_containers :: "container list"
  ps_volumes :: "volume list"
  ps_serviceAccountName :: string
  ps_imagePullSecrets :: "string list"
  ps_restartPolicy :: string
  ps_nodeName :: string
  ps_nodeSelector :: labels
  ps_hostNetwork :: bool
  ps_hostPID :: bool
  ps_terminationGracePeriodSeconds :: "int option"

record pod_template =
  pt_labels :: "labels option"
  pt_annotations :: "labels option"
  pt_spec :: pod_spec

section \<open>Workloads\<close>

record label_selector =
  sel_matchLabels :: labels

record pvc_spec =
  pvc_storageClassName :: "string option"
  pvc_selector :: "label_selector option"
  pvc_requests :: "labels option"
  pvc_limits :: "labels option"

record persistent_volume_claim =
  pvc_meta :: obj_meta
  pvc_spec_of :: pvc_spec

record daemon_set =
  ds_meta :: obj_meta
  ds_template :: pod_template

record stateful_set =
  ss_meta :: obj_meta
  ss_replicas :: "int32 option"
  ss_template :: pod_template
  ss_volumeClaimTemplates :: "persistent_volume_claim list"

record job_condition =
  jc_type :: string
  jc_message :: string

record job_status =
  js_failed :: int32
  js_succeeded :: int32
  js_active :: int32
  js_conditions :: "job_condition list"

record job =
  j_meta :: obj_meta
  j_backoffLimit :: "int32 option"
  j_completions :: "int32 option"
  j_selector :: "labels option"
  j_template :: pod_template
  j_status :: job_status

section \<open>Configuration, services and access control\<close>

record config_map =
  cm_meta :: obj_meta
  cm_data :: "labels option"

record service =
  svc_meta :: obj_meta
  svc_clusterIP :: string
  svc_externalIPs :: "string list option"

record service_account =
  sa_meta :: obj_meta
  sa_imagePullSecrets :: "string list"

record policy_rule =
  pr_apiGroups :: "string list"
  pr_resources :: "string list"
  pr_resourceNames :: "string list"
  pr_verbs :: "string list"

record role =
  role_meta :: obj_meta
  role_rules :: "policy_rule list"

record subject =
  sub_kind :: string
  sub_name :: string
  sub_namespace :: string

record role_ref =
  rr_apiGroup :: string
  rr_kind :: string
  rr_name :: string

record role_binding =
  rb_meta :: obj_meta
  rb_roleRef :: role_ref
  rb_subjects :: "subject list"

section \<open>What the operator lists\<close>

record pod =
  pod_meta :: obj_meta

record node =
  node_meta :: obj_meta

record volume_attachment =
  va_attached :: bool
  va_attacher :: string
  va_nodeName :: string
  va_persistentVolumeName :: "string option"

record persistent_volume =
  pv_name :: string
  pv_csiDriver :: "string option"   \<comment> \<open>the driver of \<open>Spec.CSI\<close>, when that is not nil\<close>

section \<open>client.Object\<close>

datatype kobj =
    DaemonSet daemon_set
  | StatefulSet stateful_set
  | Deployment obj_meta
  | ConfigMap config_map
  | Service service
  | ServiceAccount service_account
  | Role role
  | RoleBinding role_binding
  | ClusterRoleBinding role_binding
  | Job job
  | PersistentVolumeClaim persistent_volume_claim
  | Pod pod
  | OtherObject string obj_meta   \<comment> \<open>any other kind, by its name\<close>

text \<open>\<open>GetObjectKind().GroupVersionKind().Kind\<close>\<close>

fun kindOf :: "kobj \<Rightarrow> string" where
  "kindOf (DaemonSet _) = ''DaemonSet''"
| "kindOf (StatefulSet _) = ''StatefulSet''"
| "kindOf (Deployment _) = ''Deployment''"
| "kindOf (ConfigMap _) = ''ConfigMap''"
| "kindOf (Service _) = ''Service''"
| "kindOf (ServiceAccount _) = ''ServiceAccount''"
| "kindOf (Role _) = ''Role''"
| "kindOf (RoleBinding _) = ''RoleBinding''"
| "kindOf (ClusterRoleBinding _) = ''ClusterRoleBinding''"
| "kindOf (Job _) = ''Job''"
| "kindOf (PersistentVolumeClaim _) = ''PersistentVolumeClaim''"
| "kindOf (Pod _) = ''Pod''"
| "kindOf (OtherObject k _) = k"

fun metaOf :: "kobj \<Rightarrow> obj_meta" where
  "metaOf (DaemonSet d) = ds_meta d"
| "metaOf (StatefulSet s) = ss_meta s"
| "metaOf (Deployment m) = m"
| "metaOf (ConfigMap c) = cm_meta c"
| "metaOf (Service s) = svc_meta s"
| "metaOf (ServiceAccount s) = sa_meta s"
| "metaOf (Role r) = role_meta r"
| "metaOf (RoleBinding r) = rb_meta r"
| "metaOf (ClusterRoleBinding r) = rb_meta r"
| "metaOf (Job j) = j_meta j"
| "metaOf (PersistentVolumeClaim p) = pvc_meta p"
| "metaOf (Pod p) = pod_meta p"
| "metaOf (OtherObject _ m) = m"

fun mapMeta :: "(obj_meta \<Rightarrow> obj_meta) \<Rightarrow> kobj \<Rightarrow> kobj" where
  "mapMeta f (DaemonSet d) = DaemonSet (ds_meta_update f d)"
| "mapMeta f (StatefulSet s) = StatefulSet (ss_meta_update f s)"
| "mapMeta f (Deployment m) = Deployment (f m)"
| "mapMeta f (ConfigMap c) = ConfigMap (cm_meta_update f c)"
| "mapMeta f (Service s) = Service (svc_meta_update f s)"
| "mapMeta f (ServiceAccount s) = ServiceAccount (sa_meta_update f s)"
| "mapMeta f (Role r) = Role (role_meta_update f r)"
| "mapMeta f (RoleBinding r) = RoleBinding (rb_meta_update f r)"
| "mapMeta f (ClusterRoleBinding r) = ClusterRoleBinding (rb_meta_update f r)"
| "mapMeta f (Job j) = Job (j_meta_update f j)"
| "mapMeta f (PersistentVolumeClaim p) = PersistentVolumeClaim (pvc_meta_update f p)"
| "mapMeta f (Pod p) = Pod (pod_meta_update f p)"
| "mapMeta f (OtherObject k m) = OtherObject k (f m)"

definition nameOf :: "kobj \<Rightarrow> string" where
  "nameOf x = om_name (metaOf x)"

definition namespaceOf :: "kobj \<Rightarrow> string" where
  "namespaceOf x = om_namespace (metaOf x)"

definition labelsOf :: "kobj \<Rightarrow> labels option" where
  "labelsOf x = om_labels (metaOf x)"

definition setNamespace :: "string \<Rightarrow> kobj \<Rightarrow> kobj" where
  "setNamespace ns = mapMeta (om_namespace_update (\<lambda>_. ns))"

definition setLabels :: "labels \<Rightarrow> kobj \<Rightarrow> kobj" where
  "setLabels ls = mapMeta (om_labels_update (\<lambda>_. Some ls))"

lemma metaOf_mapMeta [simp]: "metaOf (mapMeta f x) = f (metaOf x)"
  by (cases x) simp_all

lemma kindOf_mapMeta [simp]: "kindOf (mapMeta f x) = kindOf x"
  by (cases x) simp_all

lemma object_simps [simp]:
  "kindOf (setNamespace ns x) = kindOf x"
  "nameOf (setNamespace ns x) = nameOf x"
  "namespaceOf (setNamespace ns x) = ns"
  "labelsOf (setNamespace ns x) = labelsOf x"
  "kindOf (setLabels ls x) = kindOf x"
  "nameOf (setLabels ls x) = nameOf x"
  "namespaceOf (setLabels ls x) = namespaceOf x"
  "labelsOf (setLabels ls x) = Some ls"
  by (simp_all add: setNamespace_def setLabels_def nameOf_def namespaceOf_def labelsOf_def)

text \<open>The metadata a freshly built object of the operator's own has.\<close>

definition newMeta :: "string \<Rightarrow> string \<Rightarrow> obj_meta" where
  "newMeta name ns = \<lparr>om_name = name, om_namespace = ns, om_labels = None, om_annotations = None,
     om_ownerReferences = []\<rparr>"

end
