(* ===== verification/ApiTypes.thy ===== *)
theory ApiTypes
  imports KubeTypes
begin

text \<open>
  The NVMesh custom resource of pkg/api/v1/nvmesh_types.go, struct by struct and field by field. The
  Go field a record field stands for is its name without the prefix. The slice \<open>Actions\<close> is a
  list: nil and the empty slice are the same list, as no code tells them apart once
  \<open>initializeEmptyFieldsOnCustomResource\<close> has run. The slices \<open>ExternalIPs\<close>,
  \<open>SerialNumbers\<close> and \<open>DevicePaths\<close> are options, as the code compares them with nil.
\<close>

record exclude_nvme_drives_spec =
  ex_SerialNumbers :: "string list option"
  ex_DevicePaths :: "string list option"

record nvmesh_core =
  core_Version :: string
  core_ImageRegistry :: string
  core_ImageVersionTag :: string
  core_Disabled :: bool
  core_ConfiguredNICs :: string
  core_TCPOnly :: bool
  core_AzureOptimized :: bool
  core_ExcludeDrives :: "exclude_nvme_drives_spec option"
  core_ModuleParams :: string

record mongodb_cluster =
  mongo_External :: bool
  mongo_Address :: string
  mongo_DataVolumeClaim :: pvc_spec

record nvmesh_management =
  mgmt_Version :: string
  mgmt_ImageRegistry :: string
  mgmt_Replicas :: int32
  mgmt_MongoDB :: mongodb_cluster
  mgmt_ExternalIPs :: "string list option"
  mgmt_NoSSL :: bool
  mgmt_Disabled :: bool
  mgmt_BackupsVolumeClaim :: pvc_spec
  mgmt_DisableAutoFormatDrives :: bool
  mgmt_DisableAutoEvictMissingDrives :: bool

record nvmesh_csi =
  csi_Version :: string
  csi_ControllerReplicas :: int32
  csi_ImageRegistry :: string
  csi_Disabled :: bool

record operator_file_server_spec =
  fs_Address :: string
  fs_SkipCheckCertificate :: bool

record nvmesh_operator_spec =
  op_IgnoreVolumeAttachmentOnDelete :: bool
  op_IgnorePersistentVolumesOnDelete :: bool
  op_SkipUninstall :: bool
  op_FileServer :: "operator_file_server_spec option"

record cluster_action =
  act_Name :: string
  act_Args :: "labels option"

record debug_options =
  dbg_ImagePullPolicyAlways :: bool
  dbg_ContainersKeepRunningAfterFailure :: bool
  dbg_CollectLogsJobsRunForever :: bool
  dbg_DebugJobs :: bool

record nvmesh_spec =
  spec_Core :: nvmesh_core
  spec_Management :: nvmesh_management
  spec_CSI :: nvmesh_csi
  spec_Operator :: nvmesh_operator_spec
  spec_Debug :: debug_options
  spec_Actions :: "cluster_action list"

type_synonym action_status = labels

record cluster_condition =
  cond_Type :: string
  cond_Status :: string
  cond_LastTransitionTime :: gotime
  cond_Reason :: string
  cond_Message :: string

definition Ready :: string where "Ready = ''Ready''"
definition Uninstalling :: string where "Uninstalling = ''Uninstalling''"
definition ConditionTrue :: string where "ConditionTrue = ''True''"
definition ConditionFalse :: string where "ConditionFalse = ''False''"
definition ConditionUnknown :: string where "ConditionUnknown = ''Unknown''"

lemmas condition_consts =
  Ready_def Uninstalling_def ConditionTrue_def ConditionFalse_def ConditionUnknown_def

record nvmesh_status =
  st_WebUIURL :: string
  st_ActionsStatus :: "(string, action_status) gomap option"
  st_Conditions :: "cluster_condition list"

text \<open>The fields of \<open>metav1.ObjectMeta\<close> the operator reads on the custom resource.\<close>

record cr_meta =
  crm_Name :: string
  crm_Namespace :: string
  crm_UID :: string
  crm_ClusterName :: string
  crm_Generation :: int
  crm_Finalizers :: "string list"
  crm_DeletionTimestamp :: "gotime option"

record nvmesh =
  cr_ObjectMeta :: cr_meta
  cr_Spec :: nvmesh_spec
  cr_Status :: nvmesh_status

definition crName :: "nvmesh \<Rightarrow> string" where
  "crName cr = crm_Name (cr_ObjectMeta cr)"

definition crNamespace :: "nvmesh \<Rightarrow> string" where
  "crNamespace cr = crm_Namespace (cr_ObjectMeta cr)"

abbreviation core :: "nvmesh \<Rightarrow> nvmesh_core" where "core cr \<equiv> spec_Core (cr_Spec cr)"
abbreviation mgmt :: "nvmesh \<Rightarrow> nvmesh_management" where "mgmt cr \<equiv> spec_Management (cr_Spec cr)"
abbreviation csi :: "nvmesh \<Rightarrow> nvmesh_csi" where "csi cr \<equiv> spec_CSI (cr_Spec cr)"
abbreviation oper :: "nvmesh \<Rightarrow> nvmesh_operator_spec" where "oper cr \<equiv> spec_Operator (cr_Spec cr)"
abbreviation debug :: "nvmesh \<Rightarrow> debug_options" where "debug cr \<equiv> spec_Debug (cr_Spec cr)"

abbreviation upd_core :: "(nvmesh_core \<Rightarrow> nvmesh_core) \<Rightarrow> nvmesh \<Rightarrow> nvmesh" where
  "upd_core f \<equiv> cr_Spec_update (spec_Core_update f)"
abbreviation upd_mgmt :: "(nvmesh_management \<Rightarrow> nvmesh_management) \<Rightarrow> nvmesh \<Rightarrow> nvmesh" where
  "upd_mgmt f \<equiv> cr_Spec_update (spec_Management_update f)"
abbreviation upd_csi :: "(nvmesh_csi \<Rightarrow> nvmesh_csi) \<Rightarrow> nvmesh \<Rightarrow> nvmesh" where
  "upd_csi f \<equiv> cr_Spec_update (spec_CSI_update f)"
abbreviation upd_status :: "(nvmesh_status \<Rightarrow> nvmesh_status) \<Rightarrow> nvmesh \<Rightarrow> nvmesh" where
  "upd_status f \<equiv> cr_Status_update f"

text \<open>\<open>&nvmeshv1.NVMesh{}\<close>: every field at its zero value.\<close>

definition zeroPvcSpec :: pvc_spec where
  "zeroPvcSpec = \<lparr>pvc_storageClassName = None, pvc_selector = None, pvc_requests = None, pvc_limits = None\<rparr>"

definition zeroNVMesh :: nvmesh where
  "zeroNVMesh = \<lparr>
     cr_ObjectMeta = \<lparr>crm_Name = '''', crm_Namespace = '''', crm_UID = '''', crm_ClusterName = '''', crm_Generation = 0,
       crm_Finalizers = [], crm_DeletionTimestamp = None\<rparr>,
     cr_Spec = \<lparr>
       spec_Core = \<lparr>core_Version = '''', core_ImageRegistry = '''', core_ImageVersionTag = '''',
         core_Disabled = False, core_ConfiguredNICs = '''', core_TCPOnly = False,
         core_AzureOptimized = False, core_ExcludeDrives = None, core_ModuleParams = ''''\<rparr>,
       spec_Management = \<lparr>mgmt_Version = '''', mgmt_ImageRegistry = '''', mgmt_Replicas = 0,
         mgmt_MongoDB = \<lparr>mongo_External = False, mongo_Address = '''', mongo_DataVolumeClaim = zeroPvcSpec\<rparr>,
         mgmt_ExternalIPs = None, mgmt_NoSSL = False, mgmt_Disabled = False,
         mgmt_BackupsVolumeClaim = zeroPvcSpec, mgmt_DisableAutoFormatDrives = False,
         mgmt_DisableAutoEvictMissingDrives = False\<rparr>,
       spec_CSI = \<lparr>csi_Version = '''', csi_ControllerReplicas = 0, csi_ImageRegistry = '''', csi_Disabled = False\<rparr>,
       spec_Operator = \<lparr>op_IgnoreVolumeAttachmentOnDelete = False, op_IgnorePersistentVolumesOnDelete = False,
         op_SkipUninstall = False, op_FileServer = None\<rparr>,
       spec_Debug = \<lparr>dbg_ImagePullPolicyAlways = False, dbg_ContainersKeepRunningAfterFailure = False,
         dbg_CollectLogsJobsRunForever = False, dbg_DebugJobs = False\<rparr>,
       spec_Actions = []\<rparr>,
     cr_Status = \<lparr>st_WebUIURL = '''', st_ActionsStatus = None, st_Conditions = []\<rparr>\<rparr>"

end
