(* ===== verification/KubeClient.thy ===== *)
theory KubeClient
  imports ApiTypes
begin

text \<open>
  What the operator talks to, as parameters: the Kubernetes API server behind controller-runtime's
  client, the MongoDB server behind its driver, the file system the YAML assets lie on, the clock, the order in which Go ranges over a
  map (\<open>mapOrder\<close>),
  and the library functions whose source is not in the repository (the YAML decoder,
  \<open>SetControllerReference\<close>, \<open>labels.NewRequirement\<close>, \<open>RetryOnConflict\<close>). All of
  them are fields of the record \<open>kube\<close>, over an arbitrary type \<open>'w\<close> of the world
  outside the operator: every call takes the world and returns it changed, so another actor may
  have moved between any two calls.

  The state \<open>st\<close> the operator's functions pass along is that world, the two package
  variables of the controllers package (\<open>reconcileCycles\<close>, \<open>watchers\<close>), and the list of the
  requests issued so far, which no code reads: it is there to state what the operator asks for and
  in which order.

  The second half is a small calculus of what a computation may do: \<open>steps R f\<close> for a preorder
  on states, with one introduction rule per construct of the code.
\<close>

datatype request =
    ReqGet string string string    \<comment> \<open>kind, namespace, name\<close>
  | ReqCreate kobj
  | ReqUpdate kobj
  | ReqDelete kobj
  | ReqList string
  | ReqGetCR string string
  | ReqUpdateCR nvmesh
  | ReqUpdateStatus nvmesh
  | ReqEvent nvmesh string string string
  | ReqStopWatch nat
  | ReqMongoConnect string
  | ReqMongoFind
  | ReqMongoUpdate bool bool
  | ReqMongoDisconnect

record 'w st =
  world :: 'w
  reqs :: "request list"
  reconcileCycles :: nat
  watchers :: "nat list"

type_synonym requirement = "string \<times> string \<times> string list"

datatype pod_query =
    PodsMatching labels
  | PodsSelected requirement
  | PodsInNamespace string

text \<open>One invocation of the callback of \<open>filepath.Walk\<close>: the path and, unless \<open>info\<close> is nil, \<open>info.IsDir()\<close>.\<close>

type_synonym walk_entry = "string \<times> bool option"

record hidden_settings =
  hs_AutoEvictMissingDrive :: bool
  hs_AutoFormatDrive :: bool
  hs_IsElectDisabled :: bool

type_synonym ('w, 'p) retry =
  "(nat \<Rightarrow> 'p \<times> 'w st \<Rightarrow> (goerr option \<times> 'p \<times> 'w st) option) \<Rightarrow> 'p \<times> 'w st \<Rightarrow> (goerr option \<times> 'p \<times> 'w st) option"

record 'w kube =
  kGet :: "string \<Rightarrow> string \<Rightarrow> string \<Rightarrow> 'w \<Rightarrow> (goerr + kobj) \<times> 'w"
  kCreate :: "kobj \<Rightarrow> 'w \<Rightarrow> goerr option \<times> 'w"
  kUpdate :: "kobj \<Rightarrow> 'w \<Rightarrow> goerr option \<times> 'w"
  kDelete :: "kobj \<Rightarrow> 'w \<Rightarrow> goerr option \<times> 'w"
  kListPods :: "pod_query \<Rightarrow> 'w \<Rightarrow> (goerr option \<times> pod list) \<times> 'w"
  kListNodes :: "labels \<Rightarrow> 'w \<Rightarrow> (goerr option \<times> node list) \<times> 'w"
  kListPVCs :: "requirement \<Rightarrow> 'w \<Rightarrow> (goerr option \<times> persistent_volume_claim list) \<times> 'w"
  kListVolumeAttachments :: "'w \<Rightarrow> (goerr option \<times> volume_attachment list) \<times> 'w"
  kListPVs :: "'w \<Rightarrow> (goerr option \<times> persistent_volume list) \<times> 'w"
  kGetCR :: "string \<Rightarrow> string \<Rightarrow> 'w \<Rightarrow> (goerr + nvmesh) \<times> 'w"
  kUpdateCR :: "nvmesh \<Rightarrow> 'w \<Rightarrow> (goerr + nvmesh) \<times> 'w"
  kUpdateStatus :: "nvmesh \<Rightarrow> 'w \<Rightarrow> (goerr + nvmesh) \<times> 'w"
  kEvent :: "nvmesh \<Rightarrow> string \<Rightarrow> string \<Rightarrow> string \<Rightarrow> 'w \<Rightarrow> 'w"
  kStopWatch :: "nat \<Rightarrow> 'w \<Rightarrow> 'w"
  mongoConnect :: "string \<Rightarrow> 'w \<Rightarrow> goerr option \<times> 'w"
  mongoFindOne :: "'w \<Rightarrow> (goerr + hidden_settings) \<times> 'w"
  mongoUpdateOne :: "bool \<Rightarrow> bool \<Rightarrow> 'w \<Rightarrow> (goerr + nat) \<times> 'w"
  mongoDisconnect :: "'w \<Rightarrow> 'w"
  fsWalk :: "string \<Rightarrow> 'w \<Rightarrow> walk_entry list \<times> 'w"
  fsReadDir :: "string \<Rightarrow> 'w \<Rightarrow> (goerr + (string \<times> bool) list) \<times> 'w"
  fsReadFile :: "string \<Rightarrow> 'w \<Rightarrow> (goerr + string) \<times> 'w"
  mapOrder :: "(string \<times> node) list \<Rightarrow> 'w \<Rightarrow> (string \<times> node) list \<times> 'w"
  timeNow :: "'w \<Rightarrow> gotime \<times> 'w"
  timeSleep :: "'w \<Rightarrow> 'w"
  timeFormatRFC3339 :: "gotime \<Rightarrow> string"
  kDecode :: "string \<Rightarrow> kobj option \<times> goerr option"
  kSetControllerReference :: "nvmesh \<Rightarrow> kobj \<Rightarrow> goerr option \<times> kobj"
  kParseGroupVersion :: "string \<Rightarrow> goerr + string \<times> string"
  kNewRequirement :: "string \<Rightarrow> string \<Rightarrow> string list \<Rightarrow> requirement option \<times> goerr option"
  retryDefaultRetry :: "('w, nvmesh) retry"
  retryDefaultBackoff :: "('w, stateful_set) retry"
  optIsOpenShift :: bool
  optDefaultCoreImageTag :: string
  optDevelopment :: bool
  osGetwd :: string

section \<open>Calls\<close>

definition apiCall :: "request \<Rightarrow> ('w \<Rightarrow> 'a \<times> 'w) \<Rightarrow> 'w st \<Rightarrow> ('a \<times> 'w st) option" where
  "apiCall q f s = (case f (world s) of (r, w) \<Rightarrow> Some (r, s\<lparr>world := w, reqs := reqs s @ [q]\<rparr>))"

definition localCall :: "('w \<Rightarrow> 'a \<times> 'w) \<Rightarrow> 'w st \<Rightarrow> ('a \<times> 'w st) option" where
  "localCall f s = (case f (world s) of (r, w) \<Rightarrow> Some (r, s\<lparr>world := w\<rparr>))"

definition unitCall :: "('w \<Rightarrow> 'w) \<Rightarrow> 'w \<Rightarrow> unit \<times> 'w" where
  "unitCall f w = ((), f w)"

text \<open>
  The methods of the embedded \<open>client.Client\<close>. \<open>Get\<close> names the object by kind, namespace
  and name.
\<close>

definition clientGet :: "'w kube \<Rightarrow> string \<Rightarrow> string \<Rightarrow> string \<Rightarrow> 'w st \<Rightarrow> ((goerr + kobj) \<times> 'w st) option" where
  "clientGet env kind ns name = apiCall (ReqGet kind ns name) (kGet env kind ns name)"

definition clientCreate :: "'w kube \<Rightarrow> kobj \<Rightarrow> 'w st \<Rightarrow> (goerr option \<times> 'w st) option" where
  "clientCreate env x = apiCall (ReqCreate x) (kCreate env x)"

definition clientUpdate :: "'w kube \<Rightarrow> kobj \<Rightarrow> 'w st \<Rightarrow> (goerr option \<times> 'w st) option" where
  "clientUpdate env x = apiCall (ReqUpdate x) (kUpdate env x)"

definition clientDelete :: "'w kube \<Rightarrow> kobj \<Rightarrow> 'w st \<Rightarrow> (goerr option \<times> 'w st) option" where
  "clientDelete env x = apiCall (ReqDelete x) (kDelete env x)"

definition clientListPods :: "'w kube \<Rightarrow> pod_query \<Rightarrow> 'w st \<Rightarrow> ((goerr option \<times> pod list) \<times> 'w st) option" where
  "clientListPods env q = apiCall (ReqList ''Pod'') (kListPods env q)"

definition clientListNodes :: "'w kube \<Rightarrow> labels \<Rightarrow> 'w st \<Rightarrow> ((goerr option \<times> node list) \<times> 'w st) option" where
  "clientListNodes env ls = apiCall (ReqList ''Node'') (kListNodes env ls)"

definition clientListPVCs ::
  "'w kube \<Rightarrow> requirement \<Rightarrow> 'w st \<Rightarrow> ((goerr option \<times> persistent_volume_claim list) \<times> 'w st) option" where
  "clientListPVCs env r = apiCall (ReqList ''PersistentVolumeClaim'') (kListPVCs env r)"

definition clientListVolumeAttachments ::
  "'w kube \<Rightarrow> 'w st \<Rightarrow> ((goerr option \<times> volume_attachment list) \<times> 'w st) option" where
  "clientListVolumeAttachments env = apiCall (ReqList ''VolumeAttachment'') (kListVolumeAttachments env)"

definition clientListPVs :: "'w kube \<Rightarrow> 'w st \<Rightarrow> ((goerr option \<times> persistent_volume list) \<times> 'w st) option" where
  "clientListPVs env = apiCall (ReqList ''PersistentVolume'') (kListPVs env)"

definition clientGetCR :: "'w kube \<Rightarrow> string \<Rightarrow> string \<Rightarrow> 'w st \<Rightarrow> ((goerr + nvmesh) \<times> 'w st) option" where
  "clientGetCR env ns name = apiCall (ReqGetCR ns name) (kGetCR env ns name)"

definition clientUpdateCR :: "'w kube \<Rightarrow> nvmesh \<Rightarrow> 'w st \<Rightarrow> ((goerr + nvmesh) \<times> 'w st) option" where
  "clientUpdateCR env cr = apiCall (ReqUpdateCR cr) (kUpdateCR env cr)"

definition clientUpdateStatus :: "'w kube \<Rightarrow> nvmesh \<Rightarrow> 'w st \<Rightarrow> ((goerr + nvmesh) \<times> 'w st) option" where
  "clientUpdateStatus env cr = apiCall (ReqUpdateStatus cr) (kUpdateStatus env cr)"

text \<open>\<open>EventManager.Warning\<close> and \<open>EventManager.Normal\<close> of events.go.\<close>

definition eventWarning :: "'w kube \<Rightarrow> nvmesh \<Rightarrow> string \<Rightarrow> string \<Rightarrow> 'w st \<Rightarrow> (unit \<times> 'w st) option" where
  "eventWarning env cr reason message =
     apiCall (ReqEvent cr ''Warning'' reason message) (unitCall (kEvent env cr ''Warning'' reason message))"

definition eventNormal :: "'w kube \<Rightarrow> nvmesh \<Rightarrow> string \<Rightarrow> string \<Rightarrow> 'w st \<Rightarrow> (unit \<times> 'w st) option" where
  "eventNormal env cr reason message =
     apiCall (ReqEvent cr ''Normal'' reason message) (unitCall (kEvent env cr ''Normal'' reason message))"

section \<open>What a computation may do\<close>

text \<open>
  \<open>steps R f\<close>: every run of \<open>f\<close> that does not panic leads from a state to one related by
  \<open>R\<close>. For a preorder \<open>R\<close> this composes; the introduction rules, one per construct, are
  in \<open>steps_intro\<close>. Two preorders matter: \<open>grows P\<close> (only requests satisfying \<open>P\<close>
  are added) and \<open>keeps J\<close> (the property \<open>J\<close> of the world is not lost).
\<close>

named_theorems steps_intro

definition preord :: "('s \<Rightarrow> 's \<Rightarrow> bool) \<Rightarrow> bool" where
  "preord R \<longleftrightarrow> reflp R \<and> transp R"

definition steps :: "('s \<Rightarrow> 's \<Rightarrow> bool) \<Rightarrow> ('s \<Rightarrow> ('a \<times> 's) option) \<Rightarrow> bool" where
  "steps R f \<longleftrightarrow> (\<forall>s r s'. f s = Some (r, s') \<longrightarrow> R s s')"

lemma stepsD: "steps R f \<Longrightarrow> f s = Some (r, s') \<Longrightarrow> R s s'"
  by (simp add: steps_def)

lemma stepsI: "(\<And>s r s'. f s = Some (r, s') \<Longrightarrow> R s s') \<Longrightarrow> steps R f"
  by (simp add: steps_def)

lemma preord_refl: "preord R \<Longrightarrow> R s s"
  by (simp add: preord_def reflpD)

lemma preord_trans: "preord R \<Longrightarrow> R s t \<Longrightarrow> R t u \<Longrightarrow> R s u"
  unfolding preord_def by (blast dest: transpD)

lemma steps_return [steps_intro]: "preord R \<Longrightarrow> steps R (\<lambda>s. Some (x, s))"
  by (auto intro: stepsI preord_refl)

lemma steps_panic [steps_intro]: "steps R (\<lambda>s. None)"
  by (simp add: steps_def)

lemma steps_bind [steps_intro]:
  assumes R: "preord R" and f: "steps R f" and g: "\<And>x. steps R (g x)"
  shows "steps R (\<lambda>s. f s \<bind> (\<lambda>(x, s). g x s))"
proof (rule stepsI)
  fix s r s''
  assume "f s \<bind> (\<lambda>(x, s). g x s) = Some (r, s'')"
  then obtain x s' where "f s = Some (x, s')" and "g x s' = Some (r, s'')"
    by (auto simp: bind_case_prod_Some)
  then show "R s s''" using preord_trans [OF R] stepsD [OF f] stepsD [OF g] by blast
qed

text \<open>A pure step that may panic, before the rest.\<close>

lemma steps_bind_pure [steps_intro]:
  "(\<And>x. m = Some x \<Longrightarrow> steps R (g x)) \<Longrightarrow> steps R (\<lambda>s. m \<bind> (\<lambda>x. g x s))"
  by (cases m) (auto simp: steps_def)

lemma steps_if [steps_intro]:
  "(b \<Longrightarrow> steps R f) \<Longrightarrow> (\<not> b \<Longrightarrow> steps R g) \<Longrightarrow> steps R (\<lambda>s. if b then f s else g s)"
  by (cases b) auto

lemma steps_case_option [steps_intro]:
  "(x = None \<Longrightarrow> steps R f) \<Longrightarrow> (\<And>y. x = Some y \<Longrightarrow> steps R (g y)) \<Longrightarrow>
   steps R (\<lambda>s. case x of None \<Rightarrow> f s | Some y \<Rightarrow> g y s)"
  by (cases x) auto

lemma steps_case_sum [steps_intro]:
  "(\<And>y. x = Inl y \<Longrightarrow> steps R (f y)) \<Longrightarrow> (\<And>y. x = Inr y \<Longrightarrow> steps R (g y)) \<Longrightarrow>
   steps R (\<lambda>s. case x of Inl y \<Rightarrow> f y s | Inr y \<Rightarrow> g y s)"
  by (cases x) auto

lemma steps_case_prod [steps_intro]:
  "(\<And>a b. x = (a, b) \<Longrightarrow> steps R (f a b)) \<Longrightarrow> steps R (\<lambda>s. (case x of (a, b) \<Rightarrow> f a b) s)"
  by (cases x) auto

lemma steps_case_prod' [steps_intro]:
  "(\<And>a b. x = (a, b) \<Longrightarrow> steps R (f a b)) \<Longrightarrow> steps R (\<lambda>s. case x of (a, b) \<Rightarrow> f a b s)"
  by (cases x) auto

lemma steps_case_prod_eta [steps_intro]:
  "(\<And>a b. x = (a, b) \<Longrightarrow> steps R (f a b)) \<Longrightarrow> steps R (case x of (a, b) \<Rightarrow> f a b)"
  by (cases x) auto

lemma steps_case_goerr [steps_intro]:
  "(\<And>a b. steps R (f1 a b)) \<Longrightarrow> (\<And>a. steps R (f2 a)) \<Longrightarrow> steps R f3 \<Longrightarrow> (\<And>a. steps R (f4 a)) \<Longrightarrow>
   (\<And>a b. steps R (f5 a b)) \<Longrightarrow> (\<And>a. steps R (f6 a)) \<Longrightarrow> (\<And>a b. steps R (f7 a b)) \<Longrightarrow>
   steps R (\<lambda>s. case e of StatusError a b \<Rightarrow> f1 a b s | NoKindMatchError a \<Rightarrow> f2 a s | ErrNoDocuments \<Rightarrow> f3 s
     | ServerSelectionError a \<Rightarrow> f4 a s | YamlFileParseError a b \<Rightarrow> f5 a b s | ErrorString a \<Rightarrow> f6 a s
     | WrappedError a b \<Rightarrow> f7 a b s)"
  by (cases e) auto

lemma steps_let [steps_intro]: "steps R (f m) \<Longrightarrow> steps R (\<lambda>s. let x = m in f x s)"
  by simp

lemma steps_mono: "steps R f \<Longrightarrow> (\<And>s t. R s t \<Longrightarrow> Q s t) \<Longrightarrow> steps Q f"
  unfolding steps_def by blast

subsection \<open>Requests and the world\<close>

definition grows :: "(request \<Rightarrow> bool) \<Rightarrow> 'w st \<Rightarrow> 'w st \<Rightarrow> bool" where
  "grows P s s' \<longleftrightarrow> (\<exists>l. reqs s' = reqs s @ l \<and> list_all P l)"

abbreviation emits :: "(request \<Rightarrow> bool) \<Rightarrow> ('w st \<Rightarrow> ('a \<times> 'w st) option) \<Rightarrow> bool" where
  "emits P f \<equiv> steps (grows P) f"

definition keeps :: "('w \<Rightarrow> bool) \<Rightarrow> 'w st \<Rightarrow> 'w st \<Rightarrow> bool" where
  "keeps J s s' \<longleftrightarrow> (J (world s) \<longrightarrow> J (world s'))"

lemma preord_grows [simp, steps_intro]: "preord (grows P)"
proof -
  have "reflp (grows P)" by (auto simp: grows_def intro: reflpI)
  moreover have "transp (grows P)"
  proof (rule transpI)
    fix s t u :: "'w st"
    assume "grows P s t" and "grows P t u"
    then obtain l l' where "reqs t = reqs s @ l" "list_all P l" "reqs u = reqs t @ l'" "list_all P l'"
      by (auto simp: grows_def)
    then show "grows P s u" by (auto simp: grows_def intro!: exI [of _ "l @ l'"])
  qed
  ultimately show ?thesis by (simp add: preord_def)
qed

lemma preord_keeps [simp, steps_intro]: "preord (keeps J)"
  by (auto simp: preord_def keeps_def intro: reflpI transpI)

lemma growsE:
  assumes "grows P s s'"
  obtains l where "reqs s' = reqs s @ l" and "list_all P l"
  using assms unfolding grows_def by blast

lemma grows_mono: "grows P s s' \<Longrightarrow> (\<And>q. P q \<Longrightarrow> Q q) \<Longrightarrow> grows Q s s'"
  by (auto simp: grows_def list_all_iff)

lemma emits_weaken: "emits P f \<Longrightarrow> (\<And>q. P q \<Longrightarrow> Q q) \<Longrightarrow> emits Q f"
  by (erule steps_mono) (auto simp: grows_def list_all_iff)

lemma emits_apiCall: "P q \<Longrightarrow> emits P (apiCall q f)"
  by (auto simp: steps_def grows_def apiCall_def split: prod.splits)

lemma emits_localCall: "emits P (localCall f)"
  by (auto simp: steps_def grows_def localCall_def split: prod.splits)

lemma keeps_apiCall: "(\<And>w. J w \<Longrightarrow> J (snd (f w))) \<Longrightarrow> steps (keeps J) (apiCall q f)"
  by (auto simp: steps_def keeps_def apiCall_def split: prod.splits) (metis snd_conv)

lemma keeps_localCall: "(\<And>w. J w \<Longrightarrow> J (snd (f w))) \<Longrightarrow> steps (keeps J) (localCall f)"
  by (auto simp: steps_def keeps_def localCall_def split: prod.splits) (metis snd_conv)

text \<open>The requests that only read, and the others by what they change.\<close>

fun isRead :: "request \<Rightarrow> bool" where
  "isRead (ReqGet _ _ _) = True"
| "isRead (ReqList _) = True"
| "isRead (ReqGetCR _ _) = True"
| "isRead _ = False"

fun isDelete :: "request \<Rightarrow> bool" where
  "isDelete (ReqDelete _) = True"
| "isDelete _ = False"

fun isCreate :: "request \<Rightarrow> bool" where
  "isCreate (ReqCreate _) = True"
| "isCreate _ = False"

fun isUpdate :: "request \<Rightarrow> bool" where
  "isUpdate (ReqUpdate _) = True"
| "isUpdate _ = False"

lemmas client_defs =
  clientGet_def clientCreate_def clientUpdate_def clientDelete_def clientListPods_def
  clientListNodes_def clientListPVCs_def clientListVolumeAttachments_def clientListPVs_def
  clientGetCR_def clientUpdateCR_def clientUpdateStatus_def eventWarning_def eventNormal_def

lemma emits_client [steps_intro]:
  "P (ReqGet kind ns name) \<Longrightarrow> emits P (clientGet env kind ns name)"
  "P (ReqCreate x) \<Longrightarrow> emits P (clientCreate env x)"
  "P (ReqUpdate x) \<Longrightarrow> emits P (clientUpdate env x)"
  "P (ReqDelete x) \<Longrightarrow> emits P (clientDelete env x)"
  "P (ReqList ''Pod'') \<Longrightarrow> emits P (clientListPods env q)"
  "P (ReqList ''Node'') \<Longrightarrow> emits P (clientListNodes env ls)"
  "P (ReqList ''PersistentVolumeClaim'') \<Longrightarrow> emits P (clientListPVCs env r)"
  "P (ReqList ''VolumeAttachment'') \<Longrightarrow> emits P (clientListVolumeAttachments env)"
  "P (ReqList ''PersistentVolume'') \<Longrightarrow> emits P (clientListPVs env)"
  "P (ReqGetCR ns name) \<Longrightarrow> emits P (clientGetCR env ns name)"
  "P (ReqUpdateCR cr) \<Longrightarrow> emits P (clientUpdateCR env cr)"
  "P (ReqUpdateStatus cr) \<Longrightarrow> emits P (clientUpdateStatus env cr)"
  "P (ReqEvent cr ''Warning'' t m) \<Longrightarrow> emits P (eventWarning env cr t m)"
  "P (ReqEvent cr ''Normal'' t m) \<Longrightarrow> emits P (eventNormal env cr t m)"
  by (simp_all add: client_defs emits_apiCall)

text \<open>
  The preorders that admit reading: every lookup, every list, the clock and the file system.
\<close>

definition allowsReads :: "'w kube \<Rightarrow> ('w st \<Rightarrow> 'w st \<Rightarrow> bool) \<Rightarrow> bool" where
  "allowsReads env R \<longleftrightarrow>
     (\<forall>kind ns name. steps R (clientGet env kind ns name)) \<and>
     (\<forall>q. steps R (clientListPods env q)) \<and>
     (\<forall>ls. steps R (clientListNodes env ls)) \<and>
     (\<forall>r. steps R (clientListPVCs env r)) \<and>
     steps R (clientListVolumeAttachments env) \<and>
     steps R (clientListPVs env) \<and>
     (\<forall>ns name. steps R (clientGetCR env ns name)) \<and>
     steps R (localCall (timeNow env)) \<and>
     (\<forall>f. steps R (localCall (fsReadFile env f))) \<and>
     (\<forall>d. steps R (localCall (fsReadDir env d))) \<and>
     (\<forall>d. steps R (localCall (fsWalk env d))) \<and>
     (\<forall>m. steps R (localCall (mapOrder env m)))"

lemma allowsReadsD:
  assumes "allowsReads env R"
  shows "steps R (clientGet env kind ns name)" "steps R (clientListPods env q)"
    "steps R (clientListNodes env ls)" "steps R (clientListPVCs env r)"
    "steps R (clientListVolumeAttachments env)" "steps R (clientListPVs env)"
    "steps R (clientGetCR env ns name)" "steps R (localCall (timeNow env))"
    "steps R (localCall (fsReadFile env f))" "steps R (localCall (fsReadDir env d))"
    "steps R (localCall (fsWalk env d))" "steps R (localCall (mapOrder env m))"
  using assms unfolding allowsReads_def by blast+

definition allowsUpdates :: "'w kube \<Rightarrow> ('w st \<Rightarrow> 'w st \<Rightarrow> bool) \<Rightarrow> bool" where
  "allowsUpdates env R \<longleftrightarrow> (\<forall>x. steps R (clientUpdate env x))"

lemma allowsUpdatesD: "allowsUpdates env R \<Longrightarrow> steps R (clientUpdate env x)"
  by (simp add: allowsUpdates_def)

lemma allowsReads_grows [simp]: "(\<And>q. isRead q \<Longrightarrow> P q) \<Longrightarrow> allowsReads env (grows P)"
  by (auto simp: allowsReads_def intro: emits_localCall emits_client)

lemma allowsUpdates_grows [simp]: "(\<And>q. isUpdate q \<Longrightarrow> P q) \<Longrightarrow> allowsUpdates env (grows P)"
  by (auto simp: allowsUpdates_def intro: emits_client)

section \<open>RetryOnConflict\<close>

text \<open>
  The documented behaviour of client-go's \<open>RetryOnConflict\<close>: it runs the function again while it
  returns a conflict and attempts are left, and returns the last result. The number of attempts is
  open. \<open>i\<close> counts the attempts, as the closures of the operator tell the first one apart.
\<close>

fun attempts :: "nat \<Rightarrow> (nat \<Rightarrow> 's \<Rightarrow> (goerr option \<times> 's) option) \<Rightarrow> nat \<Rightarrow> 's \<Rightarrow> (goerr option \<times> 's) option" where
  "attempts 0 f i s = f i s"
| "attempts (Suc n) f i s = do {
     (err, s) \<leftarrow> f i s;
     case err of
       None \<Rightarrow> Some (None, s)
     | Some e \<Rightarrow> if isConflict e then attempts n f (Suc i) s else Some (Some e, s)
   }"

definition retries :: "((nat \<Rightarrow> 's \<Rightarrow> (goerr option \<times> 's) option) \<Rightarrow> 's \<Rightarrow> (goerr option \<times> 's) option) \<Rightarrow> bool" where
  "retries r \<longleftrightarrow> (\<exists>n. \<forall>f s. r f s = attempts n f 0 s)"

lemma attempts_rule:
  assumes step: "\<And>i s e s'. f i s = Some (e, s') \<Longrightarrow> J s \<Longrightarrow> J s'"
    and "attempts n f i s = Some (e, s')" and "J s"
  shows "J s'"
  using assms(2,3)
proof (induction n arbitrary: i s)
  case 0
  then show ?case using step by simp
next
  case (Suc n)
  from Suc.prems(1) obtain e1 s1 where f: "f i s = Some (e1, s1)"
    and rest: "(case e1 of None \<Rightarrow> Some (None, s1)
      | Some e \<Rightarrow> if isConflict e then attempts n f (Suc i) s1 else Some (Some e, s1)) = Some (e, s')"
    by (auto simp: bind_case_prod_Some)
  from f Suc.prems(2) have "J s1" by (rule step)
  with rest Suc.IH show ?case by (auto split: option.splits if_splits)
qed

lemma retries_rule:
  assumes "retries r" and "\<And>i s e s'. f i s = Some (e, s') \<Longrightarrow> J s \<Longrightarrow> J s'"
    and "r f s = Some (e, s')" and "J s"
  shows "J s'"
  using assms attempts_rule [of f J] by (metis retries_def)

lemma steps_attempts:
  assumes R: "preord R"
    and f: "\<And>i p s e p' s'. f i (p, s) = Some (e, p', s') \<Longrightarrow> R s s'"
    and run: "attempts n f i (p, s) = Some (e, p', s')"
  shows "R s s'"
  using run
proof (induction n arbitrary: i p s)
  case 0
  then show ?case using f by simp
next
  case (Suc n)
  then obtain e1 q t where 1: "f i (p, s) = Some (e1, q, t)"
    and rest: "(case e1 of None \<Rightarrow> Some (None, q, t)
      | Some e \<Rightarrow> if isConflict e then attempts n f (Suc i) (q, t) else Some (Some e, q, t)) = Some (e, p', s')"
    by (auto simp: bind_case_prod_Some)
  from f [OF 1] have "R s t" .
  moreover have "R t s'"
    using rest Suc.IH preord_refl [OF R] by (auto split: option.splits if_splits)
  ultimately show ?case by (rule preord_trans [OF R])
qed

text \<open>The retried computation may do what one attempt may do.\<close>

lemma steps_retry:
  assumes "retries r" and "preord R"
    and "\<And>i p s e p' s'. f i (p, s) = Some (e, p', s') \<Longrightarrow> R s s'"
    and "r f (p, s) = Some (e, p', s')"
  shows "R s s'"
proof -
  from assms(1) obtain n where n: "\<forall>f s. r f s = attempts n f 0 s" unfolding retries_def ..
  have run: "attempts n f 0 (p, s) = Some (e, p', s')" using assms(4) by (simp only: n)
  show ?thesis by (rule steps_attempts [OF assms(2) _ run]) (rule assms(3))
qed

lemma retries_attempts: "retries (\<lambda>f s. attempts n f 0 s)"
  by (auto simp: retries_def)

end
