(* ===== verification/YamlUtils.thy ===== *)
theory YamlUtils
  imports KubeClient
begin

text \<open>
  pkg/yamlutils/yamlutils.go: reading a YAML file of several documents into typed objects. The
  decoder of a single document is the library's (\<open>kDecode\<close> of the environment); it returns the
  object, if any, and an error, if any. The type assertion \<open>(obj).(client.Object)\<close> panics on a
  nil object, also when the decoder returned an error: the option's \<open>None\<close>.
\<close>

type_synonym decoder = "string \<Rightarrow> kobj option \<times> goerr option"

record yaml_document_parse_error =
  ype_Message :: string
  ype_YamlContent :: string
  ype_DocumentIndexInFile :: nat
  ype_Err :: goerr

definition singleYamlDocStringToObject :: "string \<Rightarrow> decoder \<Rightarrow> (kobj \<times> goerr option) option" where
  "singleYamlDocStringToObject yaml decoder =
     (let (obj, err) = decoder yaml;
          err = map_option (WrappedError ''Error while decoding YAML object'') err
      in case obj of None \<Rightarrow> None | Some obj \<Rightarrow> Some (obj, err))"

text \<open>The loop over the documents, with the index \<open>i\<close> of the next one.\<close>

fun yamlDocsToObjects ::
  "nat \<Rightarrow> string list \<Rightarrow> decoder \<Rightarrow> (kobj list \<times> yaml_document_parse_error list) option" where
  "yamlDocsToObjects i [] decoder = Some ([], [])"
| "yamlDocsToObjects i (doc # docs) decoder = do {
     (obj, err) \<leftarrow> singleYamlDocStringToObject doc decoder;
     (objs, failed) \<leftarrow> yamlDocsToObjects (Suc i) docs decoder;
     case err of
       Some e \<Rightarrow> Some (objs, \<lparr>ype_Message = ''Failed to parse yaml document'', ype_YamlContent = doc,
                    ype_DocumentIndexInFile = i, ype_Err = e\<rparr> # failed)
     | None \<Rightarrow> Some (obj # objs, failed)
   }"

definition yamlSeparator :: string where
  "yamlSeparator = CHR 0x0A # ''---'' @ [CHR 0x0A]"

definition yamlStringToObjects :: "string \<Rightarrow> decoder \<Rightarrow> (kobj list \<times> goerr option) option" where
  "yamlStringToObjects yamlString decoder = do {
     (objs, failedDocs) \<leftarrow> yamlDocsToObjects 0 (go_split yamlSeparator yamlString) decoder;
     if length failedDocs > 0 then
       Some (objs, Some (YamlFileParseError
         (''yaml with multiple documents had '' @ nat_dec (length failedDocs) @ '' documents that failed to parse.'')
         (map ype_DocumentIndexInFile failedDocs)))
     else Some (objs, None)
   }"

definition YamlFileToString :: "'w kube \<Rightarrow> string \<Rightarrow> 'w st \<Rightarrow> ((goerr + string) \<times> 'w st) option" where
  "YamlFileToString env filename s = do {
     (r, s) \<leftarrow> localCall (fsReadFile env filename) s;
     case r of
       Inl err \<Rightarrow> Some (Inl (WrappedError
         (''Error while trying to read from YAML file. filename: '' @ filename @ '', working dir: '' @ osGetwd env) err), s)
     | Inr bytes \<Rightarrow> Some (Inr bytes, s)
   }"

definition YamlFileToObjects ::
  "'w kube \<Rightarrow> string \<Rightarrow> 'w st \<Rightarrow> ((kobj list \<times> goerr option) \<times> 'w st) option" where
  "YamlFileToObjects env filename s = do {
     (r, s) \<leftarrow> YamlFileToString env filename s;
     case r of
       Inl err \<Rightarrow> Some (([], Some err), s)
     | Inr yamlString \<Rightarrow> do {
         result \<leftarrow> yamlStringToObjects yamlString (kDecode env);
         Some (result, s)
       }
   }"

lemma steps_YamlFileToObjects [steps_intro]:
  "preord R \<Longrightarrow> allowsReads env R \<Longrightarrow> steps R (YamlFileToObjects env filename)"
  unfolding YamlFileToObjects_def YamlFileToString_def by (intro steps_intro allowsReadsD)

section \<open>What the loop computes\<close>

text \<open>The decoder returns an object for every document it is given.\<close>

definition decodesAll :: "decoder \<Rightarrow> string list \<Rightarrow> bool" where
  "decodesAll decoder docs \<longleftrightarrow> (\<forall>doc\<in>set docs. fst (decoder doc) \<noteq> None)"

text \<open>The objects of the documents that decode without error, and the positions of the others.\<close>

definition decodedObjects :: "decoder \<Rightarrow> string list \<Rightarrow> kobj list" where
  "decodedObjects decoder docs =
     map (\<lambda>doc. the (fst (decoder doc))) (filter (\<lambda>doc. snd (decoder doc) = None) docs)"

definition failedIndices :: "decoder \<Rightarrow> string list \<Rightarrow> nat list" where
  "failedIndices decoder docs = filter (\<lambda>j. snd (decoder (docs ! j)) \<noteq> None) [0..<length docs]"

lemma failedIndices_Cons:
  "failedIndices decoder (doc # docs) =
     (if snd (decoder doc) \<noteq> None then [0] else []) @ map Suc (failedIndices decoder docs)"
  by (simp add: failedIndices_def upt_conv_Cons map_Suc_upt [symmetric] filter_map comp_def del: upt_Suc)

lemma failedIndices_Nil_iff: "failedIndices decoder docs = [] \<longleftrightarrow> (\<forall>doc\<in>set docs. snd (decoder doc) = None)"
  by (auto simp: failedIndices_def filter_empty_conv all_set_conv_all_nth)

lemma yamlDocsToObjects_Some:
  "decodesAll decoder docs \<Longrightarrow>
   \<exists>failed. yamlDocsToObjects i docs decoder =
      Some (decodedObjects decoder docs, failed)
    \<and> map ype_DocumentIndexInFile failed = map (\<lambda>j. i + j) (failedIndices decoder docs)"
proof (induction docs arbitrary: i)
  case Nil
  then show ?case by (simp add: decodedObjects_def failedIndices_def)
next
  case (Cons doc docs)
  then obtain failed where
    f: "yamlDocsToObjects (Suc i) docs decoder =
        Some (decodedObjects decoder docs, failed)"
    and ix: "map ype_DocumentIndexInFile failed =
        map (\<lambda>j. Suc i + j) (failedIndices decoder docs)"
    using Cons.IH [of "Suc i"] by (auto simp: decodesAll_def)
  obtain x err where d: "decoder doc = (Some x, err)"
    using Cons.prems by (cases "decoder doc") (auto simp: decodesAll_def)
  have "map (\<lambda>j. i + j) (failedIndices decoder (doc # docs)) =
      (if err \<noteq> None then [i] else []) @ map ype_DocumentIndexInFile failed"
    unfolding ix by (simp add: failedIndices_Cons d comp_def)
  then show ?case
    by (cases err) (simp_all add: f d singleYamlDocStringToObject_def decodedObjects_def)
qed

lemma yamlDocsToObjects_panic:
  "\<not> decodesAll decoder docs \<Longrightarrow> yamlDocsToObjects i docs decoder = None"
proof (induction docs arbitrary: i)
  case Nil
  then show ?case by (simp add: decodesAll_def)
next
  case (Cons doc docs)
  show ?case
  proof (cases "fst (decoder doc)")
    case None
    then show ?thesis by (cases "decoder doc") (simp add: singleYamlDocStringToObject_def)
  next
    case (Some x)
    with Cons have "yamlDocsToObjects (Suc i) docs decoder = None" by (simp add: decodesAll_def)
    then show ?thesis by (auto simp: singleYamlDocStringToObject_def split: option.splits prod.splits)
  qed
qed

lemma yamlStringToObjects_Some:
  assumes "yamlStringToObjects y decoder = Some (objs, err)"
  shows "decodesAll decoder (go_split yamlSeparator y)"
    and "objs = decodedObjects decoder (go_split yamlSeparator y)"
    and "err = None \<longleftrightarrow> (\<forall>doc\<in>set (go_split yamlSeparator y). snd (decoder doc) = None)"
proof -
  let ?docs = "go_split yamlSeparator y"
  show all: "decodesAll decoder ?docs"
  proof (rule ccontr)
    assume "\<not> decodesAll decoder ?docs"
    from yamlDocsToObjects_panic [OF this, of 0] assms show False
      by (simp add: yamlStringToObjects_def)
  qed
  obtain failed where f: "yamlDocsToObjects 0 ?docs decoder =
      Some (decodedObjects decoder ?docs, failed)"
    and ix: "map ype_DocumentIndexInFile failed = map (\<lambda>j. 0 + j) (failedIndices decoder ?docs)"
    using yamlDocsToObjects_Some [OF all, of 0] by blast
  from f assms show "objs = decodedObjects decoder ?docs"
    by (auto simp: yamlStringToObjects_def split: if_splits)
  have "failed = [] \<longleftrightarrow> map ype_DocumentIndexInFile failed = []" by simp
  also have "\<dots> \<longleftrightarrow> (\<forall>doc\<in>set ?docs. snd (decoder doc) = None)"
    unfolding ix by (simp add: failedIndices_Nil_iff)
  finally show "err = None \<longleftrightarrow> (\<forall>doc\<in>set ?docs. snd (decoder doc) = None)"
    using f assms by (auto simp: yamlStringToObjects_def split: if_splits)
qed

section \<open>Properties\<close>


text \<open>A decoder that knows one document, and one that reports every other as an error.\<close>

definition sampleDecoder :: decoder where
  "sampleDecoder doc = (Some (Deployment (newMeta doc '''')),
     if doc = ''a'' then None else Some (ErrorString ''bad''))"


text \<open>a document for which the decoder returns no object (as it does when it fails) panics
  the whole file: the error is never reported as a \<open>YamlFileParseError\<close>.\<close>

theorem yamlStringToObjects_panics:
  assumes "doc \<in> set (go_split yamlSeparator y)" and "fst (decoder doc) = None"
  shows "yamlStringToObjects y decoder = None"
proof -
  have "\<not> decodesAll decoder (go_split yamlSeparator y)" using assms by (auto simp: decodesAll_def)
  from yamlDocsToObjects_panic [OF this, of 0] show ?thesis by (simp add: yamlStringToObjects_def)
qed

theorem yamlStringToObjects_panics_witness:
  "yamlStringToObjects ''x'' (\<lambda>doc. (None, Some (ErrorString doc))) = None"
  by (rule yamlStringToObjects_panics [of "''x''"]) (simp_all add: yamlSeparator_def)

end
