(* ===== verification/CtrlUtils.thy ===== *)
theory CtrlUtils
  imports YamlUtils
begin

text \<open>
  pkg/controllers/ctrl_utils.go: the operations all component reconcilers share. The interface
  \<open>NVMeshComponent\<close> of nvmesh_controller.go (what a component contributes to the shared loop)
  is the record \<open>component\<close>; its contract is the locale \<open>nvmesh_component\<close>, which the three
  controllers' theories interpret.
\<close>

section \<open>Results\<close>

text \<open>\<open>ctrl.Result\<close>; a duration is in nanoseconds.\<close>

record ctrl_result =
  Requeue :: bool
  RequeueAfter :: int

definition second :: int where
  "second = 1000000000"

definition DoNotRequeue :: ctrl_result where
  "DoNotRequeue = \<lparr>Requeue = False, RequeueAfter = 0\<rparr>"

definition RequeueIn :: "int \<Rightarrow> ctrl_result" where
  "RequeueIn duration = \<lparr>Requeue = True, RequeueAfter = duration\<rparr>"

definition RequeueWithDefaultBackOff :: ctrl_result where
  "RequeueWithDefaultBackOff = \<lparr>Requeue = True, RequeueAfter = 0\<rparr>"

lemma result_simps [simp]:
  "\<not> Requeue DoNotRequeue" "RequeueAfter DoNotRequeue = 0"
  "Requeue (RequeueIn d)" "RequeueAfter (RequeueIn d) = d"
  "Requeue RequeueWithDefaultBackOff" "RequeueAfter RequeueWithDefaultBackOff = 0"
  by (simp_all add: DoNotRequeue_def RequeueIn_def RequeueWithDefaultBackOff_def)

section \<open>Labels, kinds, names\<close>

definition nvmeshMgmtLabelKey :: string where "nvmeshMgmtLabelKey = ''nvmesh.excelero.com/nvmesh-management''"
definition nvmeshClientLabelKey :: string where "nvmeshClientLabelKey = ''nvmesh.excelero.com/nvmesh-client''"
definition nvmeshTargetLabelKey :: string where "nvmeshTargetLabelKey = ''nvmesh.excelero.com/nvmesh-target''"
definition nvmeshClusterNameLabelKey :: string where "nvmeshClusterNameLabelKey = ''nvmesh.excelero.com/cluster-name''"
definition deleteOnUninstallLabelKey :: string where "deleteOnUninstallLabelKey = ''nvmesh.excelero.com/delete-on-uninstall''"
definition managedByLabelKey :: string where "managedByLabelKey = ''app.kubernetes.io/managed-by''"
definition fileServerSecretName :: string where "fileServerSecretName = ''nvmesh-file-server-cred''"
definition exceleroRegistrySecretName :: string where "exceleroRegistrySecretName = ''excelero-registry-cred''"
definition operatorSCCName :: string where "operatorSCCName = ''privileged''"
definition clusterServiceAccountName :: string where "clusterServiceAccountName = ''nvmesh-cluster''"

text \<open>From nvmesh_controller.go.\<close>

definition GloballyNamedKinds :: "string list" where
  "GloballyNamedKinds = [''CSIDriver'', ''ClusterRole'', ''ClusterRoleBinding'', ''StorageClass'',
     ''CustomResourceDefinition'', ''SecurityContextConstraints'']"

fun stringInSlice :: "string \<Rightarrow> string list \<Rightarrow> bool" where
  "stringInSlice a [] = False"
| "stringInSlice a (b # list) = (if b = a then True else stringInSlice a list)"

lemma stringInSlice_iff [simp]: "stringInSlice a list \<longleftrightarrow> a \<in> set list"
  by (induction list) auto

definition getOperatorLabels :: "nvmesh \<Rightarrow> labels" where
  "getOperatorLabels cr =
     [(managedByLabelKey, ''nvmesh-operator''), (nvmeshClusterNameLabelKey, crName cr)]"

text \<open>The range loop over \<open>opLabels\<close>; its two keys differ, so its order does not matter.\<close>

fun copyLabels :: "labels \<Rightarrow> labels \<Rightarrow> labels" where
  "copyLabels [] labels = labels"
| "copyLabels ((k, v) # rest) labels = copyLabels rest (AList.update k v labels)"

definition addOperatorLabels :: "nvmesh \<Rightarrow> kobj \<Rightarrow> kobj" where
  "addOperatorLabels cr obj =
     (let labels = (case labelsOf obj of None \<Rightarrow> [] | Some ls \<Rightarrow> ls)
      in setLabels (copyLabels (getOperatorLabels cr) labels) obj)"

definition hasOperatorLabels :: "nvmesh \<Rightarrow> kobj \<Rightarrow> bool" where
  "hasOperatorLabels cr obj \<longleftrightarrow>
     (case labelsOf obj of
        None \<Rightarrow> False
      | Some ls \<Rightarrow> map_of ls managedByLabelKey = Some ''nvmesh-operator''
          \<and> map_of ls nvmeshClusterNameLabelKey = Some (crName cr))"

lemma addOperatorLabels_simps [simp]:
  "kindOf (addOperatorLabels cr x) = kindOf x"
  "nameOf (addOperatorLabels cr x) = nameOf x"
  "namespaceOf (addOperatorLabels cr x) = namespaceOf x"
  "hasOperatorLabels cr (addOperatorLabels cr x)"
  by (simp_all add: addOperatorLabels_def Let_def hasOperatorLabels_def getOperatorLabels_def update_conv
      managedByLabelKey_def nvmeshClusterNameLabelKey_def)

definition getImagePullPolicy :: "nvmesh \<Rightarrow> pull_policy" where
  "getImagePullPolicy cr = (if dbg_ImagePullPolicyAlways (debug cr) then PullAlways else PullIfNotPresent)"

definition imagePullSecretsFromName :: "string \<Rightarrow> string list" where
  "imagePullSecretsFromName secretName = [secretName]"

definition getExceleroRegistryPullSecrets :: "string list" where
  "getExceleroRegistryPullSecrets = imagePullSecretsFromName exceleroRegistrySecretName"

definition getClusterServiceAccountName :: "nvmesh \<Rightarrow> string" where
  "getClusterServiceAccountName cr = clusterServiceAccountName"

text \<open>From nvmesh_controller.go.\<close>

definition getCoreFullImageName :: "nvmesh \<Rightarrow> string \<Rightarrow> string" where
  "getCoreFullImageName cr imageName =
     core_ImageRegistry (core cr) @ ''/'' @ imageName @ '':'' @ core_ImageVersionTag (core cr)"

definition addKeepRunningAfterFailureEnvVar :: "nvmesh \<Rightarrow> container \<Rightarrow> container" where
  "addKeepRunningAfterFailureEnvVar cr c =
     (if \<not> dbg_ContainersKeepRunningAfterFailure (debug cr) then c
      else c\<lparr>c_env := c_env c @ [\<lparr>ev_name = ''KEEP_RUNNING_WHEN_FINISHED'', ev_value = ''true'', ev_valueFrom = None\<rparr>]\<rparr>)"

section \<open>Owner references\<close>

definition referSameObject :: "'w kube \<Rightarrow> owner_reference \<Rightarrow> owner_reference \<Rightarrow> bool" where
  "referSameObject env a b =
     (case kParseGroupVersion env (or_apiVersion a) of
        Inl _ \<Rightarrow> False
      | Inr (aGroup, _) \<Rightarrow>
          (case kParseGroupVersion env (or_apiVersion b) of
             Inl _ \<Rightarrow> False
           | Inr (bGroup, _) \<Rightarrow> aGroup = bGroup \<and> or_kind a = or_kind b \<and> or_name a = or_name b))"

text \<open>The index, or -1.\<close>

fun indexOwnerRefFrom :: "'w kube \<Rightarrow> int \<Rightarrow> owner_reference list \<Rightarrow> owner_reference \<Rightarrow> int" where
  "indexOwnerRefFrom env index [] ref = -1"
| "indexOwnerRefFrom env index (r # rs) ref =
     (if referSameObject env r ref then index else indexOwnerRefFrom env (index + 1) rs ref)"

definition indexOwnerRef :: "'w kube \<Rightarrow> owner_reference list \<Rightarrow> owner_reference \<Rightarrow> int" where
  "indexOwnerRef env = indexOwnerRefFrom env 0"

definition addOwnerReference :: "'w kube \<Rightarrow> owner_reference \<Rightarrow> obj_meta \<Rightarrow> obj_meta" where
  "addOwnerReference env ref object =
     (let owners = om_ownerReferences object;
          idx = indexOwnerRef env owners ref;
          owners = (if idx = -1 then owners @ [ref] else owners[nat idx := ref])
      in object\<lparr>om_ownerReferences := owners\<rparr>)"

definition setControllerReferenceOnUnstructured ::
  "'w kube \<Rightarrow> nvmesh \<Rightarrow> obj_meta \<Rightarrow> string \<Rightarrow> string \<Rightarrow> obj_meta" where
  "setControllerReferenceOnUnstructured env owner object gv kind =
     addOwnerReference env
       \<lparr>or_apiVersion = gv, or_kind = kind, or_name = crName owner, or_uid = crm_UID (cr_ObjectMeta owner),
        or_blockOwnerDeletion = Some True, or_controller = Some True\<rparr> object"

section \<open>Objects\<close>

definition getNamespaceForObject :: "nvmesh \<Rightarrow> string \<Rightarrow> string" where
  "getNamespaceForObject cr kind = (if stringInSlice kind GloballyNamedKinds then '''' else crNamespace cr)"

definition getGenericObject :: "'w kube \<Rightarrow> kobj \<Rightarrow> string \<Rightarrow> 'w st \<Rightarrow> ((goerr + kobj) \<times> 'w st) option" where
  "getGenericObject env fromObject namespace =
     (let name = nameOf fromObject;
          kind = kindOf fromObject;
          namespace = (if stringInSlice kind GloballyNamedKinds then '''' else namespace)
      in clientGet env kind namespace name)"

text \<open>
  The two methods of \<open>NVMeshComponent\<close> the shared loop calls. \<open>InitObject\<close> changes the
  object; \<open>ShouldUpdateObject\<close> may change the expected object and may talk to the API server.
\<close>

record 'w component =
  InitObject :: "nvmesh \<Rightarrow> kobj \<Rightarrow> (goerr option \<times> kobj) option"
  ShouldUpdateObject :: "nvmesh \<Rightarrow> kobj \<Rightarrow> kobj \<Rightarrow> 'w st \<Rightarrow> ((bool \<times> kobj) \<times> 'w st) option"

text \<open>\<open>component != nil\<close> and the call.\<close>

definition initWith :: "'w component option \<Rightarrow> nvmesh \<Rightarrow> kobj \<Rightarrow> (goerr option \<times> kobj) option" where
  "initWith cp cr x = (case cp of None \<Rightarrow> Some (None, x) | Some c \<Rightarrow> InitObject c cr x)"

definition shouldUpdateWith ::
  "'w component option \<Rightarrow> nvmesh \<Rightarrow> kobj \<Rightarrow> kobj \<Rightarrow> 'w st \<Rightarrow> ((bool \<times> kobj) \<times> 'w st) option" where
  "shouldUpdateWith cp cr expected found s =
     (case cp of None \<Rightarrow> Some ((False, expected), s) | Some c \<Rightarrow> ShouldUpdateObject c cr expected found s)"

definition makeSureObjectExists ::
  "'w kube \<Rightarrow> nvmesh \<Rightarrow> kobj \<Rightarrow> 'w component option \<Rightarrow> 'w st \<Rightarrow> (goerr option \<times> 'w st) option" where
  "makeSureObjectExists env cr newObj cp s = do {
     let newObj = setNamespace (crNamespace cr) newObj;
     let newObj = addOperatorLabels cr newObj;
     (err, newObj) \<leftarrow> initWith cp cr newObj;
     case err of
       Some e \<Rightarrow> Some (Some e, s)
     | None \<Rightarrow> do {
         let (_, newObj) = kSetControllerReference env cr newObj;
         (found, s) \<leftarrow> getGenericObject env newObj (crNamespace cr) s;
         case found of
           Inl e \<Rightarrow>
             if isNotFound e then do {
               (err, s) \<leftarrow> clientCreate env newObj s;
               Some (if realError isAlreadyExists err then err else None, s)
             }
             else Some (Some e, s)
         | Inr foundObj \<Rightarrow> do {
             ((update, newObj), s) \<leftarrow> shouldUpdateWith cp cr newObj foundObj s;
             if update then clientUpdate env newObj s else Some (None, s)
           }
       }
   }"

definition makeSureObjectRemoved ::
  "'w kube \<Rightarrow> nvmesh \<Rightarrow> kobj \<Rightarrow> 'w st \<Rightarrow> (goerr option \<times> 'w st) option" where
  "makeSureObjectRemoved env cr newObj s = do {
     let newObj = setNamespace (crNamespace cr) newObj;
     let kind = kindOf newObj;
     (found, s) \<leftarrow> getGenericObject env newObj (crNamespace cr) s;
     case found of
       Inl e \<Rightarrow>
         if isNotFound e then Some (None, s)
         else (case e of
             NoKindMatchError _ \<Rightarrow>
               if kind = ''SecurityContextConstraints'' then Some (None, s) else Some (Some e, s)
           | _ \<Rightarrow> Some (Some e, s))
     | Inr _ \<Rightarrow> clientDelete env newObj s
   }"

definition reconcileObject ::
  "'w kube \<Rightarrow> nvmesh \<Rightarrow> kobj \<Rightarrow> 'w component option \<Rightarrow> bool \<Rightarrow> 'w st \<Rightarrow> (goerr option \<times> 'w st) option" where
  "reconcileObject env cr newObj cp removeObject s =
     (if \<not> removeObject then makeSureObjectExists env cr newObj cp s
      else makeSureObjectRemoved env cr newObj s)"

section \<open>Objects from files\<close>

text \<open>The loop over the decoded objects; the errors are collected.\<close>

fun reconcileObjects ::
  "'w kube \<Rightarrow> nvmesh \<Rightarrow> 'w component \<Rightarrow> bool \<Rightarrow> kobj list \<Rightarrow> 'w st \<Rightarrow> (goerr list \<times> 'w st) option" where
  "reconcileObjects env cr cp removeObject [] s = Some ([], s)"
| "reconcileObjects env cr cp removeObject (obj # objects) s = do {
     (err, s) \<leftarrow> reconcileObject env cr obj (Some cp) removeObject s;
     (errs, s) \<leftarrow> reconcileObjects env cr cp removeObject objects s;
     Some (case err of None \<Rightarrow> errs | Some e \<Rightarrow> e # errs, s)
   }"

definition firstError :: "goerr list \<Rightarrow> goerr option" where
  "firstError errs = (case errs of [] \<Rightarrow> None | e # _ \<Rightarrow> Some e)"

fun isYamlFileParseError :: "goerr \<Rightarrow> bool" where
  "isYamlFileParseError (YamlFileParseError _ _) = True"
| "isYamlFileParseError _ = False"

definition reconcileYamlObjectsFromFile ::
  "'w kube \<Rightarrow> nvmesh \<Rightarrow> string \<Rightarrow> 'w component \<Rightarrow> bool \<Rightarrow> 'w st \<Rightarrow> (goerr option \<times> 'w st) option" where
  "reconcileYamlObjectsFromFile env cr filename cp removeObject s = do {
     ((objects, err), s) \<leftarrow> YamlFileToObjects env filename s;
     if realError isYamlFileParseError err then Some (err, s)
     else do {
       (reconcileErrors, s) \<leftarrow> reconcileObjects env cr cp removeObject objects s;
       Some (firstError reconcileErrors, s)
     }
   }"

fun walkedFiles :: "walk_entry list \<Rightarrow> string list option" where
  "walkedFiles [] = Some []"
| "walkedFiles ((path, info) # entries) = do {
     isDir \<leftarrow> info;
     files \<leftarrow> walkedFiles entries;
     Some (if isDir then files else path # files)
   }"

text \<open>
  The callback of \<open>filepath.Walk\<close> always returns nil, so \<open>Walk\<close> does too; it calls the
  callback once per entry, with a nil \<open>info\<close> for one it cannot stat.
\<close>

definition listFilesInSubDirs :: "'w kube \<Rightarrow> string \<Rightarrow> 'w st \<Rightarrow> ((goerr + string list) \<times> 'w st) option" where
  "listFilesInSubDirs env root s = do {
     (entries, s) \<leftarrow> localCall (fsWalk env root) s;
     files \<leftarrow> walkedFiles entries;
     Some (Inr files, s)
   }"

text \<open>\<open>path.Join\<close> of a clean directory, which may end in a slash, and a file name\<close>

definition pathJoin :: "string \<Rightarrow> string \<Rightarrow> string" where
  "pathJoin dir name = (if dir \<noteq> [] \<and> last dir = CHR ''/'' then dir @ name else dir @ ''/'' @ name)"

definition listFilesInDir :: "'w kube \<Rightarrow> string \<Rightarrow> bool \<Rightarrow> 'w st \<Rightarrow> ((goerr + string list) \<times> 'w st) option" where
  "listFilesInDir env dir recursive s =
     (if recursive then listFilesInSubDirs env dir s
      else do {
        (r, s) \<leftarrow> localCall (fsReadDir env dir) s;
        case r of
          Inl err \<Rightarrow> Some (Inl err, s)
        | Inr files \<Rightarrow> Some (Inr (map (\<lambda>(name, _). pathJoin dir name) (filter (\<lambda>(_, isDir). \<not> isDir) files)), s)
      })"

fun reconcileFiles ::
  "'w kube \<Rightarrow> nvmesh \<Rightarrow> 'w component \<Rightarrow> bool \<Rightarrow> string list \<Rightarrow> 'w st \<Rightarrow> (goerr option \<times> 'w st) option" where
  "reconcileFiles env cr cp removeObjects [] s = Some (None, s)"
| "reconcileFiles env cr cp removeObjects (file # files) s = do {
     (err, s) \<leftarrow> reconcileYamlObjectsFromFile env cr file cp removeObjects s;
     if err \<noteq> None then Some (err, s) else reconcileFiles env cr cp removeObjects files s
   }"

definition reconcileYamlObjectsFromDir ::
  "'w kube \<Rightarrow> nvmesh \<Rightarrow> 'w component \<Rightarrow> string \<Rightarrow> bool \<Rightarrow> bool \<Rightarrow> 'w st \<Rightarrow> (goerr option \<times> 'w st) option" where
  "reconcileYamlObjectsFromDir env cr cp dir removeObjects recursive s = do {
     (r, s) \<leftarrow> listFilesInDir env dir recursive s;
     case r of
       Inl err \<Rightarrow> Some (Some err, s)
     | Inr files \<Rightarrow> reconcileFiles env cr cp removeObjects files s
   }"

definition createObjectsFromDir ::
  "'w kube \<Rightarrow> nvmesh \<Rightarrow> 'w component \<Rightarrow> string \<Rightarrow> bool \<Rightarrow> 'w st \<Rightarrow> (goerr option \<times> 'w st) option" where
  "createObjectsFromDir env cr cp dir recursive = reconcileYamlObjectsFromDir env cr cp dir False recursive"

definition removeObjectsFromDir ::
  "'w kube \<Rightarrow> nvmesh \<Rightarrow> 'w component \<Rightarrow> string \<Rightarrow> bool \<Rightarrow> 'w st \<Rightarrow> (goerr option \<times> 'w st) option" where
  "removeObjectsFromDir env cr cp dir recursive = reconcileYamlObjectsFromDir env cr cp dir True recursive"

section \<open>The cluster's service account\<close>

definition getClusterServiceAccount :: "nvmesh \<Rightarrow> kobj" where
  "getClusterServiceAccount cr = ServiceAccount
     \<lparr>sa_meta = newMeta (getClusterServiceAccountName cr) (crNamespace cr),
      sa_imagePullSecrets = [exceleroRegistrySecretName]\<rparr>"

definition getNVMeshClusterRoleAndRoleBinding :: "nvmesh \<Rightarrow> kobj \<times> kobj" where
  "getNVMeshClusterRoleAndRoleBinding cr =
     (Role \<lparr>role_meta = newMeta ''nvmesh-cluster-role'' '''',
        role_rules = [\<lparr>pr_apiGroups = [''security.openshift.io''],
          pr_resources = [''securitycontextconstraints''],
          pr_resourceNames = [operatorSCCName], pr_verbs = [''use'']\<rparr>]\<rparr>,
      RoleBinding \<lparr>rb_meta = newMeta ''nvmesh-cluster-rb'' '''',
        rb_roleRef = \<lparr>rr_apiGroup = ''rbac.authorization.k8s.io'', rr_kind = ''Role'',
          rr_name = ''nvmesh-cluster-role''\<rparr>,
        rb_subjects = [\<lparr>sub_kind = ''ServiceAccount'', sub_name = getClusterServiceAccountName cr,
          sub_namespace = crNamespace cr\<rparr>]\<rparr>)"

definition makeSureServiceAccountExists :: "'w kube \<Rightarrow> nvmesh \<Rightarrow> 'w st \<Rightarrow> (goerr option \<times> 'w st) option" where
  "makeSureServiceAccountExists env cr s = do {
     (err1, s) \<leftarrow> makeSureObjectExists env cr (getClusterServiceAccount cr) None s;
     if err1 \<noteq> None then Some (err1, s)
     else do {
       let (role, rb) = getNVMeshClusterRoleAndRoleBinding cr;
       (err2, s) \<leftarrow> makeSureObjectExists env cr role None s;
       if err2 \<noteq> None then Some (err2, s)
       else do {
         (err3, s) \<leftarrow> makeSureObjectExists env cr rb None s;
         if err3 \<noteq> None then Some (err3, s) else Some (None, s)
       }
     }
   }"

section \<open>Watches, pods, restarts\<close>

fun stopWatchers :: "'w kube \<Rightarrow> nat list \<Rightarrow> 'w st \<Rightarrow> (unit \<times> 'w st) option" where
  "stopWatchers env [] s = Some ((), s)"
| "stopWatchers env (w # ws) s = do {
     (_, s) \<leftarrow> apiCall (ReqStopWatch w) (unitCall (kStopWatch env w)) s;
     stopWatchers env ws s
   }"

definition stopAllUnstructuredWatchers :: "'w kube \<Rightarrow> 'w st \<Rightarrow> (unit \<times> 'w st) option" where
  "stopAllUnstructuredWatchers env s = stopWatchers env (watchers s) s"

text \<open>What it prints is left out; the list request remains.\<close>

definition printAllPodsStatuses :: "'w kube \<Rightarrow> string \<Rightarrow> 'w st \<Rightarrow> (unit \<times> 'w st) option" where
  "printAllPodsStatuses env namespace s = do {
     (_, s) \<leftarrow> clientListPods env (PodsInNamespace namespace) s;
     Some ((), s)
   }"

definition restartedAtKey :: string where
  "restartedAtKey = ''operator.nvmesh.excelero.com/restartedAt''"

definition emptyPodSpec :: pod_spec where
  "emptyPodSpec = \<lparr>ps_containers = [], ps_volumes = [], ps_serviceAccountName = '''', ps_imagePullSecrets = [],
     ps_restartPolicy = '''', ps_nodeName = '''', ps_nodeSelector = [], ps_hostNetwork = False,
     ps_hostPID = False, ps_terminationGracePeriodSeconds = None\<rparr>"

definition emptyTemplate :: pod_template where
  "emptyTemplate = \<lparr>pt_labels = None, pt_annotations = None, pt_spec = emptyPodSpec\<rparr>"

definition emptyStatefulSet :: stateful_set where
  "emptyStatefulSet = \<lparr>ss_meta = newMeta '''' '''', ss_replicas = None, ss_template = emptyTemplate,
     ss_volumeClaimTemplates = []\<rparr>"

text \<open>
  The closure given to \<open>RetryOnConflict\<close>. The client decodes into the \<open>StatefulSet\<close> it is
  given, so an object of another kind cannot come back; that case is the option's \<open>None\<close>.
\<close>

definition restartAttempt ::
  "'w kube \<Rightarrow> string \<Rightarrow> string \<Rightarrow> nat \<Rightarrow> stateful_set \<times> 'w st \<Rightarrow> (goerr option \<times> stateful_set \<times> 'w st) option" where
  "restartAttempt env namespace name i = (\<lambda>(ss, s). do {
     (r, s) \<leftarrow> clientGet env ''StatefulSet'' namespace name s;
     case r of
       Inl err \<Rightarrow> Some (Some err, ss, s)
     | Inr obj \<Rightarrow> (case obj of
           StatefulSet ss \<Rightarrow> do {
             let annotations = (case pt_annotations (ss_template ss) of None \<Rightarrow> [] | Some a \<Rightarrow> a);
             (now, s) \<leftarrow> localCall (timeNow env) s;
             let annotations = AList.update restartedAtKey (timeFormatRFC3339 env now) annotations;
             let ss = ss_template_update (pt_annotations_update (\<lambda>_. Some annotations)) ss;
             (err, s) \<leftarrow> clientUpdate env (StatefulSet ss) s;
             Some (err, ss, s)
           }
         | _ \<Rightarrow> None)
   })"

definition restartStatefulSet :: "'w kube \<Rightarrow> string \<Rightarrow> string \<Rightarrow> 'w st \<Rightarrow> (goerr option \<times> 'w st) option" where
  "restartStatefulSet env namespace name s = do {
     (err, _, s) \<leftarrow> retryDefaultBackoff env (restartAttempt env namespace name) (emptyStatefulSet, s);
     Some (err, s)
   }"

end
