(* ===== verification/Conditions.thy ===== *)
theory Conditions
  imports ApiTypes
begin

text \<open>
  pkg/conditions/conditions.go: the list of status conditions of the custom resource.
  \<open>FindStatusCondition\<close> returns a pointer into the slice, here the index it points to; the nil
  pointer \<open>conditions\<close> is \<open>None\<close>. \<open>now\<close> is the value \<open>time.Now()\<close> would return.

  The abstract view is a finite map from condition types to conditions (\<open>condMap\<close>); the lemmas
  say which map update each operation is.
\<close>

section \<open>Operations\<close>

fun FindStatusCondition :: "cluster_condition list \<Rightarrow> string \<Rightarrow> nat option" where
  "FindStatusCondition [] ty = None"
| "FindStatusCondition (c # cs) ty =
     (if cond_Type c = ty then Some 0 else map_option Suc (FindStatusCondition cs ty))"

definition setConditionIn :: "gotime \<Rightarrow> cluster_condition list \<Rightarrow> cluster_condition \<Rightarrow> cluster_condition list" where
  "setConditionIn now cs new =
     (case FindStatusCondition cs (cond_Type new) of
        None \<Rightarrow>
          cs @ [if cond_LastTransitionTime new = 0 then new\<lparr>cond_LastTransitionTime := now\<rparr> else new]
      | Some i \<Rightarrow>
          let existing = cs ! i;
              existing = (if cond_Status existing \<noteq> cond_Status new
                then existing\<lparr>cond_Status := cond_Status new,
                  cond_LastTransitionTime :=
                    (if cond_LastTransitionTime new \<noteq> 0 then cond_LastTransitionTime new else now)\<rparr>
                else existing);
              existing = existing\<lparr>cond_Reason := cond_Reason new\<rparr>;
              existing = existing\<lparr>cond_Message := cond_Message new\<rparr>
          in cs[i := existing])"

definition SetStatusCondition ::
  "gotime \<Rightarrow> cluster_condition list option \<Rightarrow> cluster_condition \<Rightarrow> cluster_condition list option" where
  "SetStatusCondition now conditions new =
     (case conditions of None \<Rightarrow> None | Some cs \<Rightarrow> Some (setConditionIn now cs new))"

text \<open>
  The capacity \<open>len(*conditions)-1\<close> of the new slice is negative for an empty slice, and
  \<open>make\<close> panics: the outer option. The inner one is the nil pointer.
\<close>

definition RemoveStatusCondition ::
  "cluster_condition list option \<Rightarrow> string \<Rightarrow> cluster_condition list option option" where
  "RemoveStatusCondition conditions ty =
     (case conditions of
        None \<Rightarrow> Some None
      | Some cs \<Rightarrow>
          if int (length cs) - 1 < 0 then None
          else Some (Some (filter (\<lambda>c. cond_Type c \<noteq> ty) cs)))"

fun IsStatusConditionPresentAndEqual :: "cluster_condition list \<Rightarrow> string \<Rightarrow> string \<Rightarrow> bool" where
  "IsStatusConditionPresentAndEqual [] ty status = False"
| "IsStatusConditionPresentAndEqual (c # cs) ty status =
     (if cond_Type c = ty then cond_Status c = status
      else IsStatusConditionPresentAndEqual cs ty status)"

definition IsStatusConditionTrue :: "cluster_condition list \<Rightarrow> string \<Rightarrow> bool" where
  "IsStatusConditionTrue cs ty = IsStatusConditionPresentAndEqual cs ty ConditionTrue"

definition IsStatusConditionFalse :: "cluster_condition list \<Rightarrow> string \<Rightarrow> bool" where
  "IsStatusConditionFalse cs ty = IsStatusConditionPresentAndEqual cs ty ConditionFalse"

section \<open>The conditions as a map\<close>

definition condMap :: "cluster_condition list \<Rightarrow> string \<rightharpoonup> cluster_condition" where
  "condMap cs = map_of (map (\<lambda>c. (cond_Type c, c)) cs)"

definition types_unique :: "cluster_condition list \<Rightarrow> bool" where
  "types_unique cs \<longleftrightarrow> distinct (map cond_Type cs)"

text \<open>What the entry of a condition type becomes when \<open>new\<close> is set at time \<open>now\<close>.\<close>

definition mergedCondition :: "gotime \<Rightarrow> cluster_condition option \<Rightarrow> cluster_condition \<Rightarrow> cluster_condition" where
  "mergedCondition now old new =
     (let stamp = (if cond_LastTransitionTime new \<noteq> 0 then cond_LastTransitionTime new else now) in
      case old of
        None \<Rightarrow> new\<lparr>cond_LastTransitionTime := stamp\<rparr>
      | Some o' \<Rightarrow> o'\<lparr>cond_Status := cond_Status new,
          cond_LastTransitionTime :=
            (if cond_Status o' = cond_Status new then cond_LastTransitionTime o' else stamp),
          cond_Reason := cond_Reason new, cond_Message := cond_Message new\<rparr>)"

lemma Find_None: "FindStatusCondition cs ty = None \<longleftrightarrow> ty \<notin> cond_Type ` set cs"
  by (induction cs) auto

lemma Find_Some:
  "FindStatusCondition cs ty = Some i \<Longrightarrow> i < length cs \<and> cond_Type (cs ! i) = ty"
  by (induction cs arbitrary: i) (auto split: if_splits)

lemma condMap_Find: "condMap cs ty = map_option (\<lambda>i. cs ! i) (FindStatusCondition cs ty)"
  by (induction cs) (auto simp: condMap_def option.map_comp comp_def)

lemma condMap_append: "condMap (cs @ ds) = condMap ds ++ condMap cs"
  by (simp add: condMap_def)

lemma condMap_single [simp]: "condMap [c] = [cond_Type c \<mapsto> c]"
  by (simp add: condMap_def)

lemma condMap_None: "condMap cs ty = None \<longleftrightarrow> ty \<notin> cond_Type ` set cs"
  by (simp add: condMap_Find Find_None)

lemma condMap_Nil [simp]: "condMap [] = Map.empty"
  by (simp add: condMap_def)

lemma condMap_Cons: "condMap (c # cs) = (condMap cs)(cond_Type c \<mapsto> c)"
  by (simp add: condMap_def)

lemma condMap_update:
  "FindStatusCondition cs ty = Some i \<Longrightarrow> cond_Type c = ty \<Longrightarrow> condMap (cs[i := c]) = (condMap cs)(ty \<mapsto> c)"
  by (induction cs arbitrary: i) (auto simp: condMap_Cons fun_upd_twist split: if_splits)

text \<open>The in-place update and the append of the code are one map update.\<close>

lemma setConditionIn_new:
  assumes "FindStatusCondition cs (cond_Type new) = None"
  shows "setConditionIn now cs new = cs @ [mergedCondition now None new]"
  using assms by (simp add: setConditionIn_def mergedCondition_def Let_def)

lemma setConditionIn_old:
  assumes "FindStatusCondition cs (cond_Type new) = Some i"
  shows "setConditionIn now cs new = cs[i := mergedCondition now (Some (cs ! i)) new]"
  using assms by (cases "cs ! i") (simp add: setConditionIn_def mergedCondition_def Let_def)

lemma cond_Type_merged [simp]:
  "cond_Type (mergedCondition now None new) = cond_Type new"
  "cond_Type (mergedCondition now (Some c) new) = cond_Type c"
  by (simp_all add: mergedCondition_def Let_def)

lemma condMap_setConditionIn:
  "condMap (setConditionIn now cs new) =
     (condMap cs)(cond_Type new \<mapsto> mergedCondition now (condMap cs (cond_Type new)) new)"
proof (cases "FindStatusCondition cs (cond_Type new)")
  case None
  then have "condMap cs (cond_Type new) = None" by (simp add: condMap_Find)
  moreover from this have "cond_Type new \<notin> dom (condMap cs)" by auto
  ultimately show ?thesis
    by (auto simp: setConditionIn_new [OF None] condMap_append map_add_def fun_eq_iff split: option.splits)
next
  case (Some i)
  note i = Find_Some [OF this]
  have "condMap cs (cond_Type new) = Some (cs ! i)" by (simp add: condMap_Find Some)
  with Some i show ?thesis by (simp add: setConditionIn_old condMap_update)
qed

lemma types_setConditionIn:
  "map cond_Type (setConditionIn now cs new) =
     (if cond_Type new \<in> cond_Type ` set cs then map cond_Type cs else map cond_Type cs @ [cond_Type new])"
proof (cases "FindStatusCondition cs (cond_Type new)")
  case None
  then show ?thesis by (simp add: setConditionIn_new Find_None)
next
  case (Some i)
  note i = Find_Some [OF this]
  have "map cond_Type (cs[i := c]) = map cond_Type cs" if "cond_Type c = cond_Type new" for c
    using i that by (metis list_update_id map_update)
  then have "map cond_Type (setConditionIn now cs new) = map cond_Type cs"
    using i by (simp add: setConditionIn_old [OF Some])
  moreover have "cond_Type new \<in> cond_Type ` set cs" using i by (metis image_eqI nth_mem)
  ultimately show ?thesis by simp
qed

lemma types_unique_setConditionIn [simp]:
  "types_unique cs \<Longrightarrow> types_unique (setConditionIn now cs new)"
  by (auto simp: types_unique_def types_setConditionIn)

lemma IsStatusConditionPresentAndEqual_condMap:
  "IsStatusConditionPresentAndEqual cs ty status \<longleftrightarrow> map_option cond_Status (condMap cs ty) = Some status"
  by (induction cs) (auto simp: condMap_Cons)

lemma cond_Status_merged [simp]: "cond_Status (mergedCondition now old new) = cond_Status new"
  by (simp add: mergedCondition_def Let_def split: option.splits)

lemma cond_Reason_merged [simp]: "cond_Reason (mergedCondition now old new) = cond_Reason new"
  by (simp add: mergedCondition_def Let_def split: option.splits)

lemma cond_Message_merged [simp]: "cond_Message (mergedCondition now old new) = cond_Message new"
  by (simp add: mergedCondition_def Let_def split: option.splits)

lemma IsStatus_setConditionIn [simp]:
  "IsStatusConditionPresentAndEqual (setConditionIn now cs new) ty status \<longleftrightarrow>
     (if ty = cond_Type new then status = cond_Status new else IsStatusConditionPresentAndEqual cs ty status)"
  by (auto simp: IsStatusConditionPresentAndEqual_condMap condMap_setConditionIn)

section \<open>Properties\<close>

text \<open>C9: setting a condition is one update of the map from types to conditions: the entry of the
  condition's type gets the new status, reason and message, its transition time moves exactly when
  the status changes (or the entry is new), and every other type keeps its entry; the list stays free
  of duplicate types.\<close>

theorem SetStatusCondition_refines:
  assumes "types_unique cs" and "SetStatusCondition now (Some cs) new = Some cs'"
  shows "condMap cs' = (condMap cs)(cond_Type new \<mapsto> mergedCondition now (condMap cs (cond_Type new)) new)
    \<and> types_unique cs'
    \<and> set (map cond_Type cs') = insert (cond_Type new) (set (map cond_Type cs))"
proof -
  from assms(2) have cs': "cs' = setConditionIn now cs new" by (simp add: SetStatusCondition_def)
  have "set (map cond_Type cs') = insert (cond_Type new) (set (map cond_Type cs))"
    unfolding cs' types_setConditionIn by auto
  with assms(1) show ?thesis by (simp add: cs' condMap_setConditionIn)
qed

definition sampleCondition :: cluster_condition where
  "sampleCondition = \<lparr>cond_Type = Ready, cond_Status = ConditionTrue, cond_LastTransitionTime = 7,
     cond_Reason = '''', cond_Message = ''''\<rparr>"

theorem SetStatusCondition_refines_witness:
  "condMap [sampleCondition\<lparr>cond_Status := ConditionFalse, cond_LastTransitionTime := 9\<rparr>] =
     (condMap [sampleCondition])(Ready \<mapsto> sampleCondition\<lparr>cond_Status := ConditionFalse, cond_LastTransitionTime := 9\<rparr>)"
  using SetStatusCondition_refines [of "[sampleCondition]" 9
      "sampleCondition\<lparr>cond_Status := ConditionFalse, cond_LastTransitionTime := 0\<rparr>"
      "[sampleCondition\<lparr>cond_Status := ConditionFalse, cond_LastTransitionTime := 9\<rparr>]"]
  by (simp add: sampleCondition_def types_unique_def SetStatusCondition_def setConditionIn_def Let_def
      condition_consts mergedCondition_def)

text \<open>Setting the same condition again, at any later time, changes nothing, so a reconcile
  cycle that finds the status it left does not touch the transition time.\<close>

theorem setConditionIn_idempotent:
  "setConditionIn later (setConditionIn now cs new) new = setConditionIn now cs new"
proof -
  let ?cs = "setConditionIn now cs new"
  let ?m = "mergedCondition now (condMap cs (cond_Type new)) new"
  have "condMap ?cs (cond_Type new) = Some ?m" by (simp add: condMap_setConditionIn)
  then obtain i where i: "FindStatusCondition ?cs (cond_Type new) = Some i" and m: "?cs ! i = ?m"
    by (auto simp: condMap_Find)
  have "mergedCondition later (Some ?m) new = ?m"
    by (cases "condMap cs (cond_Type new)") (auto simp: mergedCondition_def Let_def)
  then have "setConditionIn later ?cs new = ?cs[i := ?cs ! i]"
    by (simp add: setConditionIn_old [OF i] m)
  then show ?thesis by simp
qed

text \<open>removing a condition type from a non-empty list removes exactly that type from the map;
  on an empty list the call panics, as the capacity of the new slice is negative.\<close>

theorem RemoveStatusCondition_spec:
  "RemoveStatusCondition (Some []) ty = None
   \<and> (\<exists>ds. RemoveStatusCondition (Some (c # cs)) ty = Some (Some ds)
        \<and> condMap ds = (condMap (c # cs))(ty := None))"
proof -
  have "condMap (filter (\<lambda>c. cond_Type c \<noteq> ty) ds) = (condMap ds)(ty := None)" for ds
    by (induction ds) (auto simp: condMap_Cons fun_eq_iff)
  then show ?thesis by (simp add: RemoveStatusCondition_def del: filter.simps)
qed

end
