(* ===== verification/ComponentLoop.thy ===== *)
theory ComponentLoop
  imports CtrlUtils
begin

text \<open>
  What the shared loop of ctrl_utils.go guarantees. The contract of a component is the locale
  \<open>nvmesh_component\<close>: \<open>InitObject\<close> and \<open>ShouldUpdateObject\<close> leave the kind and
  the metadata of an object alone, and \<open>ShouldUpdateObject\<close> only reads and updates. Inside it
  are the client's lemmas about creating objects. The locale \<open>steady_component\<close> adds that an
  object needs no update against itself; it gives the steady state of the loop.
\<close>

text \<open>\<open>controllerutil.SetControllerReference\<close> sets an owner reference, and nothing else.\<close>

definition ownerRefOnly :: "'w kube \<Rightarrow> bool" where
  "ownerRefOnly env \<longleftrightarrow>
     (\<forall>cr x. \<exists>f. snd (kSetControllerReference env cr x) = mapMeta (om_ownerReferences_update f) x)"

lemma ownerRefOnlyD:
  assumes "ownerRefOnly env" and "kSetControllerReference env cr x = (e, y)"
  shows "kindOf y = kindOf x" and "nameOf y = nameOf x" and "namespaceOf y = namespaceOf x"
    and "labelsOf y = labelsOf x"
proof -
  from assms obtain f where "y = mapMeta (om_ownerReferences_update f) x"
    unfolding ownerRefOnly_def by (metis snd_conv)
  then show "kindOf y = kindOf x" and "nameOf y = nameOf x" and "namespaceOf y = namespaceOf x"
    and "labelsOf y = labelsOf x"
    by (simp_all add: nameOf_def namespaceOf_def labelsOf_def)
qed

lemma hasOperatorLabels_cong: "labelsOf y = labelsOf x \<Longrightarrow> hasOperatorLabels cr y = hasOperatorLabels cr x"
  by (simp add: hasOperatorLabels_def)

section \<open>Removing\<close>

lemma steps_getGenericObject [steps_intro]:
  "allowsReads env R \<Longrightarrow> steps R (getGenericObject env x ns)"
  by (simp add: getGenericObject_def Let_def allowsReadsD)

definition allowsDeletesIn :: "'w kube \<Rightarrow> string \<Rightarrow> ('w st \<Rightarrow> 'w st \<Rightarrow> bool) \<Rightarrow> bool" where
  "allowsDeletesIn env ns R \<longleftrightarrow> (\<forall>x. namespaceOf x = ns \<longrightarrow> steps R (clientDelete env x))"

lemma allowsDeletesIn_grows [simp]:
  "(\<And>x. namespaceOf x = ns \<Longrightarrow> P (ReqDelete x)) \<Longrightarrow> allowsDeletesIn env ns (grows P)"
  by (auto simp: allowsDeletesIn_def intro: emits_client)

lemma steps_makeSureObjectRemoved:
  assumes "preord R" and "allowsReads env R" and "allowsDeletesIn env (crNamespace cr) R"
  shows "steps R (makeSureObjectRemoved env cr x)"
proof -
  have "steps R (clientDelete env (setNamespace (crNamespace cr) x))"
    using assms(3) by (simp add: allowsDeletesIn_def)
  then show ?thesis
    unfolding makeSureObjectRemoved_def Let_def by (intro steps_intro assms)
qed

lemma reconcileObject_simps [simp]:
  "reconcileObject env cr x cp True = makeSureObjectRemoved env cr x"
  "reconcileObject env cr x cp False = makeSureObjectExists env cr x cp"
  by (simp_all add: reconcileObject_def fun_eq_iff)

lemma steps_reconcileObjects:
  assumes R: "preord R" and obj: "\<And>x. steps R (reconcileObject env cr x (Some C) rm)"
  shows "steps R (reconcileObjects env cr C rm xs)"
proof (induction xs)
  case Nil
  show ?case unfolding reconcileObjects.simps by (intro steps_intro R)
next
  case (Cons x xs)
  show ?case unfolding reconcileObjects.simps by (intro steps_intro R obj Cons)
qed

lemma steps_reconcileFiles:
  assumes R: "preord R" "allowsReads env R" and obj: "\<And>x. steps R (reconcileObject env cr x (Some C) rm)"
  shows "steps R (reconcileFiles env cr C rm files)"
proof -
  have one: "steps R (reconcileYamlObjectsFromFile env cr f C rm)" for f
    unfolding reconcileYamlObjectsFromFile_def
    by (intro steps_intro steps_reconcileObjects R obj)
  show ?thesis
  proof (induction files)
    case Nil
    show ?case unfolding reconcileFiles.simps by (intro steps_intro R)
  next
    case (Cons f files)
    show ?case unfolding reconcileFiles.simps by (intro steps_intro R one Cons)
  qed
qed

lemma steps_listFilesInDir [steps_intro]:
  assumes "preord R" "allowsReads env R"
  shows "steps R (listFilesInDir env dir rec)"
  unfolding listFilesInDir_def listFilesInSubDirs_def
  by (intro steps_intro assms allowsReadsD [OF assms(2)])

lemma steps_reconcileYamlObjectsFromDir:
  assumes R: "preord R" "allowsReads env R" and obj: "\<And>x. steps R (reconcileObject env cr x (Some C) rm)"
  shows "steps R (reconcileYamlObjectsFromDir env cr C dir rm rec)"
  unfolding reconcileYamlObjectsFromDir_def
  by (intro steps_intro steps_reconcileFiles R obj)

lemma steps_removeObjectsFromDir:
  assumes "preord R" "allowsReads env R" "allowsDeletesIn env (crNamespace cr) R"
  shows "steps R (removeObjectsFromDir env cr C dir rec)"
  unfolding removeObjectsFromDir_def
  by (intro steps_reconcileYamlObjectsFromDir assms)
    (simp add: steps_makeSureObjectRemoved assms)

section \<open>The contract of a component\<close>

definition allowsCreatesFor :: "'w kube \<Rightarrow> nvmesh \<Rightarrow> ('w st \<Rightarrow> 'w st \<Rightarrow> bool) \<Rightarrow> bool" where
  "allowsCreatesFor env cr R \<longleftrightarrow>
     (\<forall>x. namespaceOf x = crNamespace cr \<longrightarrow> hasOperatorLabels cr x \<longrightarrow> steps R (clientCreate env x))"

lemma allowsCreatesFor_grows [simp]:
  "(\<And>x. namespaceOf x = crNamespace cr \<Longrightarrow> hasOperatorLabels cr x \<Longrightarrow> P (ReqCreate x)) \<Longrightarrow>
   allowsCreatesFor env cr (grows P)"
  by (auto simp: allowsCreatesFor_def intro: emits_client)

locale nvmesh_component =
  fixes env :: "'w kube" and C :: "'w component"
  assumes init_meta: "InitObject C cr x = Some (err, y) \<Longrightarrow> metaOf y = metaOf x \<and> kindOf y = kindOf x"
    and update_meta:
      "ShouldUpdateObject C cr e f s = Some ((b, e'), s') \<Longrightarrow> metaOf e' = metaOf e \<and> kindOf e' = kindOf e"
    and update_steps:
      "preord R \<Longrightarrow> retries (retryDefaultBackoff env) \<Longrightarrow> allowsReads env R \<Longrightarrow> allowsUpdates env R \<Longrightarrow>
       steps R (ShouldUpdateObject C cr e f)"
begin

lemma steps_makeSureObjectExists:
  assumes R: "preord R" "allowsReads env R" "allowsUpdates env R"
    and env: "retries (retryDefaultBackoff env)" "ownerRefOnly env"
    and create: "allowsCreatesFor env cr R"
  shows "steps R (makeSureObjectExists env cr x (Some C))"
proof -
  have created: "steps R (clientCreate env z)"
    if init: "InitObject C cr (addOperatorLabels cr (setNamespace (crNamespace cr) x)) = Some (err, y)"
      and owned: "kSetControllerReference env cr y = (e, z)" for err y e z
  proof -
    note m = conjunct1 [OF init_meta [OF init]]
    have "namespaceOf y = namespaceOf (addOperatorLabels cr (setNamespace (crNamespace cr) x))"
      and y: "labelsOf y = labelsOf (addOperatorLabels cr (setNamespace (crNamespace cr) x))"
      by (simp_all only: namespaceOf_def labelsOf_def m)
    then have ns: "namespaceOf y = crNamespace cr" by simp
    have "hasOperatorLabels cr y"
      unfolding hasOperatorLabels_cong [OF y] by simp
    with ns ownerRefOnlyD [OF env(2) owned]
    have "namespaceOf z = crNamespace cr" and "hasOperatorLabels cr z"
      by (simp_all add: hasOperatorLabels_def)
    with create show ?thesis by (simp add: allowsCreatesFor_def)
  qed
  have should: "steps R (\<lambda>s. shouldUpdateWith (Some C) cr e f s)" for e f
    unfolding shouldUpdateWith_def using update_steps [OF R(1) env(1) R(2,3)] by simp
  show ?thesis
    unfolding makeSureObjectExists_def Let_def initWith_def option.case
    by (intro steps_intro R should allowsUpdatesD) (auto intro: created)
qed

lemma steps_createObjectsFromDir:
  assumes "preord R" "allowsReads env R" "allowsUpdates env R"
    and "retries (retryDefaultBackoff env)" "ownerRefOnly env" and "allowsCreatesFor env cr R"
  shows "steps R (createObjectsFromDir env cr C dir rec)"
  unfolding createObjectsFromDir_def
  by (intro steps_reconcileYamlObjectsFromDir assms)
    (simp add: steps_makeSureObjectExists assms)

end

text \<open>
  A component for which an initialised object needs no update against itself, whatever metadata the
  server added.
\<close>

locale steady_component = nvmesh_component +
  assumes reflexive:
    "InitObject C cr x = Some (None, y) \<Longrightarrow> (\<And>m. om_name (g m) = om_name m) \<Longrightarrow>
     \<exists>e'. ShouldUpdateObject C cr (mapMeta g y) (mapMeta g y) s = Some ((False, e'), s)"
begin

text \<open>
  The steady state: when the API server answers with the object the operator would create, the
  shared loop asks for it once and does nothing else.
\<close>

lemma steady_state:
  assumes "ownerRefOnly env"
    and init: "InitObject C cr (addOperatorLabels cr (setNamespace (crNamespace cr) x)) = Some (None, y)"
    and z: "z = snd (kSetControllerReference env cr y)"
    and got: "kGet env (kindOf x) (getNamespaceForObject cr (kindOf x)) (nameOf x) (world s) = (Inr z, w)"
  shows "makeSureObjectExists env cr x (Some C) s =
    Some (None, s\<lparr>world := w, reqs := reqs s @ [ReqGet (kindOf x) (getNamespaceForObject cr (kindOf x)) (nameOf x)]\<rparr>)"
proof -
  obtain g where g: "z = mapMeta (om_ownerReferences_update g) y"
    using assms(1) unfolding ownerRefOnly_def z by blast
  note m = init_meta [OF init]
  have "nameOf y = nameOf (addOperatorLabels cr (setNamespace (crNamespace cr) x))"
    by (simp only: nameOf_def conjunct1 [OF m])
  with m have name: "nameOf y = nameOf x" and kind: "kindOf y = kindOf x" by simp_all
  obtain e where e: "kSetControllerReference env cr y = (e, z)"
    using z by (cases "kSetControllerReference env cr y") auto
  have same: "nameOf z = nameOf x" "kindOf z = kindOf x"
    using ownerRefOnlyD [OF assms(1) e] name kind by simp_all
  have "\<exists>e'. ShouldUpdateObject C cr z z t = Some ((False, e'), t)" for t
    unfolding g by (rule reflexive [OF init]) simp
  then obtain e' where e': "ShouldUpdateObject C cr z z t = Some ((False, e' t), t)" for t
    by metis
  show ?thesis
    using got unfolding makeSureObjectExists_def initWith_def shouldUpdateWith_def
    by (simp add: Let_def init e getGenericObject_def clientGet_def apiCall_def same
        getNamespaceForObject_def e' cong: if_cong)
qed

end

section \<open>Objects without a component\<close>

text \<open>Passing a nil component is passing one that neither initialises nor updates.\<close>

definition nilComponent :: "'w component" where
  "nilComponent = \<lparr>InitObject = \<lambda>cr x. Some (None, x), ShouldUpdateObject = \<lambda>cr e f s. Some ((False, e), s)\<rparr>"

interpretation nil: steady_component env nilComponent for env
  by unfold_locales (auto simp: nilComponent_def intro: steps_intro)

lemma nilComponent_calls:
  "initWith (None :: 'w component option) = initWith (Some (nilComponent :: 'w component))"
  "shouldUpdateWith None = shouldUpdateWith (Some nilComponent)"
  by (auto simp: initWith_def shouldUpdateWith_def nilComponent_def fun_eq_iff)

lemma makeSureObjectExists_None:
  "makeSureObjectExists env cr x None = makeSureObjectExists env cr x (Some nilComponent)"
  by (rule ext) (unfold makeSureObjectExists_def nilComponent_calls, rule refl)

lemma steps_makeSureServiceAccountExists:
  assumes "preord R" "allowsReads env R" "allowsUpdates env R"
    and "retries (retryDefaultBackoff env)" "ownerRefOnly env" and "allowsCreatesFor env cr R"
  shows "steps R (makeSureServiceAccountExists env cr)"
  unfolding makeSureServiceAccountExists_def makeSureObjectExists_None
  by (intro steps_intro nil.steps_makeSureObjectExists assms)

section \<open>Every object of a file is looked at\<close>

lemma emits_makeSureObjectRemoved: "emits (\<lambda>_. True) (makeSureObjectRemoved env cr x)"
  by (intro steps_makeSureObjectRemoved) simp_all

lemma growsD_mem: "grows P s s' \<Longrightarrow> q \<in> set (reqs s) \<Longrightarrow> q \<in> set (reqs s')"
  by (auto simp: grows_def)

lemma makeSureObjectRemoved_looks:
  assumes "makeSureObjectRemoved env cr x s = Some (err, s')"
  shows "ReqGet (kindOf x) (getNamespaceForObject cr (kindOf x)) (nameOf x) \<in> set (reqs s')"
proof -
  obtain found w where g: "kGet env (kindOf x) (getNamespaceForObject cr (kindOf x)) (nameOf x) (world s) = (found, w)"
    by (cases "kGet env (kindOf x) (getNamespaceForObject cr (kindOf x)) (nameOf x) (world s)")
  then show ?thesis using assms
    by (auto simp: makeSureObjectRemoved_def Let_def getGenericObject_def getNamespaceForObject_def
        clientGet_def clientDelete_def apiCall_def split: sum.splits if_splits prod.splits goerr.splits)
qed

lemma reconcileObjects_remove_looks:
  assumes "reconcileObjects env cr C True xs s = Some (errs, s')" and "x \<in> set xs"
  shows "ReqGet (kindOf x) (getNamespaceForObject cr (kindOf x)) (nameOf x) \<in> set (reqs s')"
  using assms
proof (induction xs arbitrary: s errs s')
  case Nil
  then show ?case by simp
next
  case (Cons y ys)
  from Cons.prems(1) obtain err t errs' where 1: "makeSureObjectRemoved env cr y s = Some (err, t)"
    and 2: "reconcileObjects env cr C True ys t = Some (errs', s')"
    by (auto simp: bind_case_prod_Some)
  have "emits (\<lambda>_. True) (reconcileObjects env cr C True ys)"
    by (intro steps_reconcileObjects) (simp_all add: emits_makeSureObjectRemoved)
  from stepsD [OF this 2] have "grows (\<lambda>_. True) t s'" .
  with makeSureObjectRemoved_looks [OF 1] Cons.IH [OF 2] Cons.prems(2) show ?case
    by (auto intro: growsD_mem)
qed

section \<open>A server that keeps what it is given\<close>

text \<open>
  \<open>serves env st\<close>: what the API server holds is the set \<open>st w\<close> of keys (kind, namespace,
  name); an object that can be read is held, an object created, or found to exist on creation, is
  held from then on, and reads, updates and creations lose nothing.
\<close>

type_synonym okey = "string \<times> string \<times> string"

definition keyIn :: "nvmesh \<Rightarrow> kobj \<Rightarrow> okey" where
  "keyIn cr x = (kindOf x, getNamespaceForObject cr (kindOf x), nameOf x)"

definition keyOf :: "kobj \<Rightarrow> okey" where
  "keyOf x = (kindOf x, if kindOf x \<in> set GloballyNamedKinds then '''' else namespaceOf x, nameOf x)"

definition serves :: "'w kube \<Rightarrow> ('w \<Rightarrow> okey set) \<Rightarrow> bool" where
  "serves env st \<longleftrightarrow>
     (\<forall>kind ns name w y w'. kGet env kind ns name w = (Inr y, w') \<longrightarrow> (kind, ns, name) \<in> st w') \<and>
     (\<forall>x w err w'. kCreate env x w = (err, w') \<longrightarrow> \<not> realError isAlreadyExists err \<longrightarrow> keyOf x \<in> st w') \<and>
     (\<forall>K. allowsReads env (keeps (\<lambda>w. K \<subseteq> st w)) \<and> allowsUpdates env (keeps (\<lambda>w. K \<subseteq> st w)) \<and>
          (\<forall>x. steps (keeps (\<lambda>w. K \<subseteq> st w)) (clientCreate env x)))"

lemma servesD:
  assumes "serves env st"
  shows "kGet env kind ns name w = (Inr y, w') \<Longrightarrow> (kind, ns, name) \<in> st w'"
    and "kCreate env x w = (err, w') \<Longrightarrow> \<not> realError isAlreadyExists err \<Longrightarrow> keyOf x \<in> st w'"
    and "allowsReads env (keeps (\<lambda>w. K \<subseteq> st w))" and "allowsUpdates env (keeps (\<lambda>w. K \<subseteq> st w))"
    and "steps (keeps (\<lambda>w. K \<subseteq> st w)) (clientCreate env x)"
  using assms unfolding serves_def by blast+

lemma serves_keep:
  assumes "serves env st"
    and "\<And>K. steps (keeps (\<lambda>w. K \<subseteq> st w)) f" and "f s = Some (r, s')"
  shows "st (world s) \<subseteq> st (world s')"
  using stepsD [OF assms(2) [of "st (world s)"] assms(3)] by (simp add: keeps_def)

lemma walkedFiles_plain: "walkedFiles (map (\<lambda>f. (f, Some False)) files) = Some files"
  by (induction files) auto

text \<open>
  Assets that are part of the operator's image: a directory of plain files whose names and texts do
  not change. \<open>assetObjects\<close> are the objects of a file.
\<close>

definition staticAssets :: "'w kube \<Rightarrow> string \<Rightarrow> (string \<times> string) list \<Rightarrow> bool" where
  "staticAssets env dir assets \<longleftrightarrow>
     (\<forall>w. fsWalk env dir w = (map (\<lambda>f. (f, Some False)) (map fst assets), w)) \<and>
     (\<forall>(f, t)\<in>set assets. \<forall>w. fsReadFile env f w = (Inr t, w))"

definition assetObjects :: "'w kube \<Rightarrow> string \<Rightarrow> kobj list" where
  "assetObjects env t = decodedObjects (kDecode env) (go_split yamlSeparator t)"

context nvmesh_component
begin

lemma serves_steps:
  assumes "serves env st" "retries (retryDefaultBackoff env)" "ownerRefOnly env"
  shows "steps (keeps (\<lambda>w. K \<subseteq> st w)) (makeSureObjectExists env cr x (Some C))"
  by (intro steps_makeSureObjectExists)
    (simp_all add: assms servesD [OF assms(1)] allowsCreatesFor_def)

text \<open>When \<open>makeSureObjectExists\<close> returns without an error, the object is on the server.\<close>

lemma makeSureObjectExists_exists:
  assumes srv: "serves env st" "retries (retryDefaultBackoff env)" "ownerRefOnly env"
    and run: "makeSureObjectExists env cr x (Some C) s = Some (None, s')"
  shows "keyIn cr x \<in> st (world s')"
proof -
  let ?x = "addOperatorLabels cr (setNamespace (crNamespace cr) x)"
  let ?key = "(kindOf x, getNamespaceForObject cr (kindOf x), nameOf x)"
  from run obtain y where init: "InitObject C cr ?x = Some (None, y)"
    by (auto simp: makeSureObjectExists_def initWith_def bind_eq_Some split: option.splits)
  obtain e z where z: "kSetControllerReference env cr y = (e, z)"
    by (cases "kSetControllerReference env cr y")
  note m = init_meta [OF init]
  have "nameOf y = nameOf ?x" and "namespaceOf y = namespaceOf ?x"
    by (simp_all only: nameOf_def namespaceOf_def conjunct1 [OF m])
  with m ownerRefOnlyD [OF srv(3) z]
  have zk: "kindOf z = kindOf x" "nameOf z = nameOf x" "namespaceOf z = crNamespace cr" by simp_all
  obtain found w where g: "kGet env (kindOf x) (getNamespaceForObject cr (kindOf x)) (nameOf x) (world s) = (found, w)"
    by (cases "kGet env (kindOf x) (getNamespaceForObject cr (kindOf x)) (nameOf x) (world s)")
  let ?s = "s\<lparr>world := w, reqs := reqs s @ [ReqGet (kindOf x) (getNamespaceForObject cr (kindOf x)) (nameOf x)]\<rparr>"
  have get: "getGenericObject env z (crNamespace cr) s = Some (found, ?s)"
    using g by (simp add: getGenericObject_def Let_def zk clientGet_def apiCall_def getNamespaceForObject_def)
  note run' = run [unfolded makeSureObjectExists_def Let_def initWith_def option.case init bind_Some_conv prod.case z get]
  show ?thesis
  proof (cases found)
    case (Inl e')
    with run' obtain err t where c: "clientCreate env z ?s = Some (err, t)"
      and ok: "(if realError isAlreadyExists err then err else None) = None" and t: "t = s'"
      by (auto simp: bind_case_prod_Some split: if_splits)
    from ok have "\<not> realError isAlreadyExists err" by (cases err) (auto split: if_splits)
    moreover from c have "kCreate env z w = (err, world t)"
      by (auto simp: clientCreate_def apiCall_def split: prod.splits)
    ultimately have "keyOf z \<in> st (world s')" using servesD(2) [OF srv(1)] t by blast
    then show ?thesis unfolding keyOf_def keyIn_def zk getNamespaceForObject_def by simp
  next
    case (Inr fo)
    with g have key: "?key \<in> st (world ?s)" using servesD(1) [OF srv(1)] by simp
    from Inr run' obtain u z' t where sh: "ShouldUpdateObject C cr z fo ?s = Some ((u, z'), t)"
      and rest: "(if u then clientUpdate env z' t else Some (None, t)) = Some (None, s')"
      by (auto simp: bind_eq_Some shouldUpdateWith_def)
    have up: "steps (keeps (\<lambda>w. K \<subseteq> st w)) (ShouldUpdateObject C cr z fo)" for K
      by (rule update_steps [OF _ srv(2)]) (simp_all add: servesD [OF srv(1)])
    have "st (world ?s) \<subseteq> st (world t)" by (rule serves_keep [OF srv(1) up sh])
    moreover have "st (world t) \<subseteq> st (world s')"
    proof (cases u)
      case True
      with rest have "clientUpdate env z' t = Some (None, s')" by simp
      then show ?thesis by (rule serves_keep [OF srv(1) allowsUpdatesD [OF servesD(4) [OF srv(1)]]])
    next
      case False
      with rest show ?thesis by simp
    qed
    ultimately show ?thesis using key by (auto simp: keyIn_def)
  qed
qed

lemma reconcileObjects_exist:
  assumes srv: "serves env st" "retries (retryDefaultBackoff env)" "ownerRefOnly env"
    and "reconcileObjects env cr C False xs s = Some ([], s')"
  shows "keyIn cr ` set xs \<subseteq> st (world s')"
  using assms(4)
proof (induction xs arbitrary: s)
  case Nil
  then show ?case by simp
next
  case (Cons x xs)
  from Cons.prems obtain t where 1: "makeSureObjectExists env cr x (Some C) s = Some (None, t)"
    and 2: "reconcileObjects env cr C False xs t = Some ([], s')"
    by (auto simp: bind_case_prod_Some split: option.splits)
  have "steps (keeps (\<lambda>w. K \<subseteq> st w)) (reconcileObjects env cr C False xs)" for K
    by (intro steps_reconcileObjects) (simp_all add: serves_steps [OF srv])
  from serves_keep [OF srv(1) this 2] makeSureObjectExists_exists [OF srv 1] Cons.IH [OF 2]
  show ?case by auto
qed

lemma reconcileFiles_exist:
  assumes srv: "serves env st" "retries (retryDefaultBackoff env)" "ownerRefOnly env"
    and files: "\<forall>(f, t)\<in>set assets. \<forall>w. fsReadFile env f w = (Inr t, w)"
    and run: "reconcileFiles env cr C False (map fst assets) s = Some (None, s')"
  shows "\<forall>(f, t)\<in>set assets. keyIn cr ` set (assetObjects env t) \<subseteq> st (world s')"
  using files run
proof (induction assets arbitrary: s)
  case Nil
  then show ?case by simp
next
  case (Cons a assets)
  obtain f t where a: "a = (f, t)" by (cases a)
  from Cons.prems(2) a obtain s1 where 1: "reconcileYamlObjectsFromFile env cr f C False s = Some (None, s1)"
    and 2: "reconcileFiles env cr C False (map fst assets) s1 = Some (None, s')"
    by (auto simp: bind_case_prod_Some split: if_splits)
  have read: "fsReadFile env f (world s) = (Inr t, world s)" using Cons.prems(1) a by auto
  from 1 obtain objs e where y: "yamlStringToObjects t (kDecode env) = Some (objs, e)"
    by (auto simp: reconcileYamlObjectsFromFile_def YamlFileToObjects_def YamlFileToString_def localCall_def read bind_eq_Some)
  have objs: "objs = assetObjects env t" using yamlStringToObjects_Some(2) [OF y] by (simp add: assetObjects_def)
  have "\<not> realError isYamlFileParseError e" using y by (auto simp: yamlStringToObjects_def bind_eq_Some split: if_splits)
  with 1 y objs have "\<exists>errs. reconcileObjects env cr C False (assetObjects env t) s = Some (errs, s1) \<and> firstError errs = None"
    by (auto simp: reconcileYamlObjectsFromFile_def YamlFileToObjects_def YamlFileToString_def localCall_def read bind_case_prod_Some)
  then have "reconcileObjects env cr C False (assetObjects env t) s = Some ([], s1)"
    by (metis firstError_def list.exhaust list.simps(5) option.distinct(1))
  from reconcileObjects_exist [OF srv this] have here: "keyIn cr ` set (assetObjects env t) \<subseteq> st (world s1)" .
  have "steps (keeps (\<lambda>w. K \<subseteq> st w)) (reconcileFiles env cr C False (map fst assets))" for K
    by (intro steps_reconcileFiles) (simp_all add: serves_steps [OF srv] servesD [OF srv(1)])
  from serves_keep [OF srv(1) this 2] have "st (world s1) \<subseteq> st (world s')" .
  moreover from Cons.IH [OF _ 2] Cons.prems(1)
  have "\<forall>(f, t)\<in>set assets. keyIn cr ` set (assetObjects env t) \<subseteq> st (world s')" by simp
  ultimately show ?case using here a by auto
qed

lemma createObjectsFromDir_exist:
  assumes srv: "serves env st" "retries (retryDefaultBackoff env)" "ownerRefOnly env"
    and assets: "staticAssets env dir assets"
    and run: "createObjectsFromDir env cr C dir True s = Some (None, s')"
  shows "\<forall>(f, t)\<in>set assets. keyIn cr ` set (assetObjects env t) \<subseteq> st (world s')"
proof -
  have walk: "fsWalk env dir (world s) = (map (\<lambda>f. (f, Some False)) (map fst assets), world s)"
    using assets by (auto simp: staticAssets_def)
  have "listFilesInDir env dir True s = Some (Inr (map fst assets), s)"
    using walk unfolding listFilesInDir_def listFilesInSubDirs_def localCall_def by (simp add: walkedFiles_plain del: map_map)
  with run have "reconcileFiles env cr C False (map fst assets) s = Some (None, s')"
    by (simp add: createObjectsFromDir_def reconcileYamlObjectsFromDir_def)
  from reconcileFiles_exist [OF srv _ this] assets show ?thesis by (simp add: staticAssets_def)
qed

end

section \<open>Properties\<close>


end
