(* ===== verification/MemKube.thy ===== *)
theory MemKube
  imports ComponentLoop
begin

text \<open>
  An API server that holds its objects in a list, as an instance of the parameters of KubeClient.
  It answers at once, has one NVMesh resource, retries a conflict four times, and reads its assets from a
  list of files and decodes them by a function, both of which it is given. The properties of the operator hold for every \<open>kube\<close>; this one shows
  that their hypotheses can be met, and the witnesses run on it.
\<close>

record mem =
  m_objs :: "kobj list"
  m_cr :: "nvmesh option"
  m_nodes :: "node list"
  m_pods :: "pod list"
  m_pvcs :: "persistent_volume_claim list"
  m_vas :: "volume_attachment list"
  m_pvs :: "persistent_volume list"
  m_settings :: "hidden_settings option"
  m_clock :: nat

definition emptyMem :: mem where
  "emptyMem = \<lparr>m_objs = [], m_cr = None, m_nodes = [], m_pods = [], m_pvcs = [], m_vas = [], m_pvs = [],
     m_settings = None, m_clock = 1\<rparr>"

definition memState :: "mem \<Rightarrow> mem st" where
  "memState w = \<lparr>world = w, reqs = [], reconcileCycles = 0, watchers = []\<rparr>"

definition errNotFound :: goerr where "errNotFound = StatusError ReasonNotFound ''not found''"
definition errExists :: goerr where "errExists = StatusError ReasonAlreadyExists ''already exists''"

lemma err_kinds [simp]:
  "isNotFound errNotFound" "\<not> isAlreadyExists errNotFound" "\<not> isConflict errNotFound"
  "isAlreadyExists errExists" "\<not> isNotFound errExists" "\<not> isConflict errExists"
  by (simp_all add: errNotFound_def errExists_def)

definition memHas :: "okey \<Rightarrow> mem \<Rightarrow> bool" where
  "memHas k w \<longleftrightarrow> k \<in> keyOf ` set (m_objs w)"

definition memGet :: "string \<Rightarrow> string \<Rightarrow> string \<Rightarrow> mem \<Rightarrow> (goerr + kobj) \<times> mem" where
  "memGet kind ns name w =
     (case find (\<lambda>x. keyOf x = (kind, ns, name)) (m_objs w) of None \<Rightarrow> Inl errNotFound | Some x \<Rightarrow> Inr x, w)"

definition memCreate :: "kobj \<Rightarrow> mem \<Rightarrow> goerr option \<times> mem" where
  "memCreate x w = (if memHas (keyOf x) w then (Some errExists, w) else (None, w\<lparr>m_objs := m_objs w @ [x]\<rparr>))"

definition memUpdate :: "kobj \<Rightarrow> mem \<Rightarrow> goerr option \<times> mem" where
  "memUpdate x w =
     (if memHas (keyOf x) w
      then (None, w\<lparr>m_objs := map (\<lambda>y. if keyOf y = keyOf x then x else y) (m_objs w)\<rparr>)
      else (Some errNotFound, w))"

definition memDelete :: "kobj \<Rightarrow> mem \<Rightarrow> goerr option \<times> mem" where
  "memDelete x w =
     (if memHas (keyOf x) w then (None, w\<lparr>m_objs := filter (\<lambda>y. keyOf y \<noteq> keyOf x) (m_objs w)\<rparr>)
      else (Some errNotFound, w))"

definition memUpdateCR :: "nvmesh \<Rightarrow> mem \<Rightarrow> (goerr + nvmesh) \<times> mem" where
  "memUpdateCR cr w = (case m_cr w of None \<Rightarrow> (Inl errNotFound, w) | Some _ \<Rightarrow> (Inr cr, w\<lparr>m_cr := Some cr\<rparr>))"

definition memKube :: "(string \<times> string) list \<Rightarrow> (string \<Rightarrow> kobj option \<times> goerr option) \<Rightarrow> mem kube" where
  "memKube fs dec = \<lparr>
     kGet = memGet,
     kCreate = memCreate,
     kUpdate = memUpdate,
     kDelete = memDelete,
     kListPods = (\<lambda>q w. ((None, m_pods w), w)),
     kListNodes = (\<lambda>ls w. ((None, filter (\<lambda>n. case om_labels (node_meta n) of None \<Rightarrow> False
         | Some m \<Rightarrow> list_all (\<lambda>(k, v). map_of m k = Some v) ls) (m_nodes w)), w)),
     kListPVCs = (\<lambda>r w. ((None, m_pvcs w), w)),
     kListVolumeAttachments = (\<lambda>w. ((None, m_vas w), w)),
     kListPVs = (\<lambda>w. ((None, m_pvs w), w)),
     kGetCR = (\<lambda>ns name w. (case m_cr w of None \<Rightarrow> Inl errNotFound | Some cr \<Rightarrow> Inr cr, w)),
     kUpdateCR = memUpdateCR,
     kUpdateStatus = memUpdateCR,
     kEvent = (\<lambda>cr t r m w. w),
     kStopWatch = (\<lambda>n w. w),
     mongoConnect = (\<lambda>uri w. (None, w)),
     mongoFindOne = (\<lambda>w. (case m_settings w of None \<Rightarrow> Inl ErrNoDocuments | Some hs \<Rightarrow> Inr hs, w)),
     mongoUpdateOne = (\<lambda>evict form w. (case m_settings w of None \<Rightarrow> (Inr 0, w)
         | Some hs \<Rightarrow> (Inr 1, w\<lparr>m_settings := Some (hs\<lparr>hs_AutoEvictMissingDrive := evict, hs_AutoFormatDrive := form\<rparr>)\<rparr>))),
     mongoDisconnect = (\<lambda>w. w),
     fsWalk = (\<lambda>d w. (map (\<lambda>f. (f, Some False)) (map fst fs), w)),
     fsReadDir = (\<lambda>d w. (Inr (map (\<lambda>(f, _). (f, False)) fs), w)),
     fsReadFile = (\<lambda>f w. (case map_of fs f of None \<Rightarrow> Inl (ErrorString ''no such file'') | Some t \<Rightarrow> Inr t, w)),
     mapOrder = (\<lambda>m w. (m, w)),
     timeNow = (\<lambda>w. (m_clock w, w\<lparr>m_clock := m_clock w + 1\<rparr>)),
     timeSleep = (\<lambda>w. w),
     timeFormatRFC3339 = nat_dec,
     kDecode = dec,
     kSetControllerReference = (\<lambda>cr x. (None, mapMeta (om_ownerReferences_update (\<lambda>_.
         [\<lparr>or_apiVersion = ''nvmesh.excelero.com/v1'', or_kind = ''NVMesh'', or_name = crName cr,
           or_uid = crm_UID (cr_ObjectMeta cr), or_blockOwnerDeletion = Some True, or_controller = Some True\<rparr>])) x)),
     kParseGroupVersion = (\<lambda>s. Inr (s, '''')),
     kNewRequirement = (\<lambda>k oper vs. (Some (k, oper, vs), None)),
     retryDefaultRetry = (\<lambda>f s. attempts 4 f 0 s),
     retryDefaultBackoff = (\<lambda>f s. attempts 3 f 0 s),
     optIsOpenShift = False,
     optDefaultCoreImageTag = ''2.2.0'',
     optDevelopment = False,
     osGetwd = ''/''\<rparr>"

lemma memKube_simps [simp]:
  "kGet (memKube fs dec) = memGet"
  "kCreate (memKube fs dec) = memCreate"
  "kUpdate (memKube fs dec) = memUpdate"
  "kDelete (memKube fs dec) = memDelete"
  "kListPods (memKube fs dec) q w = ((None, m_pods w), w)"
  "kListPVCs (memKube fs dec) r w = ((None, m_pvcs w), w)"
  "kListVolumeAttachments (memKube fs dec) w = ((None, m_vas w), w)"
  "kListPVs (memKube fs dec) w = ((None, m_pvs w), w)"
  "kUpdateCR (memKube fs dec) = memUpdateCR"
  "kUpdateStatus (memKube fs dec) = memUpdateCR"
  "kEvent (memKube fs dec) cr t rs m w = w"
  "mongoConnect (memKube fs dec) uri w = (None, w)"
  "mongoDisconnect (memKube fs dec) w = w"
  "timeSleep (memKube fs dec) w = w"
  "kDecode (memKube fs dec) = dec"
  "retryDefaultRetry (memKube fs dec) f p = attempts 4 f 0 p"
  "retryDefaultBackoff (memKube fs dec) f' p' = attempts 3 f' 0 p'"
  "optDevelopment (memKube fs dec) = False"
  by (simp_all add: memKube_def)

lemma memKube_retries [simp]:
  "retries (retryDefaultRetry (memKube fs dec))" "retries (retryDefaultBackoff (memKube fs dec))"
  by (auto simp: memKube_def intro: retries_attempts)

lemma memKube_ownerRefOnly [simp]: "ownerRefOnly (memKube fs dec)"
  unfolding ownerRefOnly_def memKube_def by auto

text \<open>It keeps what it is given.\<close>

lemma memKube_reads: "allowsReads (memKube fs dec) (keeps (\<lambda>w. K \<subseteq> keyOf ` set (m_objs w)))"
  by (auto simp: allowsReads_def client_defs memKube_def memGet_def
      intro!: keeps_apiCall keeps_localCall)

lemma memKube_serves: "serves (memKube fs dec) (\<lambda>w. keyOf ` set (m_objs w))"
proof -
  have "memGet kind ns name w = (Inr y, w') \<Longrightarrow> (kind, ns, name) \<in> keyOf ` set (m_objs w')" for kind ns name w y w'
    by (auto simp: memGet_def find_Some_iff split: option.splits) (metis image_eqI nth_mem)
  moreover have "memCreate x w = (err, w') \<Longrightarrow> \<not> realError isAlreadyExists err \<Longrightarrow> keyOf x \<in> keyOf ` set (m_objs w')"
    for x w err w'
    by (auto simp: memCreate_def memHas_def split: if_splits)
  moreover have "allowsUpdates (memKube fs dec) (keeps (\<lambda>w. K \<subseteq> keyOf ` set (m_objs w)))" for K
  proof -
    have "keyOf ` set (m_objs w) \<subseteq> keyOf ` set (m_objs (snd (memUpdate x w)))" for x w
    proof -
      have "keyOf ` set (map (\<lambda>y. if keyOf y = keyOf x then x else y) (m_objs w)) = keyOf ` set (m_objs w)"
        unfolding set_map image_image by (rule image_cong) simp_all
      then show ?thesis by (simp add: memUpdate_def del: set_map)
    qed
    then show ?thesis
      unfolding allowsUpdates_def clientUpdate_def memKube_simps by (blast intro!: keeps_apiCall)
  qed
  moreover have "steps (keeps (\<lambda>w. K \<subseteq> keyOf ` set (m_objs w))) (clientCreate (memKube fs dec) x)" for K x
    unfolding clientCreate_def memKube_simps by (rule keeps_apiCall) (auto simp: memCreate_def)
  ultimately show ?thesis
    unfolding serves_def memKube_simps using memKube_reads by blast
qed

section \<open>A sample\<close>

text \<open>A resource, and a directory with one file of one document.\<close>

definition sampleFiles :: "(string \<times> string) list" where
  "sampleFiles = [(''f'', ''sa'')]"


definition sampleCR :: nvmesh where
  "sampleCR = zeroNVMesh\<lparr>cr_ObjectMeta := (cr_ObjectMeta zeroNVMesh)\<lparr>crm_Name := ''cluster'', crm_Namespace := ''ns''\<rparr>\<rparr>"

definition sampleObj :: kobj where
  "sampleObj = ServiceAccount \<lparr>sa_meta = newMeta ''sa'' '''', sa_imagePullSecrets = []\<rparr>"

definition sampleDec :: "string \<Rightarrow> kobj option \<times> goerr option" where
  "sampleDec t = (Some sampleObj, if t = ''sa'' then None else Some (ErrorString ''no kind''))"

definition sampleMem :: mem where
  "sampleMem = emptyMem\<lparr>m_cr := Some sampleCR\<rparr>"

lemma sample_assets: "staticAssets (memKube sampleFiles sampleDec) dir sampleFiles"
  by (auto simp: staticAssets_def memKube_def sampleFiles_def)

text \<open>The server alone, for what needs no assets.\<close>

definition plainKube :: "mem kube" where
  "plainKube = memKube [] (\<lambda>_. (None, None))"

end
