(* ===== verification/StatusUpdater.thy ===== *)
theory StatusUpdater
  imports CtrlUtils Conditions MemKube
begin

text \<open>
  pkg/controllers/status_updater.go: how the outcome of a reconciliation cycle is written to the
  status of the resource. The pointer to the resource is passed in and returned, as the update
  replaces what it points to by the server's answer.
\<close>

text \<open>From nvmesh_controller.go.\<close>

definition getManagementGUIURL :: "nvmesh \<Rightarrow> string" where
  "getManagementGUIURL cr =
     (case mgmt_ExternalIPs (mgmt cr) of
        None \<Rightarrow> ''''
      | Some [] \<Rightarrow> ''''
      | Some (address # _) \<Rightarrow>
          (if mgmt_NoSSL (mgmt cr) then ''http'' else ''https'') @ ''://'' @ address @ '':'' @ nat_dec 4000)"

definition populateStatusFields :: "nvmesh \<Rightarrow> nvmesh" where
  "populateStatusFields cr = upd_status (st_WebUIURL_update (\<lambda>_. getManagementGUIURL cr)) cr"

text \<open>The clock is read whether or not the condition needs a time.\<close>

definition setCondition :: "'w kube \<Rightarrow> cluster_condition \<Rightarrow> nvmesh \<Rightarrow> 'w st \<Rightarrow> (nvmesh \<times> 'w st) option" where
  "setCondition env new cr s = do {
     (now, s) \<leftarrow> localCall (timeNow env) s;
     Some (upd_status (st_Conditions_update (\<lambda>cs. setConditionIn now cs new)) cr, s)
   }"

definition newCondition :: "string \<Rightarrow> string \<Rightarrow> string \<Rightarrow> cluster_condition" where
  "newCondition ty reason status =
     \<lparr>cond_Type = ty, cond_Status = status, cond_LastTransitionTime = 0, cond_Reason = reason, cond_Message = ''''\<rparr>"

section \<open>UpdateStatus\<close>

definition handle_err :: "goerr \<Rightarrow> goerr option" where
  "handle_err err = (if isNotFound err then None else Some err)"

text \<open>One attempt of \<open>RetryOnConflict\<close>; every one but the first reads the resource again.\<close>

definition statusAttempt ::
  "'w kube \<Rightarrow> nvmesh_status \<Rightarrow> nat \<Rightarrow> nvmesh \<Rightarrow> 'w st \<Rightarrow> ((goerr option \<times> nvmesh) \<times> 'w st) option" where
  "statusAttempt env updatedStatus i cr s = do {
     (r, s) \<leftarrow> (if i \<noteq> 0 then clientGetCR env (crNamespace cr) (crName cr) s else Some (Inr cr, s));
     case r of
       Inl err \<Rightarrow> Some ((handle_err err, cr), s)
     | Inr cr \<Rightarrow> do {
         (r, s) \<leftarrow> clientUpdateStatus env (cr\<lparr>cr_Status := updatedStatus\<rparr>) s;
         case r of
           Inl err \<Rightarrow> Some ((handle_err err, cr\<lparr>cr_Status := updatedStatus\<rparr>), s)
         | Inr cr \<Rightarrow> Some ((None, cr), s)
       }
   }"

definition asAttempt ::
  "(nat \<Rightarrow> 'p \<Rightarrow> 'w st \<Rightarrow> ((goerr option \<times> 'p) \<times> 'w st) option) \<Rightarrow> nat \<Rightarrow> 'p \<times> 'w st \<Rightarrow> (goerr option \<times> 'p \<times> 'w st) option" where
  "asAttempt f i = (\<lambda>(p, s). map_option (\<lambda>((err, p), s). (err, p, s)) (f i p s))"

definition UpdateStatus :: "'w kube \<Rightarrow> nvmesh \<Rightarrow> 'w st \<Rightarrow> ((goerr option \<times> nvmesh) \<times> 'w st) option" where
  "UpdateStatus env cr s = do {
     (err, cr, s) \<leftarrow> retryDefaultRetry env (asAttempt (statusAttempt env (cr_Status cr))) (cr, s);
     Some ((err, cr), s)
   }"

section \<open>The end of a cycle\<close>

definition requeueSoon :: ctrl_result where
  "requeueSoon = \<lparr>Requeue = True, RequeueAfter = second\<rparr>"

definition writeCondition ::
  "'w kube \<Rightarrow> cluster_condition \<Rightarrow> nvmesh \<Rightarrow> ctrl_result \<Rightarrow> 'w st \<Rightarrow> ((ctrl_result \<times> goerr option) \<times> 'w st) option" where
  "writeCondition env new cr result s = do {
     (cr, s) \<leftarrow> setCondition env new cr s;
     let cr = populateStatusFields cr;
     ((err, cr), s) \<leftarrow> UpdateStatus env cr s;
     if realError isNotFound err then Some ((requeueSoon, None), s) else Some ((result, None), s)
   }"

definition ManageSuccess ::
  "'w kube \<Rightarrow> nvmesh option \<Rightarrow> ctrl_result \<Rightarrow> 'w st \<Rightarrow> ((ctrl_result \<times> goerr option) \<times> 'w st) option" where
  "ManageSuccess env cr result s =
     (case cr of
        None \<Rightarrow> Some ((result, None), s)
      | Some cr \<Rightarrow> writeCondition env (newCondition Ready '''' ConditionTrue) cr result s)"

definition ManageError ::
  "'w kube \<Rightarrow> nvmesh \<Rightarrow> goerr \<Rightarrow> ctrl_result \<Rightarrow> 'w st \<Rightarrow> ((ctrl_result \<times> goerr option) \<times> 'w st) option" where
  "ManageError env cr issue result s = do {
     (_, s) \<leftarrow> eventWarning env cr ''ProcessingError'' (errorText issue) s;
     writeCondition env (newCondition Ready (errorText issue) ConditionFalse) cr result s
   }"

section \<open>Lemmas\<close>

definition isStatusRequest :: "nvmesh_status \<Rightarrow> request \<Rightarrow> bool" where
  "isStatusRequest st q \<longleftrightarrow> isRead q \<or> (\<exists>cr. q = ReqUpdateStatus cr \<and> cr_Status cr = st)"

text \<open>Every attempt writes the status captured at the start, and the last one decides.\<close>

lemma asAttempt_Some: "asAttempt f i (p, s) = Some (e, q, s') \<longleftrightarrow> f i p s = Some ((e, q), s')"
  by (auto simp: asAttempt_def)

lemma emits_statusAttempt: "emits (isStatusRequest st) (statusAttempt env st i cr)"
proof -
  have "emits (isStatusRequest st) (\<lambda>s. if i \<noteq> 0 then clientGetCR env (crNamespace cr) (crName cr) s else Some (Inr cr, s))"
    by (intro steps_intro) (auto simp: isStatusRequest_def)
  then show ?thesis unfolding statusAttempt_def
    by (intro steps_intro) (auto simp: isStatusRequest_def)
qed

lemma UpdateStatus_grows:
  assumes "retries (retryDefaultRetry env)" and "UpdateStatus env cr s = Some ((err, cr'), s')"
  shows "grows (isStatusRequest (cr_Status cr)) s s'"
proof -
  from assms(2) have "retryDefaultRetry env (asAttempt (statusAttempt env (cr_Status cr))) (cr, s) = Some (err, cr', s')"
    by (auto simp: UpdateStatus_def bind_eq_Some)
  from steps_retry [OF assms(1) preord_grows _ this] show ?thesis
    unfolding asAttempt_Some using stepsD [OF emits_statusAttempt] by blast
qed

text \<open>What every attempt's result satisfies, the result of the retry satisfies.\<close>

lemma attempts_result:
  assumes "\<And>i p e q. f i p = Some (e, q) \<Longrightarrow> Q e"
  shows "attempts n f i p = Some (e, q) \<Longrightarrow> Q e"
proof (induction n arbitrary: i p)
  case 0
  then show ?case using assms by auto
next
  case (Suc n)
  from Suc.prems obtain e1 p1 where f: "f i p = Some (e1, p1)"
    and rest: "(case e1 of None \<Rightarrow> Some (None, p1)
      | Some e \<Rightarrow> if isConflict e then attempts n f (Suc i) p1 else Some (Some e, p1)) = Some (e, q)"
    by (auto simp: bind_case_prod_Some)
  from assms [OF f] rest Suc.IH show ?case by (auto split: option.splits if_splits)
qed

lemma UpdateStatus_error:
  assumes "retries (retryDefaultRetry env)" and "UpdateStatus env cr s = Some ((err, cr'), s')"
  shows "\<not> realError isNotFound err \<longleftrightarrow> err = None"
proof -
  from assms(2) have run: "retryDefaultRetry env (asAttempt (statusAttempt env (cr_Status cr))) (cr, s) = Some (err, cr', s')"
    by (auto simp: UpdateStatus_def bind_eq_Some)
  from assms(1) obtain n where "\<forall>f s. retryDefaultRetry env f s = attempts n f 0 s" unfolding retries_def ..
  with run have last: "attempts n (asAttempt (statusAttempt env (cr_Status cr))) 0 (cr, s) = Some (err, cr', s')" by metis
  have each: "\<forall>x. e = Some x \<longrightarrow> \<not> isNotFound x" if "asAttempt (statusAttempt env st) i p = Some (e, q)" for st i p e q
  proof -
    obtain c t where p: "p = (c, t)" by (cases p)
    obtain c' t' where q: "q = (c', t')" by (cases q)
    from that p q have "statusAttempt env st i c t = Some ((e, c'), t')" by (simp add: asAttempt_Some)
    then obtain r v where rest: "(case r of
         Inl err \<Rightarrow> Some ((handle_err err, c), v)
       | Inr cr \<Rightarrow> do {
           (r, s) \<leftarrow> clientUpdateStatus env (cr\<lparr>cr_Status := st\<rparr>) v;
           case r of
             Inl err \<Rightarrow> Some ((handle_err err, cr\<lparr>cr_Status := st\<rparr>), s)
           | Inr cr \<Rightarrow> Some ((None, cr), s)
         }) = Some ((e, c'), t')"
      unfolding statusAttempt_def bind_case_prod_Some by blast
    have h: "handle_err x = Some y \<Longrightarrow> \<not> isNotFound y" for x y by (auto simp: handle_err_def split: if_splits)
    show ?thesis
    proof (cases r)
      case (Inl err)
      with rest show ?thesis by (auto dest: h)
    next
      case (Inr cr)
      with rest obtain r' s1 where "(case r' of Inl err \<Rightarrow> Some ((handle_err err, cr\<lparr>cr_Status := st\<rparr>), s1)
           | Inr cr \<Rightarrow> Some ((None, cr), s1)) = Some ((e, c'), t')"
        by (auto simp: bind_case_prod_Some)
      then show ?thesis by (cases r') (auto dest: h)
    qed
  qed
  have "\<forall>x. err = Some x \<longrightarrow> \<not> isNotFound x" by (rule attempts_result [OF each last])
  then show ?thesis by (cases err) simp_all
qed

text \<open>The state of a status after a cycle, by the condition the cycle sets.\<close>

definition statusSays :: "cluster_condition \<Rightarrow> nvmesh \<Rightarrow> nvmesh_status \<Rightarrow> bool" where
  "statusSays new cr st \<longleftrightarrow>
     (\<exists>now. st = st_WebUIURL_update (\<lambda>_. getManagementGUIURL cr)
       (st_Conditions_update (\<lambda>cs. setConditionIn now cs new) (cr_Status cr)))"

lemma getManagementGUIURL_status [simp]: "getManagementGUIURL (upd_status f cr) = getManagementGUIURL cr"
  by (simp add: getManagementGUIURL_def)

lemma writeCondition_run:
  assumes "retries (retryDefaultRetry env)" and "writeCondition env new cr result s = Some ((res, err), s')"
  shows "err = None \<and> res \<in> {result, requeueSoon} \<and>
    grows (\<lambda>q. isRead q \<or> (\<exists>c. q = ReqUpdateStatus c \<and> statusSays new cr (cr_Status c))) s s'"
proof -
  obtain now v where now: "timeNow env (world s) = (now, v)" by (metis surj_pair)
  let ?s = "s\<lparr>world := v\<rparr>"
  let ?cr = "populateStatusFields (upd_status (st_Conditions_update (\<lambda>cs. setConditionIn now cs new)) cr)"
  have st: "statusSays new cr (cr_Status ?cr)"
    by (auto simp: statusSays_def populateStatusFields_def)
  from assms(2) now obtain e cr' where u: "UpdateStatus env ?cr ?s = Some ((e, cr'), s')"
    and r: "(res, err) = (if realError isNotFound e then (requeueSoon, None) else (result, None))"
    by (auto simp: writeCondition_def setCondition_def localCall_def bind_eq_Some Let_def split: if_splits)
  from UpdateStatus_grows [OF assms(1) u] obtain l where l: "reqs s' = reqs ?s @ l" "list_all (isStatusRequest (cr_Status ?cr)) l"
    by (rule growsE)
  then have "grows (\<lambda>q. isRead q \<or> (\<exists>c. q = ReqUpdateStatus c \<and> statusSays new cr (cr_Status c))) s s'"
    using st unfolding grows_def by (intro exI [of _ l]) (auto simp: list_all_iff isStatusRequest_def)
  with r show ?thesis by (auto split: if_splits)
qed

lemma statusSays_condition:
  assumes "statusSays new cr st"
  shows "IsStatusConditionPresentAndEqual (st_Conditions st) (cond_Type new) (cond_Status new)"
    and "st_ActionsStatus st = st_ActionsStatus (cr_Status cr)"
  using assms unfolding statusSays_def by (auto simp: IsStatus_setConditionIn)

lemma ManageError_run:
  assumes "retries (retryDefaultRetry env)" and "ManageError env cr issue result s = Some ((res, err), s')"
  shows "err = None \<and> res \<in> {result, requeueSoon} \<and>
    grows (\<lambda>q. isRead q \<or> q = ReqEvent cr ''Warning'' ''ProcessingError'' (errorText issue) \<or>
      (\<exists>c. q = ReqUpdateStatus c \<and> IsStatusConditionFalse (st_Conditions (cr_Status c)) Ready \<and>
        st_WebUIURL (cr_Status c) = getManagementGUIURL cr \<and>
        st_ActionsStatus (cr_Status c) = st_ActionsStatus (cr_Status cr))) s s'"
proof -
  let ?ev = "ReqEvent cr ''Warning'' ''ProcessingError'' (errorText issue)"
  let ?t = "s\<lparr>world := kEvent env cr ''Warning'' ''ProcessingError'' (errorText issue) (world s), reqs := reqs s @ [?ev]\<rparr>"
  from assms(2) have w: "writeCondition env (newCondition Ready (errorText issue) ConditionFalse) cr result ?t = Some ((res, err), s')"
    by (simp add: ManageError_def eventWarning_def apiCall_def unitCall_def)
  from writeCondition_run [OF assms(1) w] obtain l where "err = None" "res \<in> {result, requeueSoon}" "reqs s' = reqs ?t @ l"
    and l: "list_all (\<lambda>q. isRead q \<or> (\<exists>c. q = ReqUpdateStatus c \<and>
      statusSays (newCondition Ready (errorText issue) ConditionFalse) cr (cr_Status c))) l"
    by (auto elim: growsE)
  moreover have "statusSays (newCondition Ready (errorText issue) ConditionFalse) cr st \<Longrightarrow>
      IsStatusConditionFalse (st_Conditions st) Ready \<and> st_WebUIURL st = getManagementGUIURL cr \<and>
      st_ActionsStatus st = st_ActionsStatus (cr_Status cr)" for st
    using statusSays_condition [of "newCondition Ready (errorText issue) ConditionFalse" cr st]
    by (auto simp: IsStatusConditionFalse_def newCondition_def statusSays_def)
  ultimately show ?thesis
    by (auto simp: grows_def intro!: exI [of _ "?ev # l"] elim!: list.pred_mono_strong)
qed

section \<open>Properties\<close>

text \<open>C8: \<open>UpdateStatus\<close> keeps what it was called with through a conflict: it reads the resource
  again and writes the captured status onto the fresh object.\<close>

theorem UpdateStatus_conflict:
  assumes "retryDefaultRetry env = (\<lambda>f p. attempts (Suc n) f 0 p)"
    and "kUpdateStatus env cr (world s) = (Inl e, w1)" and "isConflict e"
    and "kGetCR env (crNamespace cr) (crName cr) w1 = (Inr fresh, w2)"
    and "kUpdateStatus env (fresh\<lparr>cr_Status := cr_Status cr\<rparr>) w2 = (Inr cr', w3)"
  shows "UpdateStatus env cr s = Some ((None, cr'), s\<lparr>world := w3,
    reqs := reqs s @ [ReqUpdateStatus cr, ReqGetCR (crNamespace cr) (crName cr), ReqUpdateStatus (fresh\<lparr>cr_Status := cr_Status cr\<rparr>)]\<rparr>)"
proof -
  have "\<not> isNotFound e" using assms(3) by (auto simp: isConflict_def isNotFound_def)
  then have "asAttempt (statusAttempt env (cr_Status cr)) 0 (cr, s) =
      Some (Some e, cr, s\<lparr>world := w1, reqs := reqs s @ [ReqUpdateStatus cr]\<rparr>)"
    using assms(2) by (simp add: asAttempt_def statusAttempt_def handle_err_def clientUpdateStatus_def apiCall_def)
  moreover have "asAttempt (statusAttempt env (cr_Status cr)) (Suc 0) (cr, s\<lparr>world := w1, reqs := reqs s @ [ReqUpdateStatus cr]\<rparr>) =
      Some (None, cr', s\<lparr>world := w3, reqs := reqs s @ [ReqUpdateStatus cr, ReqGetCR (crNamespace cr) (crName cr),
        ReqUpdateStatus (fresh\<lparr>cr_Status := cr_Status cr\<rparr>)]\<rparr>)"
    using assms(4,5) by (simp add: asAttempt_def statusAttempt_def clientUpdateStatus_def clientGetCR_def apiCall_def)
  ultimately show ?thesis
    using assms(3) by (cases n) (simp_all add: UpdateStatus_def assms(1))
qed

text \<open>A server on which the resource changed meanwhile, once.\<close>

definition changedCR :: nvmesh where
  "changedCR = upd_core (core_Version_update (\<lambda>_. ''v'')) sampleCR"

definition racingKube :: "mem kube" where
  "racingKube = plainKube\<lparr>
     kUpdateStatus := (\<lambda>c w. if m_clock w = 1 then (Inl (StatusError ReasonConflict ''c''), w\<lparr>m_clock := 2\<rparr>) else (Inr c, w))\<rparr>"

theorem UpdateStatus_conflict_witness:
  "UpdateStatus racingKube sampleCR (memState (emptyMem\<lparr>m_cr := Some changedCR\<rparr>)) =
   Some ((None, changedCR), (memState (emptyMem\<lparr>m_cr := Some changedCR\<rparr>))\<lparr>
     world := emptyMem\<lparr>m_cr := Some changedCR, m_clock := 2\<rparr>,
     reqs := [ReqUpdateStatus sampleCR, ReqGetCR ''ns'' ''cluster'', ReqUpdateStatus changedCR]\<rparr>)"
proof -
  let ?w = "emptyMem\<lparr>m_cr := Some changedCR, m_clock := 2\<rparr>" and ?s = "memState (emptyMem\<lparr>m_cr := Some changedCR\<rparr>)"
  have n: "crNamespace sampleCR = ''ns''" "crName sampleCR = ''cluster''"
    by (simp_all add: sampleCR_def crNamespace_def crName_def)
  have st: "changedCR\<lparr>cr_Status := cr_Status sampleCR\<rparr> = changedCR" by (simp add: changedCR_def sampleCR_def zeroNVMesh_def)
  have 1: "retryDefaultRetry racingKube = (\<lambda>f p. attempts (Suc 3) f 0 p)"
    by (simp add: racingKube_def plainKube_def memKube_def)
  have 2: "kUpdateStatus racingKube sampleCR (world ?s) = (Inl (StatusError ReasonConflict ''c''), ?w)"
    by (simp add: racingKube_def memState_def emptyMem_def)
  have 3: "kGetCR racingKube (crNamespace sampleCR) (crName sampleCR) ?w = (Inr changedCR, ?w)"
    by (simp add: racingKube_def plainKube_def memKube_def)
  have 4: "kUpdateStatus racingKube (changedCR\<lparr>cr_Status := cr_Status sampleCR\<rparr>) ?w = (Inr changedCR, ?w)"
    unfolding st by (simp add: racingKube_def)
  have "reqs ?s = []" by (simp add: memState_def)
  with UpdateStatus_conflict [OF 1 2 _ 3 4] show ?thesis unfolding st n by simp
qed



end
