(* ===== verification/TaskStatus.thy ===== *)
theory TaskStatus
  imports StatusUpdater
begin

text \<open>
  The task statuses of pkg/controllers/nvmesh_actions.go: for each cluster action, which of its tasks
  have been started and finished, kept in the status of the resource so that an action goes on where
  it stopped in the next cycle. The contract of such a store is the locale \<open>task_store\<close>; the
  uninstallation and the log collection rest on it.
\<close>

definition actionComplete :: string where "actionComplete = ''ActionComplete''"
definition taskFinished :: string where "taskFinished = ''TaskFinished''"
definition taskStarted :: string where "taskStarted = ''TaskStarted''"

definition actionsStatus :: "nvmesh \<Rightarrow> (string, action_status) gomap" where
  "actionsStatus cr = (case st_ActionsStatus (cr_Status cr) of None \<Rightarrow> [] | Some m \<Rightarrow> m)"

definition setActionsStatus :: "(string, action_status) gomap \<Rightarrow> nvmesh \<Rightarrow> nvmesh" where
  "setActionsStatus m = upd_status (st_ActionsStatus_update (\<lambda>_. Some m))"

text \<open>Reading creates the maps that are missing.\<close>

definition getTaskStatus :: "nvmesh \<Rightarrow> cluster_action \<Rightarrow> string \<Rightarrow> string \<times> nvmesh" where
  "getTaskStatus cr action key =
     (let m = actionsStatus cr in
      case map_of m (act_Name action) of
        Some actionStatus \<Rightarrow> (gomap_get actionStatus key, setActionsStatus m cr)
      | None \<Rightarrow> ('''', setActionsStatus (AList.update (act_Name action) [] m) cr))"

definition setTaskStatus :: "nvmesh \<Rightarrow> cluster_action \<Rightarrow> string \<Rightarrow> string \<Rightarrow> nvmesh" where
  "setTaskStatus cr action key value =
     (let m = actionsStatus cr;
          m = (if gomap_has m (act_Name action) then m else AList.update (act_Name action) [] m);
          actionStatus = (case map_of m (act_Name action) of None \<Rightarrow> [] | Some a \<Rightarrow> a)
      in setActionsStatus (AList.update (act_Name action) (AList.update key value actionStatus) m) cr)"

definition isTaskFinished :: "nvmesh \<Rightarrow> cluster_action \<Rightarrow> string \<Rightarrow> bool \<times> nvmesh" where
  "isTaskFinished cr action key =
     (case getTaskStatus cr action key of (status, cr) \<Rightarrow> (status = taskFinished, cr))"

definition setTaskStarted :: "nvmesh \<Rightarrow> cluster_action \<Rightarrow> string \<Rightarrow> nvmesh" where
  "setTaskStarted cr action key = setTaskStatus cr action key taskStarted"

definition setTaskFinished :: "nvmesh \<Rightarrow> cluster_action \<Rightarrow> string \<Rightarrow> nvmesh" where
  "setTaskFinished cr action key = setTaskStatus cr action key taskFinished"

definition setActionComplete :: "nvmesh \<Rightarrow> cluster_action \<Rightarrow> nvmesh" where
  "setActionComplete cr action = setTaskStatus cr action actionComplete taskFinished"

definition getActionArg :: "cluster_action \<Rightarrow> string \<Rightarrow> string \<times> bool" where
  "getActionArg action key =
     (case act_Args action of
        None \<Rightarrow> ('''', False)
      | Some args \<Rightarrow> (case map_of args key of None \<Rightarrow> ('''', False) | Some val \<Rightarrow> (val, True)))"

definition sanitizeString :: "string \<Rightarrow> string" where
  "sanitizeString s = go_replaceAll s ''.'' ''-''"

section \<open>The statuses as a function\<close>

definition taskStatus :: "cluster_action \<Rightarrow> nvmesh \<Rightarrow> string \<Rightarrow> string" where
  "taskStatus action cr key =
     (case map_of (actionsStatus cr) (act_Name action) of None \<Rightarrow> '''' | Some a \<Rightarrow> gomap_get a key)"

definition finished :: "cluster_action \<Rightarrow> nvmesh \<Rightarrow> string \<Rightarrow> bool" where
  "finished action cr key \<longleftrightarrow> taskStatus action cr key = taskFinished"

lemma actionsStatus_set [simp]: "actionsStatus (setActionsStatus m cr) = m"
  by (simp add: actionsStatus_def setActionsStatus_def)

lemma setActionsStatus_fields [simp]:
  "cr_Spec (setActionsStatus m cr) = cr_Spec cr" "cr_ObjectMeta (setActionsStatus m cr) = cr_ObjectMeta cr"
  "crName (setActionsStatus m cr) = crName cr" "crNamespace (setActionsStatus m cr) = crNamespace cr"
  "st_Conditions (cr_Status (setActionsStatus m cr)) = st_Conditions (cr_Status cr)"
  by (simp_all add: setActionsStatus_def crName_def crNamespace_def)

lemma getTaskStatus_fst: "fst (getTaskStatus cr action key) = taskStatus action cr key"
  by (simp add: getTaskStatus_def taskStatus_def Let_def split: option.splits)

lemma taskStatus_get [simp]: "taskStatus action (snd (getTaskStatus cr action' key)) = taskStatus action cr"
  by (auto simp: getTaskStatus_def taskStatus_def Let_def update_conv' fun_eq_iff split: option.splits)

lemma taskStatus_set:
  "taskStatus action (setTaskStatus cr action' key value) j =
     (if act_Name action = act_Name action' \<and> j = key then value else taskStatus action cr j)"
  by (auto simp: setTaskStatus_def taskStatus_def Let_def update_conv' gomap_has_def split: option.splits)

lemma isTaskFinished_simps [simp]:
  "fst (isTaskFinished cr action key) \<longleftrightarrow> finished action cr key"
  "finished action' (snd (isTaskFinished cr action key)) = finished action' cr"
  by (simp_all add: isTaskFinished_def finished_def getTaskStatus_fst case_prod_beta fun_eq_iff)

lemma finished_set:
  "finished action (setTaskStarted cr action' key) j \<longleftrightarrow>
     (if act_Name action = act_Name action' \<and> j = key then False else finished action cr j)"
  "finished action (setTaskFinished cr action' key) j \<longleftrightarrow>
     (act_Name action = act_Name action' \<and> j = key) \<or> finished action cr j"
  by (auto simp: finished_def setTaskStarted_def setTaskFinished_def taskStatus_set taskStarted_def taskFinished_def)

text \<open>What does not change: everything but the statuses.\<close>

definition sameButActions :: "nvmesh \<Rightarrow> nvmesh \<Rightarrow> bool" where
  "sameButActions cr cr' \<longleftrightarrow> cr_ObjectMeta cr' = cr_ObjectMeta cr \<and> cr_Spec cr' = cr_Spec cr \<and>
     st_Conditions (cr_Status cr') = st_Conditions (cr_Status cr)"

lemma sameButActions_refl [simp]: "sameButActions cr cr"
  by (simp add: sameButActions_def)

lemma sameButActions_trans: "sameButActions a b \<Longrightarrow> sameButActions b c \<Longrightarrow> sameButActions a c"
  by (simp add: sameButActions_def)

lemma sameButActions_ops [simp]:
  "sameButActions cr (snd (isTaskFinished cr action key))"
  "sameButActions cr (setTaskStarted cr action key)"
  "sameButActions cr (setTaskFinished cr action key)"
  "sameButActions cr (setActionComplete cr action)"
  by (simp_all add: sameButActions_def isTaskFinished_def getTaskStatus_def setTaskStarted_def setTaskFinished_def
      setActionComplete_def setTaskStatus_def Let_def split: option.splits)

section \<open>The contract of a store of task statuses\<close>

locale task_store =
  fixes fin :: "'c \<Rightarrow> string \<Rightarrow> bool"
    and touch :: "string \<Rightarrow> 'c \<Rightarrow> 'c"
    and start :: "string \<Rightarrow> 'c \<Rightarrow> 'c"
    and finish :: "string \<Rightarrow> 'c \<Rightarrow> 'c"
  assumes fin_touch [simp]: "fin (touch k c) j \<longleftrightarrow> fin c j"
    and fin_start [simp]: "fin (start k c) j \<longleftrightarrow> (if j = k then False else fin c j)"
    and fin_finish [simp]: "fin (finish k c) j \<longleftrightarrow> j = k \<or> fin c j"
begin

text \<open>The finished ones among \<open>names\<close> are the first \<open>n\<close>.\<close>

definition upTo :: "string list \<Rightarrow> nat \<Rightarrow> 'c \<Rightarrow> bool" where
  "upTo names n c \<longleftrightarrow> n \<le> length names \<and> (\<forall>i<length names. fin c (names ! i) \<longleftrightarrow> i < n)"

lemma upTo_touch: "upTo names n (touch k c) \<longleftrightarrow> upTo names n c"
  by (simp add: upTo_def)

lemma upTo_start:
  assumes "distinct names" "upTo names n c" "n < length names"
  shows "upTo names n (start (names ! n) c)"
  using assms by (auto simp: upTo_def nth_eq_iff_index_eq)

lemma upTo_finish:
  assumes "distinct names" "upTo names n c" "n < length names"
  shows "upTo names (Suc n) (finish (names ! n) c)"
  using assms by (auto simp: upTo_def nth_eq_iff_index_eq less_Suc_eq)

lemma upTo_fin: "upTo names n c \<Longrightarrow> i < length names \<Longrightarrow> fin c (names ! i) \<longleftrightarrow> i < n"
  by (simp add: upTo_def)

lemma upTo_unique:
  assumes "upTo names n c" "upTo names m c"
  shows "n = m"
proof (rule ccontr)
  assume "n \<noteq> m"
  then consider "n < m" | "m < n" by linarith
  then show False
  proof cases
    case 1
    then show ?thesis using assms unfolding upTo_def by (meson less_irrefl order_less_le_trans)
  next
    case 2
    then show ?thesis using assms unfolding upTo_def by (meson less_irrefl order_less_le_trans)
  qed
qed

end

interpretation tasks: task_store "finished action" "\<lambda>k cr. snd (isTaskFinished cr action k)"
    "\<lambda>k cr. setTaskStarted cr action k" "\<lambda>k cr. setTaskFinished cr action k"
  for action
  by unfold_locales (simp_all add: finished_set)

section \<open>Running tasks in order\<close>

text \<open>
  One task of an action: skipped when finished; else started, run, and finished when its run returns
  nothing. What it returns otherwise ends the action.
\<close>

definition runTask ::
  "cluster_action \<Rightarrow> string \<Rightarrow> (nvmesh \<Rightarrow> 'w st \<Rightarrow> ('r option \<times> 'w st) option) \<Rightarrow>
   (nvmesh \<Rightarrow> 'w st \<Rightarrow> (('r \<times> nvmesh) \<times> 'w st) option) \<Rightarrow> nvmesh \<Rightarrow> 'w st \<Rightarrow> (('r \<times> nvmesh) \<times> 'w st) option" where
  "runTask action key run rest cr s =
     (case isTaskFinished cr action key of (done', cr) \<Rightarrow>
        if done' then rest cr s
        else do {
          let cr = setTaskStarted cr action key;
          (early, s) \<leftarrow> run cr s;
          case early of
            Some r \<Rightarrow> Some ((r, cr), s)
          | None \<Rightarrow> rest (setTaskFinished cr action key) s
        })"

text \<open>The abstract state of an action: how many of its tasks, in their order, are finished.\<close>

definition tasksDone :: "cluster_action \<Rightarrow> string list \<Rightarrow> nat \<Rightarrow> nvmesh \<Rightarrow> bool" where
  "tasksDone action names n cr \<longleftrightarrow>
     n \<le> length names \<and> (\<forall>i<length names. finished action cr (names ! i) \<longleftrightarrow> i < n)"

lemma tasksDone_upTo: "tasksDone action names n cr \<longleftrightarrow> tasks.upTo action names n cr"
  by (simp add: tasksDone_def tasks.upTo_def)

text \<open>What is left of an action from its \<open>k\<close>-th task on only adds to the finished tasks, and ends with
  \<open>D\<close> when all of them are finished and with \<open>E\<close> when not.\<close>

definition progress ::
  "cluster_action \<Rightarrow> string list \<Rightarrow> ('r \<Rightarrow> bool) \<Rightarrow> ('r \<Rightarrow> bool) \<Rightarrow> nat \<Rightarrow>
   (nvmesh \<Rightarrow> 'w st \<Rightarrow> (('r \<times> nvmesh) \<times> 'w st) option) \<Rightarrow> bool" where
  "progress action names E D k rest \<longleftrightarrow>
     (\<forall>cr s n r cr' s'. tasksDone action names n cr \<longrightarrow> k \<le> n \<longrightarrow> rest cr s = Some ((r, cr'), s') \<longrightarrow>
        (\<exists>m\<ge>n. tasksDone action names m cr' \<and> cr_ObjectMeta cr' = cr_ObjectMeta cr \<and>
           st_Conditions (cr_Status cr') = st_Conditions (cr_Status cr) \<and>
           (if m = length names then D r else E r)))"

lemma progressI:
  assumes "\<And>cr s n r cr' s'. tasksDone action names n cr \<Longrightarrow> k \<le> n \<Longrightarrow> rest cr s = Some ((r, cr'), s') \<Longrightarrow>
    \<exists>m\<ge>n. tasksDone action names m cr' \<and> cr_ObjectMeta cr' = cr_ObjectMeta cr \<and>
      st_Conditions (cr_Status cr') = st_Conditions (cr_Status cr) \<and> (if m = length names then D r else E r)"
  shows "progress action names E D k rest"
  using assms unfolding progress_def by blast

lemma progressD:
  assumes "progress action names E D k rest" "tasksDone action names n cr" "k \<le> n" "rest cr s = Some ((r, cr'), s')"
  shows "\<exists>m\<ge>n. tasksDone action names m cr' \<and> cr_ObjectMeta cr' = cr_ObjectMeta cr \<and>
    st_Conditions (cr_Status cr') = st_Conditions (cr_Status cr) \<and> (if m = length names then D r else E r)"
  using assms unfolding progress_def by blast

text \<open>The two ways a task goes, for proofs that follow a run: it was finished, or it is the next one.\<close>

lemma runTask_tasksDone:
  assumes names: "distinct names" "k < length names" "key = names ! k"
    and n: "tasksDone action names n cr" "k \<le> n"
    and run: "runTask action key run rest cr s = Some ((r, cr'), s')"
  obtains (skipped) c where "k < n" "sameButActions cr c" "tasksDone action names n c" "rest c s = Some ((r, cr'), s')"
    | (stopped) c where "n = k" "sameButActions cr c" "tasksDone action names k c" "run c s = Some (Some r, s')" "cr' = c"
    | (ran) c t c' where "n = k" "sameButActions cr c" "run c s = Some (None, t)" "sameButActions cr c'"
        "tasksDone action names (Suc k) c'" "rest c' t = Some ((r, cr'), s')"
proof -
  let ?t = "snd (isTaskFinished cr action key)"
  have t: "tasksDone action names n ?t" and same: "sameButActions cr ?t"
    using n(1) by (simp_all add: tasksDone_upTo tasks.upTo_touch)
  show thesis
  proof (cases "finished action cr key")
    case True
    then have "k < n" using n(1) names by (simp add: tasksDone_def)
    moreover from run True have "rest ?t s = Some ((r, cr'), s')"
      by (simp add: runTask_def case_prod_beta)
    ultimately show thesis using skipped same t by blast
  next
    case False
    then have k: "n = k" using n names by (simp add: tasksDone_def)
    let ?u = "setTaskStarted ?t action key"
    have u: "tasksDone action names k ?u" and f: "tasksDone action names (Suc k) (setTaskFinished ?u action key)"
      using t names unfolding k tasksDone_upTo by (simp_all add: tasks.upTo_start tasks.upTo_finish)
    have su: "sameButActions cr ?u" and sf: "sameButActions cr (setTaskFinished ?u action key)"
      by (meson same sameButActions_ops sameButActions_trans)+
    from run False obtain e v where e: "run ?u s = Some (e, v)"
      and r: "(case e of Some r \<Rightarrow> Some ((r, ?u), v) | None \<Rightarrow> rest (setTaskFinished ?u action key) v) = Some ((r, cr'), s')"
      by (auto simp: runTask_def case_prod_beta bind_case_prod_Some Let_def)
    show thesis
    proof (cases e)
      case None
      have "run ?u s = Some (None, v)" using e None by (simp only:)
      moreover have "rest (setTaskFinished ?u action key) v = Some ((r, cr'), s')" using r None by (simp only: option.case)
      ultimately show thesis by (rule ran [OF k su _ sf f])
    next
      case (Some x)
      have "x = r \<and> cr' = ?u \<and> v = s'" using r Some by (simp only: option.case option.inject prod.inject)
      then show thesis using stopped [OF k su u] e Some by (simp only:)
    qed
  qed
qed

lemma progress_runTask:
  assumes names: "distinct names" "k < length names" "key = names ! k"
    and early: "\<And>cr s r s'. run cr s = Some (Some r, s') \<Longrightarrow> E r"
    and rest: "progress action names E D (Suc k) rest"
  shows "progress action names E D k (runTask action key run rest)"
proof (rule progressI)
  fix cr n r cr' s'
  fix s :: "'a st"
  assume n: "tasksDone action names n cr" "k \<le> n" and run: "runTask action key run rest cr s = Some ((r, cr'), s')"
  show "\<exists>m\<ge>n. tasksDone action names m cr' \<and> cr_ObjectMeta cr' = cr_ObjectMeta cr \<and>
      st_Conditions (cr_Status cr') = st_Conditions (cr_Status cr) \<and> (if m = length names then D r else E r)"
  proof (cases rule: runTask_tasksDone [OF names n run])
    case (1 c)
    then show ?thesis using progressD [OF rest 1(3) _ 1(4)] by (simp add: sameButActions_def Suc_le_eq)
  next
    case (2 c)
    then show ?thesis using early [OF 2(4)] names(2) by (intro exI [of _ k]) (simp add: sameButActions_def)
  next
    case (3 c t c')
    from progressD [OF rest 3(5) le_refl 3(6)] 3 obtain m where "Suc k \<le> m" "tasksDone action names m cr' \<and> cr_ObjectMeta cr' = cr_ObjectMeta cr \<and>
        st_Conditions (cr_Status cr') = st_Conditions (cr_Status cr) \<and> (if m = length names then D r else E r)"
      by (auto simp: sameButActions_def)
    with 3(1) show ?thesis by (intro exI [of _ m]) simp
  qed
qed

lemma progress_rules:
  "E r \<Longrightarrow> D r \<Longrightarrow> progress action names E D k (\<lambda>cr s. Some ((r, cr), s))"
  "(\<And>x. progress action names E D k (g x)) \<Longrightarrow> progress action names E D k (\<lambda>cr s. f cr s \<bind> (\<lambda>(x, s). g x cr s))"
  "(\<And>x. progress action names E D k (p x)) \<Longrightarrow> (\<And>x. progress action names E D k (q x)) \<Longrightarrow>
   progress action names E D k (\<lambda>cr s. case z of Inl x \<Rightarrow> p x cr s | Inr x \<Rightarrow> q x cr s)"
  subgoal unfolding progress_def by fastforce
  subgoal unfolding progress_def bind_case_prod_Some by blast
  subgoal by (cases z) simp_all
  done

lemma setActionComplete_done:
  assumes "actionComplete \<notin> set names"
  shows "tasksDone action names n (setActionComplete cr action) \<longleftrightarrow> tasksDone action names n cr"
proof -
  have "finished action (setActionComplete cr action) (names ! i) = finished action cr (names ! i)" if "i < length names" for i
  proof -
    have "names ! i \<noteq> actionComplete" using assms that by (metis nth_mem)
    then show ?thesis by (simp add: setActionComplete_def finished_def taskStatus_set)
  qed
  then show ?thesis by (simp add: tasksDone_def)
qed

lemma progress_complete:
  assumes "actionComplete \<notin> set names" and "D r" and "k = length names"
  shows "progress action names E D k (\<lambda>cr s. Some ((r, setActionComplete cr action), s))"
proof (rule progressI)
  fix cr s n x cr' s'
  assume n: "tasksDone action names n cr" "k \<le> n" and run: "Some ((r, setActionComplete cr action), s) = Some ((x, cr'), s')"
  have "tasksDone action names n (setActionComplete cr action)" using assms(1) n(1) by (simp add: setActionComplete_done)
  moreover have "n = length names" using n assms(3) by (simp add: tasksDone_def)
  moreover have "sameButActions cr (setActionComplete cr action)" by simp
  ultimately show "\<exists>m\<ge>n. tasksDone action names m cr' \<and> cr_ObjectMeta cr' = cr_ObjectMeta cr \<and>
      st_Conditions (cr_Status cr') = st_Conditions (cr_Status cr) \<and> (if m = length names then D x else E x)"
    using run assms(2) by (intro exI [of _ n]) (simp add: sameButActions_def)
qed

lemma steps_runTask:
  assumes "preord R" "\<And>cr. steps R (run cr)" "\<And>cr. steps R (rest cr)"
  shows "steps R (runTask action key run rest cr)"
  unfolding runTask_def by (intro steps_intro assms)

text \<open>A finished task is not run again.\<close>

lemma runTask_finished:
  "finished action cr key \<Longrightarrow> runTask action key run rest cr = rest (snd (isTaskFinished cr action key))"
  by (rule ext) (simp add: runTask_def case_prod_beta)

section \<open>The statuses stay maps\<close>

text \<open>The map of the actions and the map of each action have distinct keys, as Go's maps have.\<close>

definition statusOk :: "nvmesh \<Rightarrow> bool" where
  "statusOk cr \<longleftrightarrow> gomap_ok (actionsStatus cr) \<and> list_all (\<lambda>(_, m). gomap_ok m) (actionsStatus cr)"

lemma list_all_update:
  "list_all (\<lambda>(_, m). P m) al \<Longrightarrow> P v \<Longrightarrow> list_all (\<lambda>(_, m). P m) (AList.update k v al)"
  by (induction al) auto

lemma status_map_of: "list_all (\<lambda>(_, m). P m) al \<Longrightarrow> map_of al k = Some v \<Longrightarrow> P v"
  by (auto simp: list_all_iff dest: map_of_SomeD)

lemma statusOk_set:
  "gomap_ok m \<Longrightarrow> list_all (\<lambda>(_, m). gomap_ok m) m \<Longrightarrow> statusOk (setActionsStatus m cr)"
  by (simp add: statusOk_def)

lemma statusOk_setTaskStatus:
  assumes "statusOk cr"
  shows "statusOk (setTaskStatus cr action key value)"
proof -
  let ?n = "act_Name action"
  let ?m = "if gomap_has (actionsStatus cr) ?n then actionsStatus cr else AList.update ?n [] (actionsStatus cr)"
  have m: "gomap_ok ?m" "list_all (\<lambda>(_, m). gomap_ok m) ?m"
    using assms by (simp_all add: statusOk_def list_all_update)
  have "gomap_ok (case map_of ?m ?n of None \<Rightarrow> [] | Some a \<Rightarrow> a)"
    using status_map_of [OF m(2)] by (simp split: option.split)
  with m show ?thesis
    unfolding setTaskStatus_def Let_def by (intro statusOk_set list_all_update gomap_ok_update) simp_all
qed

lemma statusOk_ops [simp]:
  assumes "statusOk cr"
  shows "statusOk (snd (isTaskFinished cr action key))" "statusOk (setTaskStarted cr action key)"
    "statusOk (setTaskFinished cr action key)" "statusOk (setActionComplete cr action)"
proof -
  have "statusOk (snd (getTaskStatus cr action key))"
    using assms by (auto simp: getTaskStatus_def Let_def statusOk_def list_all_update split: option.splits)
  then show "statusOk (snd (isTaskFinished cr action key))" by (simp add: isTaskFinished_def case_prod_beta)
qed (simp_all add: assms setTaskStarted_def setTaskFinished_def setActionComplete_def statusOk_setTaskStatus)

definition keepsStatusOk :: "(nvmesh \<Rightarrow> 'w st \<Rightarrow> (('r \<times> nvmesh) \<times> 'w st) option) \<Rightarrow> bool" where
  "keepsStatusOk f \<longleftrightarrow> (\<forall>cr s r cr' s'. statusOk cr \<longrightarrow> f cr s = Some ((r, cr'), s') \<longrightarrow> statusOk cr')"

lemma keepsStatusOkD: "keepsStatusOk f \<Longrightarrow> statusOk cr \<Longrightarrow> f cr s = Some ((r, cr'), s') \<Longrightarrow> statusOk cr'"
  unfolding keepsStatusOk_def by blast

lemma keepsStatusOk_rules:
  "keepsStatusOk (\<lambda>cr s. Some ((r, cr), s))"
  "(\<And>x. keepsStatusOk (g x)) \<Longrightarrow> keepsStatusOk (\<lambda>cr s. f cr s \<bind> (\<lambda>(x, s). g x cr s))"
  "(\<And>x. keepsStatusOk (p x)) \<Longrightarrow> (\<And>x. keepsStatusOk (q x)) \<Longrightarrow>
   keepsStatusOk (\<lambda>cr s. case z of Inl x \<Rightarrow> p x cr s | Inr x \<Rightarrow> q x cr s)"
  subgoal by (simp add: keepsStatusOk_def)
  subgoal unfolding keepsStatusOk_def bind_case_prod_Some by blast
  subgoal by (cases z) simp_all
  done

lemma keepsStatusOk_runTask:
  assumes "keepsStatusOk rest"
  shows "keepsStatusOk (runTask action key run rest)"
proof -
  have "statusOk cr'" if "statusOk cr" and run: "runTask action key run rest cr s = Some ((r, cr'), s')" for cr s r cr' s'
  proof (cases "finished action cr key")
    case True
    with run have "rest (snd (isTaskFinished cr action key)) s = Some ((r, cr'), s')"
      by (simp add: runTask_def case_prod_beta)
    then show ?thesis by (rule keepsStatusOkD [OF assms, rotated]) (simp add: that(1))
  next
    case False
    let ?c = "setTaskStarted (snd (isTaskFinished cr action key)) action key"
    from run False obtain e t where "(case e of Some r \<Rightarrow> Some ((r, ?c), t) | None \<Rightarrow> rest (setTaskFinished ?c action key) t) = Some ((r, cr'), s')"
      by (auto simp: runTask_def case_prod_beta bind_case_prod_Some Let_def)
    with that(1) show ?thesis by (cases e) (auto elim: keepsStatusOkD [OF assms, rotated])
  qed
  then show ?thesis unfolding keepsStatusOk_def by blast
qed

end
