(* ===== verification/Validation.thy ===== *)
theory Validation
  imports ComponentLoop
begin

text \<open>
  pkg/controllers/validation.go: the check of the custom resource the API server's own schema
  cannot make, and the two look-ups of the registry secrets that the job monitor prints.
\<close>

definition validationError :: "nvmesh \<Rightarrow> string \<Rightarrow> string \<Rightarrow> goerr" where
  "validationError cr errorMessage additionlaDetails =
     ErrorString (''Validation failed for NVMesh '' @ crName cr @ ''. '' @ errorMessage @ '' '' @ additionlaDetails)"

definition isValid :: "nvmesh \<Rightarrow> goerr option" where
  "isValid cr =
     (if mongo_External (mgmt_MongoDB (mgmt cr)) \<and> mongo_Address (mgmt_MongoDB (mgmt cr)) = ''''
      then Some (validationError cr
        ''Missing MongoDB address for externally deployed MongoDB cluster.''
        ''spec.management.mongoDB.external=true but spec.management.mongoDB.address is not specified. When MongoDB is deployed manually the mongoConnection address must be specified in MongoDB.Address. i.e: \"mongo-svc.default.svc.cluster.local:27017\".'')
      else None)"

text \<open>The key names the registry secret, whatever secret was asked for.\<close>

definition verifySecretExists :: "'w kube \<Rightarrow> string \<Rightarrow> string \<Rightarrow> 'w st \<Rightarrow> (goerr option \<times> 'w st) option" where
  "verifySecretExists env secretName ns s = do {
     (r, s) \<leftarrow> clientGet env ''Secret'' ns exceleroRegistrySecretName s;
     Some (case r of Inl err \<Rightarrow> Some err | Inr _ \<Rightarrow> None, s)
   }"

definition verifyNVMeshSecretsExist :: "'w kube \<Rightarrow> string \<Rightarrow> 'w st \<Rightarrow> (unit \<times> 'w st) option" where
  "verifyNVMeshSecretsExist env namespace s = do {
     (_, s) \<leftarrow> verifySecretExists env exceleroRegistrySecretName namespace s;
     (_, s) \<leftarrow> verifySecretExists env fileServerSecretName namespace s;
     Some ((), s)
   }"

lemma steps_verifyNVMeshSecretsExist [steps_intro]:
  "preord R \<Longrightarrow> allowsReads env R \<Longrightarrow> steps R (verifyNVMeshSecretsExist env ns)"
  unfolding verifyNVMeshSecretsExist_def verifySecretExists_def
  by (intro steps_intro allowsReadsD)

end
