(* ===== verification/Jobs.thy ===== *)
theory Jobs
  imports Validation MemKube
begin

text \<open>
  pkg/controllers/jobs.go: the Kubernetes jobs the operator runs on the nodes. How one is built,
  when it counts as finished, and how it is deleted together with its pods.
\<close>

section \<open>fmt.Errorf with a format and no arguments\<close>

text \<open>
  A verb without an argument prints as \<open>%!v(MISSING)\<close>. Formats with \<open>*\<close> or an argument
  index, which Kubernetes' messages do not hold, are not told apart.
\<close>

definition afterFlags :: "string \<Rightarrow> string" where
  "afterFlags t =
     (let digit = (\<lambda>c. CHR ''0'' \<le> c \<and> c \<le> CHR ''9'');
          t = dropWhile digit (dropWhile (\<lambda>c. c \<in> set ''#0+- '') t)
      in case t of [] \<Rightarrow> [] | c # cs \<Rightarrow> if c = CHR ''.'' then dropWhile digit cs else c # cs)"

lemma afterFlags_length: "length (afterFlags t) \<le> length t"
proof -
  obtain u where u: "dropWhile (\<lambda>c. CHR ''0'' \<le> c \<and> c \<le> CHR ''9'') (dropWhile (\<lambda>c. c \<in> set ''#0+- '') t) = u"
    by blast
  have "length u \<le> length t"
    unfolding u [symmetric] by (rule order_trans [OF length_dropWhile_le length_dropWhile_le])
  then show ?thesis
    unfolding afterFlags_def Let_def u
    by (cases u) (auto intro: order_trans [OF length_dropWhile_le])
qed

function errorfNoArgs :: "string \<Rightarrow> string" where
  "errorfNoArgs [] = []"
| "errorfNoArgs (c # cs) =
     (if c \<noteq> CHR ''%'' then c # errorfNoArgs cs
      else (case afterFlags cs of
          [] \<Rightarrow> ''%!(NOVERB)''
        | v # rest \<Rightarrow> if v = CHR ''%'' then CHR ''%'' # errorfNoArgs rest
            else ''%!'' @ v # ''(MISSING)'' @ errorfNoArgs rest))"
  by pat_completeness auto
termination
proof (relation "measure length")
  show "wf (measure length)" by simp
next
  fix c :: char and cs :: string
  show "(cs, c # cs) \<in> measure length" by simp
next
  fix c v :: char and cs rest :: string
  assume "afterFlags cs = v # rest"
  then show "(rest, c # cs) \<in> measure length" using afterFlags_length [of cs] by simp
next
  fix c v :: char and cs rest :: string
  assume "afterFlags cs = v # rest"
  then show "(rest, c # cs) \<in> measure length" using afterFlags_length [of cs] by simp
qed

lemma errorfNoArgs_plain: "CHR ''%'' \<notin> set t \<Longrightarrow> errorfNoArgs t = t"
  by (induction t) auto

section \<open>Whether a job is finished\<close>

text \<open>A nil \<open>Completions\<close> is dereferenced in the second test only.\<close>

definition isSingleJobCompleted :: "job \<Rightarrow> (bool \<times> goerr option) option" where
  "isSingleJobCompleted job = (let st = j_status job in
     if sint (js_failed st) > 0 then Some (True, Some (ErrorString (''Job '' @ om_name (j_meta job) @ '' failed'')))
     else do {
       completions \<leftarrow> j_completions job;
       if js_succeeded st = completions then Some (True, None)
       else if sint (js_active st) > 0 then Some (False, None)
       else (case js_conditions st of
           [] \<Rightarrow> Some (False, None)
         | c # _ \<Rightarrow> if jc_type c = ''Failed'' then Some (True, Some (ErrorString (errorfNoArgs (jc_message c))))
             else Some (False, None))
     })"

definition getJobPods :: "'w kube \<Rightarrow> string \<Rightarrow> string \<Rightarrow> 'w st \<Rightarrow> ((goerr option \<times> pod list) \<times> 'w st) option" where
  "getJobPods env namespace jobName = clientListPods env (PodsMatching [(''job-name'', jobName)])"

text \<open>\<open>printJob\<close> and \<open>getJobAsJSON\<close>: the request they make; the JSON goes to the log.\<close>

definition printJob :: "'w kube \<Rightarrow> string \<Rightarrow> string \<Rightarrow> 'w st \<Rightarrow> (unit \<times> 'w st) option" where
  "printJob env jobName namespace s = do {
     (_, s) \<leftarrow> clientGet env ''Job'' namespace jobName s;
     Some ((), s)
   }"

definition monitorJob :: "'w kube \<Rightarrow> string \<Rightarrow> string \<Rightarrow> bool \<Rightarrow> 'w st \<Rightarrow> (unit \<times> 'w st) option" where
  "monitorJob env jobName namespace debugJobs s = do {
     (_, s) \<leftarrow> getJobPods env namespace jobName s;
     if debugJobs then do {
       (_, s) \<leftarrow> printJob env jobName namespace s;
       (_, s) \<leftarrow> printAllPodsStatuses env namespace s;
       verifyNVMeshSecretsExist env namespace s
     }
     else Some ((), s)
   }"

text \<open>The client decodes into the \<open>Job\<close> it is given; another kind cannot come back.\<close>

definition waitForJobToFinishWithoutCR ::
  "'w kube \<Rightarrow> string \<Rightarrow> string \<Rightarrow> bool \<Rightarrow> 'w st \<Rightarrow> ((ctrl_result \<times> goerr option) \<times> 'w st) option" where
  "waitForJobToFinishWithoutCR env namespace jobName debugJobs s = do {
     (r, s) \<leftarrow> clientGet env ''Job'' namespace jobName s;
     case r of
       Inl err \<Rightarrow> Some ((DoNotRequeue, Some err), s)
     | Inr obj \<Rightarrow> (case obj of
           Job job \<Rightarrow> do {
             (completed, err) \<leftarrow> isSingleJobCompleted job;
             if err \<noteq> None then Some ((DoNotRequeue, err), s)
             else if \<not> completed then do {
               (_, s) \<leftarrow> monitorJob env jobName namespace debugJobs s;
               Some ((RequeueIn second, None), s)
             }
             else Some ((DoNotRequeue, None), s)
           }
         | _ \<Rightarrow> None)
   }"

definition waitForJobToFinish ::
  "'w kube \<Rightarrow> nvmesh \<Rightarrow> string \<Rightarrow> 'w st \<Rightarrow> ((ctrl_result \<times> goerr option) \<times> 'w st) option" where
  "waitForJobToFinish env cr jobName = waitForJobToFinishWithoutCR env (crNamespace cr) jobName (dbg_DebugJobs (debug cr))"

section \<open>Deleting a job\<close>

definition zeroJobStatus :: job_status where
  "zeroJobStatus = \<lparr>js_failed = 0, js_succeeded = 0, js_active = 0, js_conditions = []\<rparr>"

definition jobNamed :: "string \<Rightarrow> string \<Rightarrow> job" where
  "jobNamed namespace name = \<lparr>j_meta = newMeta name namespace, j_backoffLimit = None, j_completions = None,
     j_selector = None, j_template = emptyTemplate, j_status = zeroJobStatus\<rparr>"

fun deletePods :: "'w kube \<Rightarrow> pod list \<Rightarrow> 'w st \<Rightarrow> (goerr option \<times> 'w st) option" where
  "deletePods env [] s = Some (None, s)"
| "deletePods env (p # pods) s = do {
     (err, s) \<leftarrow> clientDelete env (Pod p) s;
     case err of
       Some e \<Rightarrow> if \<not> isNotFound e then Some (Some (WrappedError (''Failed to delete pod '' @ om_name (pod_meta p)) e), s)
         else deletePods env pods s
     | None \<Rightarrow> deletePods env pods s
   }"

definition wrapIfReal :: "string \<Rightarrow> goerr option \<Rightarrow> goerr option" where
  "wrapIfReal text err = (case err of None \<Rightarrow> None | Some e \<Rightarrow> if isNotFound e then None else Some (WrappedError text e))"

definition deleteJob :: "'w kube \<Rightarrow> string \<Rightarrow> string \<Rightarrow> 'w st \<Rightarrow> (goerr option \<times> 'w st) option" where
  "deleteJob env namespace jobName s = do {
     (err, s) \<leftarrow> clientDelete env (Job (jobNamed namespace jobName)) s;
     case wrapIfReal (''Failed to delete job '' @ jobName) err of
       Some e \<Rightarrow> Some (Some e, s)
     | None \<Rightarrow> do {
         ((err, pods), s) \<leftarrow> getJobPods env namespace jobName s;
         case wrapIfReal (''Failed to find pods from job '' @ jobName @ '' for deletion'') err of
           Some e \<Rightarrow> Some (Some e, s)
         | None \<Rightarrow> deletePods env pods s
       }
   }"

section \<open>Building a job\<close>

definition matchNode :: "string \<Rightarrow> labels" where
  "matchNode nodeName = [(''kubernetes.io/hostname'', nodeName)]"

definition registryCredSecretName :: string where
  "registryCredSecretName = ''excelero-registry-cred''"

definition newContainer :: "string \<Rightarrow> string \<Rightarrow> pull_policy \<Rightarrow> container" where
  "newContainer name img policy = \<lparr>c_name = name, c_image = img, c_imagePullPolicy = policy, c_env = [],
     c_command = [], c_args = [], c_volumeMounts = [], c_securityContext = None\<rparr>"

definition getNewJob :: "nvmesh \<Rightarrow> string \<Rightarrow> string \<Rightarrow> job" where
  "getNewJob cr jobName img =
     (let labels = AList.update ''job-name'' jobName (getOperatorLabels cr)
      in \<lparr>j_meta = (newMeta jobName (crNamespace cr))\<lparr>om_labels := Some labels\<rparr>,
          j_backoffLimit = Some 3, j_completions = Some 1, j_selector = None,
          j_template = \<lparr>pt_labels = Some labels, pt_annotations = None,
            pt_spec = emptyPodSpec\<lparr>
              ps_serviceAccountName := getClusterServiceAccountName cr,
              ps_imagePullSecrets := [registryCredSecretName],
              ps_restartPolicy := ''OnFailure'',
              ps_containers := [newContainer jobName img (getImagePullPolicy cr)]\<rparr>\<rparr>,
          j_status = zeroJobStatus\<rparr>)"

text \<open>Appends the volume to the pod and the mount to one container.\<close>

definition mountVolume :: "volume \<Rightarrow> string \<Rightarrow> nat \<Rightarrow> pod_spec \<Rightarrow> pod_spec option" where
  "mountVolume vol path containerIndex podSpec = do {
     let mount = \<lparr>vm_name = vol_name vol, vm_path = path\<rparr>;
     containers \<leftarrow> upd_nth containerIndex (\<lambda>c. c\<lparr>c_volumeMounts := c_volumeMounts c @ [mount]\<rparr>) (ps_containers podSpec);
     Some (podSpec\<lparr>ps_volumes := ps_volumes podSpec @ [vol], ps_containers := containers\<rparr>)
   }"

text \<open>\<open>path[1:]\<close> panics on the empty path.\<close>

definition addHostPathMount :: "nat \<Rightarrow> string \<Rightarrow> pod_spec \<Rightarrow> pod_spec option" where
  "addHostPathMount containerIndex path podSpec =
     (case path of
        [] \<Rightarrow> None
      | _ # p \<Rightarrow> mountVolume \<lparr>vol_name = go_toLower (go_replaceAll p ''/'' ''-''), vol_source = HostPath path\<rparr>
          path containerIndex podSpec)"

definition addConfigMapMount :: "nat \<Rightarrow> string \<Rightarrow> string \<Rightarrow> pod_spec \<Rightarrow> pod_spec option" where
  "addConfigMapMount containerIndex configMapName path podSpec =
     mountVolume \<lparr>vol_name = ''config-map-vol-'' @ configMapName, vol_source = ConfigMapVolume configMapName\<rparr>
       path containerIndex podSpec"

section \<open>Lemmas\<close>

lemma steps_monitorJob [steps_intro]:
  assumes "preord R" "allowsReads env R"
  shows "steps R (monitorJob env jobName namespace debugJobs)"
  unfolding monitorJob_def getJobPods_def printJob_def printAllPodsStatuses_def
  by (intro steps_intro assms allowsReadsD [OF assms(2)])

lemma steps_case_kobj_Job:
  "(\<And>j. x = Job j \<Longrightarrow> steps R (f j)) \<Longrightarrow> steps R (\<lambda>s. case x of Job j \<Rightarrow> f j s | _ \<Rightarrow> None)"
  by (cases x) (auto simp: steps_def)

lemma steps_waitForJobToFinish [steps_intro]:
  assumes "preord R" "allowsReads env R"
  shows "steps R (waitForJobToFinish env cr jobName)"
    and "steps R (waitForJobToFinishWithoutCR env namespace jobName debugJobs)"
proof -
  show "steps R (waitForJobToFinishWithoutCR env namespace jobName debugJobs)" for namespace debugJobs
    unfolding waitForJobToFinishWithoutCR_def
    by (intro steps_intro steps_case_kobj_Job assms allowsReadsD [OF assms(2)])
  then show "steps R (waitForJobToFinish env cr jobName)"
    unfolding waitForJobToFinish_def .
qed

text \<open>What a pod deletion loop asks for, and when it stops.\<close>

lemma deletePods_requests:
  "deletePods env pods s = Some (err, s') \<Longrightarrow>
   \<exists>n\<le>length pods. reqs s' = reqs s @ map (\<lambda>p. ReqDelete (Pod p)) (take n pods) \<and> (err = None \<longrightarrow> n = length pods) \<and>
     (\<forall>e. err = Some e \<longrightarrow> \<not> isNotFound e)"
proof (induction pods arbitrary: s)
  case Nil
  then show ?case by simp
next
  case (Cons p pods)
  then obtain e t where d: "clientDelete env (Pod p) s = Some (e, t)"
    and rest: "(case e of Some e \<Rightarrow> if \<not> isNotFound e then Some (Some (WrappedError (''Failed to delete pod '' @ om_name (pod_meta p)) e), t)
         else deletePods env pods t | None \<Rightarrow> deletePods env pods t) = Some (err, s')"
    by (auto simp: bind_case_prod_Some)
  from d have t: "reqs t = reqs s @ [ReqDelete (Pod p)]"
    by (auto simp: clientDelete_def apiCall_def split: prod.splits)
  show ?case
  proof (cases "deletePods env pods t = Some (err, s')")
    case True
    from Cons.IH [OF this] obtain n where "n \<le> length pods" "err = None \<longrightarrow> n = length pods"
      "\<forall>e. err = Some e \<longrightarrow> \<not> isNotFound e" "reqs s' = reqs t @ map (\<lambda>p. ReqDelete (Pod p)) (take n pods)" by blast
    with t show ?thesis by (intro exI [of _ "Suc n"]) simp
  next
    case False
    with rest have "err \<noteq> None" "s' = t" "\<forall>e. err = Some e \<longrightarrow> \<not> isNotFound e"
      by (auto split: option.splits if_splits)
    with t show ?thesis by (intro exI [of _ 1]) auto
  qed
qed

lemma wrapIfReal_simps [simp]:
  "wrapIfReal t None = None"
  "wrapIfReal t (Some e) = (if isNotFound e then None else Some (WrappedError t e))"
  by (simp_all add: wrapIfReal_def)

definition allowsDeletes :: "'w kube \<Rightarrow> ('w st \<Rightarrow> 'w st \<Rightarrow> bool) \<Rightarrow> bool" where
  "allowsDeletes env R \<longleftrightarrow> (\<forall>x. steps R (clientDelete env x))"

lemma allowsDeletesD: "allowsDeletes env R \<Longrightarrow> steps R (clientDelete env x)"
  by (simp add: allowsDeletes_def)

lemma allowsDeletes_grows [simp]: "(\<And>q. isDelete q \<Longrightarrow> P q) \<Longrightarrow> allowsDeletes env (grows P)"
  by (auto simp: allowsDeletes_def intro: emits_client)

lemma allowsDeletes_imp: "allowsDeletes env R \<Longrightarrow> allowsDeletesIn env ns R"
  by (simp add: allowsDeletes_def allowsDeletesIn_def)

lemma steps_deletePods:
  assumes "preord R" "allowsDeletes env R"
  shows "steps R (deletePods env pods)"
proof (induction pods)
  case Nil
  show ?case unfolding deletePods.simps by (intro steps_intro assms)
next
  case (Cons p pods)
  show ?case unfolding deletePods.simps by (intro steps_intro assms allowsDeletesD [OF assms(2)] Cons)
qed

lemma steps_deleteJob [steps_intro]:
  assumes "preord R" "allowsReads env R" "allowsDeletes env R"
  shows "steps R (deleteJob env namespace jobName)"
  unfolding deleteJob_def getJobPods_def
  by (intro steps_intro assms steps_deletePods allowsReadsD [OF assms(2)] allowsDeletesD [OF assms(3)])

section \<open>Properties\<close>



text \<open>C32: Deleting a job deletes the job, lists its pods and deletes them in the order listed; when
  it reports success it has asked for the deletion of every one of them, and the error it reports
  otherwise is never that something was already gone.\<close>

theorem deleteJob_requests:
  assumes "deleteJob env namespace jobName s = Some (err, s')"
  shows "\<exists>rest. reqs s' = reqs s @ ReqDelete (Job (jobNamed namespace jobName)) # rest \<and>
    (rest = [] \<or> (\<exists>n pods. n \<le> length pods \<and> rest = ReqList ''Pod'' # map (\<lambda>p. ReqDelete (Pod p)) (take n pods) \<and>
        pods = snd (fst (kListPods env (PodsMatching [(''job-name'', jobName)])
          (snd (kDelete env (Job (jobNamed namespace jobName)) (world s))))) \<and>
        (err = None \<longrightarrow> n = length pods))) \<and>
    (err = None \<longrightarrow> rest \<noteq> []) \<and> (\<forall>e. err = Some e \<longrightarrow> \<not> isNotFound e)"
proof -
  let ?d = "ReqDelete (Job (jobNamed namespace jobName))"
  obtain e1 v where k: "kDelete env (Job (jobNamed namespace jobName)) (world s) = (e1, v)" by (metis surj_pair)
  let ?t = "s\<lparr>world := v, reqs := reqs s @ [?d]\<rparr>"
  from k have d: "clientDelete env (Job (jobNamed namespace jobName)) s = Some (e1, ?t)"
    by (simp add: clientDelete_def apiCall_def)
  obtain e2 pods w where l: "kListPods env (PodsMatching [(''job-name'', jobName)]) v = ((e2, pods), w)"
    by (metis surj_pair)
  let ?u = "?t\<lparr>world := w, reqs := reqs ?t @ [ReqList ''Pod'']\<rparr>"
  have lp: "getJobPods env namespace jobName ?t = Some ((e2, pods), ?u)"
    using l by (simp add: getJobPods_def clientListPods_def apiCall_def)
  have pods: "pods = snd (fst (kListPods env (PodsMatching [(''job-name'', jobName)])
          (snd (kDelete env (Job (jobNamed namespace jobName)) (world s)))))"
    using k l by simp
  consider (failed) e where "wrapIfReal (''Failed to delete job '' @ jobName) e1 = Some e"
    | (unlisted) e where "wrapIfReal (''Failed to delete job '' @ jobName) e1 = None"
        "wrapIfReal (''Failed to find pods from job '' @ jobName @ '' for deletion'') e2 = Some e"
    | (listed) "wrapIfReal (''Failed to delete job '' @ jobName) e1 = None"
        "wrapIfReal (''Failed to find pods from job '' @ jobName @ '' for deletion'') e2 = None"
    by (meson not_None_eq)
  then show ?thesis
  proof cases
    case (failed e)
    with assms d have "s' = ?t" "err = Some e" by (auto simp: deleteJob_def)
    with failed show ?thesis
      by (intro exI [of _ "[]"]) (auto simp: wrapIfReal_def split: option.splits if_splits)
  next
    case (unlisted e)
    with assms d lp have "s' = ?u" "err = Some e" by (auto simp: deleteJob_def)
    with unlisted pods show ?thesis
      by (intro exI [of _ "[ReqList ''Pod'']"]) (auto simp: wrapIfReal_def split: option.splits if_splits)
  next
    case listed
    with assms d lp have "deletePods env pods ?u = Some (err, s')" by (simp add: deleteJob_def)
    from deletePods_requests [OF this] obtain n where n: "n \<le> length pods" "err = None \<longrightarrow> n = length pods"
      "\<forall>e. err = Some e \<longrightarrow> \<not> isNotFound e"
      "reqs s' = reqs ?u @ map (\<lambda>p. ReqDelete (Pod p)) (take n pods)" by blast
    show ?thesis
      by (intro exI [of _ "ReqList ''Pod'' # map (\<lambda>p. ReqDelete (Pod p)) (take n pods)"] conjI disjI2 exI [of _ n] exI [of _ pods])
        (use n pods in auto)
  qed
qed

theorem deleteJob_requests_witness:
  "\<exists>s'. deleteJob plainKube ''ns'' ''j'' (memState emptyMem) = Some (None, s') \<and>
     reqs s' = [ReqDelete (Job (jobNamed ''ns'' ''j'')), ReqList ''Pod'']"
proof -
  obtain s' where r: "deleteJob plainKube ''ns'' ''j'' (memState emptyMem) = Some (None, s')"
    by (simp add: plainKube_def deleteJob_def clientDelete_def apiCall_def memDelete_def memHas_def memState_def emptyMem_def
        getJobPods_def clientListPods_def)
  from deleteJob_requests [OF this] have "reqs s' = [ReqDelete (Job (jobNamed ''ns'' ''j'')), ReqList ''Pod'']"
    by (auto simp: plainKube_def memState_def emptyMem_def memDelete_def memHas_def)
  with r show ?thesis by blast
qed

end
