(* ===== verification/ClusterNodes.thy ===== *)
theory ClusterNodes
  imports Jobs StatusUpdater "HOL-Library.Multiset"
begin

text \<open>
  The part of pkg/controllers/uninstall.go and collect_logs.go that finds the nodes of the cluster and
  shapes the jobs run on them. A \<open>map[string]Node\<close> is an association list; turning it into a slice
  ranges over it in the order \<open>mapOrder\<close> chooses.
\<close>

definition nodeName :: "node \<Rightarrow> string" where
  "nodeName n = om_name (node_meta n)"

definition getNodesWithLabel ::
  "'w kube \<Rightarrow> string \<Rightarrow> string \<Rightarrow> 'w st \<Rightarrow> ((goerr option \<times> node list) \<times> 'w st) option" where
  "getNodesWithLabel env key value s = do {
     ((err, nodes), s) \<leftarrow> clientListNodes env [(key, value)] s;
     case err of
       Some e \<Rightarrow> if isNotFound e then Some ((None, nodes), s) else Some ((Some e, nodes), s)
     | None \<Rightarrow> Some ((None, nodes), s)
   }"

definition getAllMgmtLabelledNodes :: "'w kube \<Rightarrow> 'w st \<Rightarrow> ((goerr + node list) \<times> 'w st) option" where
  "getAllMgmtLabelledNodes env s = do {
     ((err, nodes), s) \<leftarrow> getNodesWithLabel env nvmeshMgmtLabelKey '''' s;
     Some (case err of Some e \<Rightarrow> Inl e | None \<Rightarrow> Inr nodes, s)
   }"

type_synonym node_set = "(string, node) gomap"

fun addNodes :: "node list \<Rightarrow> node_set \<Rightarrow> node_set" where
  "addNodes [] nodesSet = nodesSet"
| "addNodes (c # cs) nodesSet = addNodes cs (AList.update (nodeName c) c nodesSet)"

fun addNewNodes :: "node list \<Rightarrow> node_set \<Rightarrow> node_set" where
  "addNewNodes [] nodesSet = nodesSet"
| "addNewNodes (t # ts) nodesSet =
     addNewNodes ts (if gomap_has nodesSet (nodeName t) then nodesSet else AList.update (nodeName t) t nodesSet)"

definition getAllNVMeshClusterNodes :: "'w kube \<Rightarrow> 'w st \<Rightarrow> ((goerr + node_set) \<times> 'w st) option" where
  "getAllNVMeshClusterNodes env s = do {
     ((err, clients), s) \<leftarrow> getNodesWithLabel env nvmeshClientLabelKey '''' s;
     case err of
       Some e \<Rightarrow> Some (Inl e, s)
     | None \<Rightarrow> do {
         ((err, targets), s) \<leftarrow> getNodesWithLabel env nvmeshTargetLabelKey '''' s;
         case err of
           Some e \<Rightarrow> Some (Inl e, s)
         | None \<Rightarrow> Some (Inr (addNewNodes targets (addNodes clients [])), s)
       }
   }"

definition nodeSetToList :: "'w kube \<Rightarrow> node_set \<Rightarrow> 'w st \<Rightarrow> (node list \<times> 'w st) option" where
  "nodeSetToList env nodeSet s = do {
     (entries, s) \<leftarrow> localCall (mapOrder env nodeSet) s;
     Some (map snd entries, s)
   }"

section \<open>Shaping a job\<close>

definition setContainerAsPrivileged :: "container \<Rightarrow> container" where
  "setContainerAsPrivileged c = c\<lparr>c_securityContext := Some (Some True)\<rparr>"

definition onPodSpec :: "(pod_spec \<Rightarrow> pod_spec option) \<Rightarrow> job \<Rightarrow> job option" where
  "onPodSpec f j = do {
     ps \<leftarrow> f (pt_spec (j_template j));
     Some (j\<lparr>j_template := (j_template j)\<lparr>pt_spec := ps\<rparr>\<rparr>)
   }"

definition onContainer0 :: "(container \<Rightarrow> container) \<Rightarrow> pod_spec \<Rightarrow> pod_spec option" where
  "onContainer0 f ps = do {
     cs \<leftarrow> upd_nth 0 f (ps_containers ps);
     Some (ps\<lparr>ps_containers := cs\<rparr>)
   }"

text \<open>Creating a job that may exist already.\<close>

definition createJob :: "'w kube \<Rightarrow> string \<Rightarrow> job \<Rightarrow> 'w st \<Rightarrow> (goerr option \<times> 'w st) option" where
  "createJob env failure job s = do {
     (err, s) \<leftarrow> clientCreate env (Job job) s;
     Some (if realError isAlreadyExists err then map_option (WrappedError failure) err else None, s)
   }"

section \<open>Lemmas\<close>

definition orders :: "'w kube \<Rightarrow> bool" where
  "orders env \<longleftrightarrow> (\<forall>m w. mset (fst (mapOrder env m w)) = mset m)"

lemma addNodes_map:
  "gomap_ok m \<Longrightarrow> gomap_ok (addNodes ns m) \<and> dom (map_of (addNodes ns m)) = nodeName ` set ns \<union> dom (map_of m)"
  by (induction ns arbitrary: m) (auto simp: update_conv' split: if_splits)

lemma addNewNodes_map:
  "gomap_ok m \<Longrightarrow> gomap_ok (addNewNodes ns m) \<and> dom (map_of (addNewNodes ns m)) = nodeName ` set ns \<union> dom (map_of m)
     \<and> (\<forall>k v. map_of m k = Some v \<longrightarrow> map_of (addNewNodes ns m) k = Some v)"
proof (induction ns arbitrary: m)
  case Nil
  then show ?case by simp
next
  case (Cons n ns)
  let ?m = "if gomap_has m (nodeName n) then m else AList.update (nodeName n) n m"
  have "gomap_ok ?m" using Cons.prems by simp
  moreover have "dom (map_of ?m) = insert (nodeName n) (dom (map_of m))"
    by (auto simp: gomap_has_def update_conv' split: if_splits)
  moreover have "map_of m k = Some v \<Longrightarrow> map_of ?m k = Some v" for k v
    by (auto simp: gomap_has_def update_conv')
  ultimately show ?case using Cons.IH [of ?m] by auto
qed

text \<open>Every entry is filed under its own name.\<close>

definition named :: "node_set \<Rightarrow> bool" where
  "named m \<longleftrightarrow> (\<forall>(k, n)\<in>set m. k = nodeName n)"

lemma named_update: "named m \<Longrightarrow> named (AList.update (nodeName n) n m)"
  unfolding named_def by (induction m) auto

lemma named_addNodes: "named m \<Longrightarrow> named (addNodes ns m)"
  by (induction ns arbitrary: m) (simp_all add: named_update)

lemma named_addNewNodes: "named m \<Longrightarrow> named (addNewNodes ns m)"
  by (induction ns arbitrary: m) (simp_all add: named_update)

text \<open>The slice of a set of nodes has every node of it once, in some order.\<close>

lemma nodeSetToList_names:
  assumes "orders env" and "gomap_ok m" and "named m" and "nodeSetToList env m s = Some (nodes, s')"
  shows "distinct (map nodeName nodes)" and "nodeName ` set nodes = dom (map_of m)"
proof -
  obtain es w where o': "mapOrder env m (world s) = (es, w)" by (metis surj_pair)
  with assms(4) have nodes: "nodes = map snd es" by (simp add: nodeSetToList_def localCall_def)
  have ms: "mset es = mset m" using assms(1) o' unfolding orders_def by (metis fst_conv)
  then have set: "set es = set m" by (metis set_mset_mset)
  have names: "map nodeName nodes = map fst es"
    unfolding nodes using assms(3) set by (auto simp: named_def)
  show "distinct (map nodeName nodes)"
    using assms(2) ms unfolding names gomap_ok_def by (metis mset_map distinct_count_atmost_1 mset_eq_imp_distinct_iff)
  have "nodeName ` set nodes = fst ` set es" using names by (metis list.set_map)
  then show "nodeName ` set nodes = dom (map_of m)"
    unfolding set by (simp add: dom_map_of_conv_image_fst)
qed

lemma steps_getNodesWithLabel [steps_intro]:
  assumes "preord R" "allowsReads env R"
  shows "steps R (getNodesWithLabel env key value)"
  unfolding getNodesWithLabel_def by (intro steps_intro assms allowsReadsD [OF assms(2)])

lemma steps_clusterNodes [steps_intro]:
  assumes "preord R" "allowsReads env R"
  shows "steps R (getAllNVMeshClusterNodes env)" and "steps R (getAllMgmtLabelledNodes env)"
    and "steps R (nodeSetToList env m)"
  unfolding getAllNVMeshClusterNodes_def getAllMgmtLabelledNodes_def nodeSetToList_def
  by (intro steps_intro assms allowsReadsD [OF assms(2)])+

section \<open>Properties\<close>

text \<open>C37: The nodes of the cluster are the nodes labelled as clients and those labelled as targets,
  each once, whatever the order in which the map of nodes is walked.\<close>

theorem clusterNodes_union:
  assumes "orders env"
    and "getNodesWithLabel env nvmeshClientLabelKey '''' s = Some ((None, clients), s1)"
    and "getNodesWithLabel env nvmeshTargetLabelKey '''' s1 = Some ((None, targets), s2)"
  shows "\<exists>m nodes s'. getAllNVMeshClusterNodes env s = Some (Inr m, s2) \<and> nodeSetToList env m s2 = Some (nodes, s') \<and>
    distinct (map nodeName nodes) \<and> nodeName ` set nodes = nodeName ` (set clients \<union> set targets)"
proof -
  let ?m = "addNewNodes targets (addNodes clients [])"
  have ok: "gomap_ok ?m" and dom: "dom (map_of ?m) = nodeName ` (set clients \<union> set targets)"
    using addNodes_map [of "[]" clients] addNewNodes_map [of "addNodes clients []" targets] by auto
  have "named ?m" by (intro named_addNewNodes named_addNodes) (simp add: named_def)
  moreover obtain nodes s' where l: "nodeSetToList env ?m s2 = Some (nodes, s')"
    by (cases "mapOrder env ?m (world s2)") (simp add: nodeSetToList_def localCall_def)
  ultimately show ?thesis
    using nodeSetToList_names [OF assms(1) ok _ l] assms(2,3) dom
    by (intro exI [of _ ?m] exI [of _ nodes] exI [of _ s']) (simp add: getAllNVMeshClusterNodes_def)
qed

definition sampleNode :: "string \<Rightarrow> labels \<Rightarrow> node" where
  "sampleNode name ls = \<lparr>node_meta = (newMeta name '''')\<lparr>om_labels := Some ls\<rparr>\<rparr>"

definition sampleNodes :: "node list" where
  "sampleNodes = [sampleNode ''a'' [(nvmeshClientLabelKey, ''''), (nvmeshTargetLabelKey, '''')],
     sampleNode ''b'' [(nvmeshTargetLabelKey, '''')]]"

theorem clusterNodes_union_witness:
  "\<exists>m nodes s2 s'. getAllNVMeshClusterNodes plainKube (memState (emptyMem\<lparr>m_nodes := sampleNodes\<rparr>)) = Some (Inr m, s2) \<and>
     nodeSetToList plainKube m s2 = Some (nodes, s') \<and> nodeName ` set nodes = {''a'', ''b''}"
proof -
  let ?s = "memState (emptyMem\<lparr>m_nodes := sampleNodes\<rparr>)"
  let ?b = "[sampleNode ''b'' [(nvmeshTargetLabelKey, '''')]]"
  have o': "orders plainKube" by (simp add: orders_def plainKube_def memKube_def)
  obtain s1 where 1: "getNodesWithLabel plainKube nvmeshClientLabelKey '''' ?s = Some ((None, [hd sampleNodes]), s1)"
    and w: "world s1 = emptyMem\<lparr>m_nodes := sampleNodes\<rparr>"
    by (simp add: getNodesWithLabel_def clientListNodes_def apiCall_def plainKube_def memKube_def memState_def emptyMem_def
        sampleNodes_def sampleNode_def newMeta_def nvmeshClientLabelKey_def nvmeshTargetLabelKey_def)
  obtain s2 where 2: "getNodesWithLabel plainKube nvmeshTargetLabelKey '''' s1 = Some ((None, sampleNodes), s2)"
    by (simp add: getNodesWithLabel_def clientListNodes_def apiCall_def plainKube_def memKube_def w emptyMem_def
        sampleNodes_def sampleNode_def newMeta_def nvmeshClientLabelKey_def nvmeshTargetLabelKey_def)
  have "nodeName ` (set [hd sampleNodes] \<union> set sampleNodes) = {''a'', ''b''}"
    by (auto simp: sampleNodes_def sampleNode_def nodeName_def newMeta_def)
  with clusterNodes_union [OF o' 1 2] show ?thesis by metis
qed

end
