(* ===== verification/ReflectUtils.thy ===== *)
theory ReflectUtils
  imports Prelude
begin

text \<open>
  pkg/reflectutils/object_json_path.go: following a path such as
  \<open>Spec.Template.Spec.Containers[0].Image\<close> through two Go values by reflection and comparing what
  lies there. A \<open>reflect.Value\<close> is a \<open>goval\<close>: a value with the name of its type; the zero
  Value (of a nil pointer's \<open>Elem()\<close>) is \<open>None\<close>. The panics of the reflect package
  (a field of something that is no struct, an index out of range, the type of the zero Value, a
  comparison of slices) are the outer option's \<open>None\<close>.

  The reference semantics is \<open>lookupSteps\<close> over a parsed path; \<open>getPropAtPath\<close> on the
  rendered path is shown equal to it.
\<close>

datatype goval =
    VInt string int
  | VString string string
  | VBool string bool
  | VStruct string "(string \<times> goval) list"
  | VSlice string "goval list"
  | VPtr string "goval option"

fun typeOf :: "goval \<Rightarrow> string" where
  "typeOf (VInt t _) = t"
| "typeOf (VString t _) = t"
| "typeOf (VBool t _) = t"
| "typeOf (VStruct t _) = t"
| "typeOf (VSlice t _) = t"
| "typeOf (VPtr t _) = t"

section \<open>Paths\<close>

definition isDigit :: "char \<Rightarrow> bool" where
  "isDigit c \<longleftrightarrow> CHR ''0'' \<le> c \<and> c \<le> CHR ''9''"

text \<open>The digits inside the leftmost match of the regular expression \<open>\[\d*\]\<close>.\<close>

fun matchIndex :: "string \<Rightarrow> string option" where
  "matchIndex [] = None"
| "matchIndex (c # cs) =
     (if c = CHR ''['' then
        (case dropWhile isDigit cs of
           [] \<Rightarrow> matchIndex cs
         | r # _ \<Rightarrow> if r = CHR '']'' then Some (takeWhile isDigit cs) else matchIndex cs)
      else matchIndex cs)"

definition digitVal :: "char \<Rightarrow> nat" where
  "digitVal c = of_char c - 48"

definition digitsVal :: "nat \<Rightarrow> string \<Rightarrow> nat" where
  "digitsVal base = foldl (\<lambda>a c. a * base + digitVal c) 0"

text \<open>\<open>strconv.ParseInt(s, 0, 32)\<close> of a string of digits: a leading 0 selects base 8.\<close>

definition parseInt :: "string \<Rightarrow> goerr + nat" where
  "parseInt s =
     (let syntaxError = Inl (ErrorString (''strconv.ParseInt: parsing \"'' @ s @ ''\": invalid syntax''));
          rangeError = Inl (ErrorString (''strconv.ParseInt: parsing \"'' @ s @ ''\": value out of range''))
      in case s of
        [] \<Rightarrow> syntaxError
      | c # cs \<Rightarrow>
          (let (base, ds) = (if c = CHR ''0'' then (8, cs) else (10, s))
           in if list_ex (\<lambda>d. base \<le> digitVal d) ds then syntaxError
              else if digitsVal base ds < 2 ^ 31 then Inr (digitsVal base ds) else rangeError))"

section \<open>Following a path\<close>

definition getProp :: "goval option \<Rightarrow> string \<Rightarrow> (goerr + goval) option" where
  "getProp obj fieldName =
     (case obj of
        Some (VStruct t fs) \<Rightarrow>
          Some (case map_of fs fieldName of
            None \<Rightarrow> Inl (ErrorString (''Object does not have a field '' @ fieldName))
          | Some f \<Rightarrow> Inr f)
      | _ \<Rightarrow> None)"

text \<open>\<open>if walkObj.Kind() == reflect.Ptr { walkObj = walkObj.Elem() }\<close>\<close>

definition derefValue :: "goval \<Rightarrow> goval option" where
  "derefValue v = (case v of VPtr t p \<Rightarrow> p | _ \<Rightarrow> Some v)"

text \<open>\<open>reflect.Value.Index\<close>\<close>

definition indexValue :: "goval \<Rightarrow> nat \<Rightarrow> goval option" where
  "indexValue v i =
     (case v of
        VSlice t xs \<Rightarrow> nth_opt xs i
      | VString t s \<Rightarrow> map_option (\<lambda>c. VInt ''uint8'' (of_char c)) (nth_opt s i)
      | _ \<Rightarrow> None)"

text \<open>
  The loop over \<open>pathParts\<close>. The rendering of the whole object in the error message is left out.
\<close>

fun walkPath :: "goval \<Rightarrow> string \<Rightarrow> string list \<Rightarrow> (goerr + goval) option" where
  "walkPath walkObj currentPath [] = Some (Inr walkObj)"
| "walkPath walkObj currentPath (field # fields) =
     (let currentPath = currentPath @ ''.'' @ field;
          missing = (\<lambda>field. ErrorString
            (''Object does not have field '' @ field @ '' in the path '' @ currentPath))
      in case matchIndex field of
           None \<Rightarrow>
             (case getProp (derefValue walkObj) field of
                None \<Rightarrow> None
              | Some (Inl e) \<Rightarrow> Some (Inl (missing field))
              | Some (Inr v) \<Rightarrow> walkPath v currentPath fields)
         | Some digits \<Rightarrow>
             (case parseInt digits of
                Inl e \<Rightarrow> Some (Inl e)
              | Inr index \<Rightarrow>
                  let field = take (length field - (length digits + 2)) field
                  in case getProp (derefValue walkObj) field of
                       None \<Rightarrow> None
                     | Some (Inl e) \<Rightarrow> Some (Inl (missing field))
                     | Some (Inr v) \<Rightarrow>
                         (case indexValue v index of
                            None \<Rightarrow> None
                          | Some v \<Rightarrow> walkPath v currentPath fields)))"

definition getPropAtPath :: "goval \<Rightarrow> string \<Rightarrow> (goerr + goval option) option" where
  "getPropAtPath obj path =
     map_option (map_sum id derefValue) (walkPath obj '''' (go_split ''.'' path))"

section \<open>Comparing\<close>

record compare_result =
  cmp_Equals :: bool
  cmp_Path :: string
  cmp_Value1 :: "goval option"
  cmp_Value2 :: "goval option"

definition zeroCompareResult :: compare_result where
  "zeroCompareResult = \<lparr>cmp_Equals = False, cmp_Path = '''', cmp_Value1 = None, cmp_Value2 = None\<rparr>"

text \<open>
  Values Go can compare with \<open>!=\<close>. A comparison of slices panics; a pointer inside a struct is
  compared by address, which the model does not have, and counts as incomparable too.
\<close>

fun comparableValue :: "goval \<Rightarrow> bool" where
  "comparableValue (VStruct t fs) = list_all comparableValue (map snd fs)"
| "comparableValue (VSlice t xs) = False"
| "comparableValue (VPtr t p) = False"
| "comparableValue _ = True"

definition CompareObjectsAtJsonPath :: "goval \<Rightarrow> goval \<Rightarrow> string \<Rightarrow> (goerr option \<times> compare_result) option" where
  "CompareObjectsAtJsonPath obj1 obj2 path = do {
     r1 \<leftarrow> getPropAtPath obj1 path;
     case r1 of
       Inl err1 \<Rightarrow> Some (Some err1, zeroCompareResult)
     | Inr value1 \<Rightarrow> do {
         r2 \<leftarrow> getPropAtPath obj2 path;
         case r2 of
           Inl err2 \<Rightarrow> Some (Some err2, zeroCompareResult)
         | Inr value2 \<Rightarrow> do {
             v1 \<leftarrow> value1;
             v2 \<leftarrow> value2;
             if typeOf v1 \<noteq> typeOf v2 then
               Some (None, \<lparr>cmp_Equals = False, cmp_Path = path, cmp_Value1 = Some v1, cmp_Value2 = Some v2\<rparr>)
             else if \<not> comparableValue v1 \<or> \<not> comparableValue v2 then None
             else if v1 \<noteq> v2 then
               Some (None, \<lparr>cmp_Equals = False, cmp_Path = path, cmp_Value1 = Some v1, cmp_Value2 = Some v2\<rparr>)
             else Some (None, zeroCompareResult\<lparr>cmp_Equals := True\<rparr>)
           }
       }
   }"

fun CompareFieldsInTwoObjects :: "goval \<Rightarrow> goval \<Rightarrow> string list \<Rightarrow> (goerr option \<times> compare_result) option" where
  "CompareFieldsInTwoObjects obj1 obj2 [] = Some (None, zeroCompareResult\<lparr>cmp_Equals := True\<rparr>)"
| "CompareFieldsInTwoObjects obj1 obj2 (path # paths) = do {
     (err, result) \<leftarrow> CompareObjectsAtJsonPath obj1 obj2 path;
     if err \<noteq> None \<or> \<not> cmp_Equals result then Some (err, result)
     else CompareFieldsInTwoObjects obj1 obj2 paths
   }"

section \<open>Reference semantics of a path\<close>

text \<open>A step names a field and, for an array notation, an index into it.\<close>

type_synonym path_step = "string \<times> nat option"

definition renderStep :: "path_step \<Rightarrow> string" where
  "renderStep st = fst st @ (case snd st of None \<Rightarrow> '''' | Some i \<Rightarrow> ''['' @ nat_dec i @ '']'')"

definition renderPath :: "path_step list \<Rightarrow> string" where
  "renderPath steps = go_join ''.'' (map renderStep steps)"

definition plainStep :: "path_step \<Rightarrow> bool" where
  "plainStep st \<longleftrightarrow> CHR ''.'' \<notin> set (fst st) \<and> CHR ''['' \<notin> set (fst st)
     \<and> (case snd st of None \<Rightarrow> True | Some i \<Rightarrow> i < 2 ^ 31)"

fun lookupSteps :: "goval \<Rightarrow> path_step list \<Rightarrow> goval option" where
  "lookupSteps v [] = Some v"
| "lookupSteps v ((f, i) # steps) =
     (case derefValue v of
        Some (VStruct t fs) \<Rightarrow>
          (case map_of fs f of
             None \<Rightarrow> None
           | Some w \<Rightarrow> Option.bind (case i of None \<Rightarrow> Some w | Some k \<Rightarrow> indexValue w k) (\<lambda>w. lookupSteps w steps))
      | _ \<Rightarrow> None)"

subsection \<open>Digits\<close>

lemma digit_char:
  assumes "d < 10"
  shows "isDigit (char_of (48 + d :: nat))" and "digitVal (char_of (48 + d)) = d"
    and "char_of (48 + d) = CHR ''0'' \<longleftrightarrow> d = 0"
proof -
  have d: "d \<in> {0, 1, 2, 3, 4, 5, 6, 7, 8, 9}" using assms by auto
  show "isDigit (char_of (48 + d))" using d by (auto simp: isDigit_def less_eq_char_def)
  show "digitVal (char_of (48 + d)) = d" using d by (auto simp: digitVal_def)
  show "char_of (48 + d) = CHR ''0'' \<longleftrightarrow> d = 0" using d by auto
qed

lemma nat_dec_isDigit: "\<forall>c\<in>set (nat_dec n). isDigit c"
  using nat_dec_digits digit_char(1) by blast

lemma digitsVal_append: "digitsVal b (xs @ [c]) = digitsVal b xs * b + digitVal c"
  by (simp add: digitsVal_def)

lemma digitsVal_nat_dec: "digitsVal 10 (nat_dec n) = n"
proof (induction n rule: nat_dec.induct)
  case (1 n)
  show ?case
  proof (cases "n < 10")
    case True
    then show ?thesis by (subst nat_dec.simps) (simp add: digitsVal_def digit_char)
  next
    case False
    with 1 show ?thesis by (subst nat_dec.simps) (simp add: digitsVal_append digit_char)
  qed
qed

lemma hd_nat_dec: "0 < n \<Longrightarrow> hd (nat_dec n) \<noteq> CHR ''0''"
proof (induction n rule: nat_dec.induct)
  case (1 n)
  show ?case
  proof (cases "n < 10")
    case True
    with 1(2) show ?thesis by (subst nat_dec.simps) (simp add: digit_char(3))
  next
    case False
    with 1 show ?thesis by (subst nat_dec.simps) (simp add: hd_append)
  qed
qed

lemma digitVal_digit: "isDigit c \<Longrightarrow> digitVal c < 10"
proof -
  assume "isDigit c"
  then have "of_char c \<le> (57 :: nat)"
    by (simp add: isDigit_def less_eq_char_def)
  then show ?thesis by (simp add: digitVal_def)
qed

lemma parseInt_nat_dec:
  assumes "n < 2 ^ 31"
  shows "parseInt (nat_dec n) = Inr n"
proof (cases "n = 0")
  case True
  have "nat_dec 0 = ''0''" by (subst nat_dec.simps) simp
  with True show ?thesis by (simp add: parseInt_def digitsVal_def)
next
  case False
  obtain c cs where c: "nat_dec n = c # cs" by (cases "nat_dec n") auto
  with hd_nat_dec [of n] False have "c \<noteq> CHR ''0''" by simp
  moreover have "\<not> list_ex (\<lambda>d. 10 \<le> digitVal d) (c # cs)"
    using nat_dec_isDigit [of n] digitVal_digit by (force simp: c list_ex_iff)
  ultimately show ?thesis
    using assms digitsVal_nat_dec [of n] by (simp add: parseInt_def Let_def c)
qed

subsection \<open>Rendered steps\<close>

lemma matchIndex_none: "CHR ''['' \<notin> set f \<Longrightarrow> matchIndex f = None"
  by (induction f) auto

lemma takeWhile_digits: "\<forall>c\<in>set ds. isDigit c \<Longrightarrow> takeWhile isDigit (ds @ CHR '']'' # r) = ds"
  by (induction ds) (simp_all add: isDigit_def less_eq_char_def)

lemma dropWhile_digits:
  "\<forall>c\<in>set ds. isDigit c \<Longrightarrow> dropWhile isDigit (ds @ CHR '']'' # r) = CHR '']'' # r"
  by (induction ds) (simp_all add: isDigit_def less_eq_char_def)

lemma matchIndex_rendered:
  "CHR ''['' \<notin> set f \<Longrightarrow> matchIndex (f @ ''['' @ nat_dec i @ '']'') = Some (nat_dec i)"
proof (induction f)
  case Nil
  have "\<not> isDigit CHR '']''" by (simp add: isDigit_def less_eq_char_def)
  then show ?case using nat_dec_isDigit [of i] by (simp add: takeWhile_digits dropWhile_digits)
next
  case (Cons c f)
  then have "c \<noteq> CHR ''[''" by auto
  with Cons show ?case by simp
qed

lemma dot_not_digit: "CHR ''.'' \<notin> set (nat_dec i)"
  using nat_dec_isDigit [of i] by (auto simp: isDigit_def less_eq_char_def)

lemma dot_renderStep: "plainStep st \<Longrightarrow> CHR ''.'' \<notin> set (renderStep st)"
  using dot_not_digit by (auto simp: plainStep_def renderStep_def split: option.splits)

lemma walkPath_renderStep:
  assumes "plainStep (f, i)"
  shows "walkPath v cur (renderStep (f, i) # rest) =
    (case getProp (derefValue v) f of
       None \<Rightarrow> None
     | Some (Inl e) \<Rightarrow> Some (Inl (ErrorString (''Object does not have field '' @ f @ '' in the path ''
         @ cur @ ''.'' @ renderStep (f, i))))
     | Some (Inr w) \<Rightarrow>
         (case (case i of None \<Rightarrow> Some w | Some k \<Rightarrow> indexValue w k) of
            None \<Rightarrow> None
          | Some w \<Rightarrow> walkPath w (cur @ ''.'' @ renderStep (f, i)) rest))"
proof (cases i)
  case None
  then show ?thesis using assms
    by (simp add: plainStep_def renderStep_def matchIndex_none Let_def split: option.splits sum.splits)
next
  case (Some k)
  have "take (length (renderStep (f, i)) - (length (nat_dec k) + 2)) (renderStep (f, i)) = f"
    by (simp add: renderStep_def Some)
  moreover have "matchIndex (renderStep (f, i)) = Some (nat_dec k)"
    using assms matchIndex_rendered [of f k] by (simp add: renderStep_def Some plainStep_def)
  moreover have "parseInt (nat_dec k) = Inr k"
    using assms by (simp add: plainStep_def Some parseInt_nat_dec)
  ultimately show ?thesis
    by (simp add: Some Let_def split: option.splits sum.splits)
qed

lemma walkPath_lookup:
  "list_all plainStep steps \<Longrightarrow> lookupSteps v steps = Some w \<Longrightarrow>
   walkPath v cur (map renderStep steps) = Some (Inr w)"
proof (induction steps arbitrary: v cur)
  case Nil
  then show ?case by simp
next
  case (Cons st steps)
  obtain f i where st: "st = (f, i)" by (cases st)
  from Cons.prems(2) obtain t fs x y where
    d: "derefValue v = Some (VStruct t fs)" and x: "map_of fs f = Some x"
    and y: "(case i of None \<Rightarrow> Some x | Some k \<Rightarrow> indexValue x k) = Some y"
    and rest: "lookupSteps y steps = Some w"
    by (auto simp: st bind_eq_Some split: option.splits goval.splits)
  have "getProp (derefValue v) f = Some (Inr x)" by (simp add: getProp_def d x)
  with Cons.prems(1) show ?case
    by (simp add: st walkPath_renderStep y Cons.IH [OF _ rest] del: walkPath.simps)
qed

lemma go_split_renderPath:
  assumes "steps \<noteq> []" and "list_all plainStep steps"
  shows "go_split ''.'' (renderPath steps) = map renderStep steps"
  using assms unfolding renderPath_def
  by (intro go_split_join_char) (auto simp: list_all_iff dot_renderStep)

lemma getPropAtPath_renderPath:
  assumes "steps \<noteq> []" and "list_all plainStep steps" and "lookupSteps v steps = Some w"
  shows "getPropAtPath v (renderPath steps) = Some (Inr (derefValue w))"
  using walkPath_lookup [OF assms(2,3)] go_split_renderPath [OF assms(1,2)]
  by (simp add: getPropAtPath_def)

lemma CompareObjects_at:
  assumes "getPropAtPath v1 p = Some (Inr (Some a))" and "getPropAtPath v2 p = Some (Inr (Some b))"
    and "typeOf a = typeOf b" and "comparableValue a" and "comparableValue b"
  shows "CompareObjectsAtJsonPath v1 v2 p = Some (None,
    if a = b then zeroCompareResult\<lparr>cmp_Equals := True\<rparr>
    else \<lparr>cmp_Equals = False, cmp_Path = p, cmp_Value1 = Some a, cmp_Value2 = Some b\<rparr>)"
  using assms by (simp add: CompareObjectsAtJsonPath_def)

section \<open>Properties\<close>


definition sampleRooms :: goval where
  "sampleRooms = VStruct ''Apartment'' [(''Size'', VInt ''int32'' 120),
     (''Rooms'', VSlice ''[]Room'' [VStruct ''Room'' [(''Size'', VInt ''int32'' 25)],
        VStruct ''Room'' [(''Size'', VInt ''int32'' 7)]])]"


text \<open>C34: comparing two objects field by field stops at the first path whose comparison does not
  succeed with equality, and returns that comparison; when every path compares equal the result is
  equality with no error.\<close>

theorem CompareFields_first_difference:
  assumes "\<forall>q\<in>set qs. CompareObjectsAtJsonPath v1 v2 q = Some (None, zeroCompareResult\<lparr>cmp_Equals := True\<rparr>)"
    and "CompareObjectsAtJsonPath v1 v2 p = Some (err, r)" and "err \<noteq> None \<or> \<not> cmp_Equals r"
  shows "CompareFieldsInTwoObjects v1 v2 (qs @ p # ps) = Some (err, r)
    \<and> CompareFieldsInTwoObjects v1 v2 qs = Some (None, zeroCompareResult\<lparr>cmp_Equals := True\<rparr>)"
  using assms by (induction qs) auto

theorem CompareFields_first_difference_witness:
  "CompareFieldsInTwoObjects sampleRooms (VStruct ''Apartment'' [(''Size'', VInt ''int32'' 90)])
     ([] @ ''Size'' # [''Floor'']) =
   Some (None, \<lparr>cmp_Equals = False, cmp_Path = ''Size'', cmp_Value1 = Some (VInt ''int32'' 120),
     cmp_Value2 = Some (VInt ''int32'' 90)\<rparr>)"
  using CompareFields_first_difference [of "[]" sampleRooms
      "VStruct ''Apartment'' [(''Size'', VInt ''int32'' 90)]" "''Size''" None
      "\<lparr>cmp_Equals = False, cmp_Path = ''Size'', cmp_Value1 = Some (VInt ''int32'' 120),
        cmp_Value2 = Some (VInt ''int32'' 90)\<rparr>" "[''Floor'']"]
  by (simp add: CompareObjectsAtJsonPath_def getPropAtPath_def getProp_def derefValue_def sampleRooms_def
      Let_def zeroCompareResult_def)

end
