(* ===== verification/ReflectObjects.thy ===== *)
theory ReflectObjects
  imports ReflectUtils KubeTypes
begin

text \<open>
  The daemon sets and stateful sets of KubeTypes as the Go values reflection sees, down to the fields
  the operator compares, and what comparing those fields says.
\<close>

fun policyText :: "pull_policy \<Rightarrow> string" where
  "policyText PullAlways = ''Always''"
| "policyText PullIfNotPresent = ''IfNotPresent''"
| "policyText PullNever = ''Never''"
| "policyText PullUnset = ''''"

lemma policyText_eq [simp]: "policyText a = policyText b \<longleftrightarrow> a = b"
  by (cases a; cases b) simp_all

definition goContainer :: "container \<Rightarrow> goval" where
  "goContainer c = VStruct ''v1.Container''
     [(''Image'', VString ''string'' (c_image c)),
      (''ImagePullPolicy'', VString ''v1.PullPolicy'' (policyText (c_imagePullPolicy c)))]"

definition goTemplate :: "pod_template \<Rightarrow> goval" where
  "goTemplate t = VStruct ''v1.PodTemplateSpec'' [(''Spec'', VStruct ''v1.PodSpec''
     [(''Containers'', VSlice ''[]v1.Container'' (map goContainer (ps_containers (pt_spec t))))])]"

definition goStatefulSet :: "stateful_set \<Rightarrow> goval" where
  "goStatefulSet ss = VPtr ''*v1.StatefulSet'' (Some (VStruct ''v1.StatefulSet'' [(''Spec'', VStruct ''v1.StatefulSetSpec''
     [(''Replicas'', VPtr ''*int32'' (map_option (\<lambda>r. VInt ''int32'' (sint r)) (ss_replicas ss))),
      (''Template'', goTemplate (ss_template ss))])]))"

definition goDaemonSet :: "daemon_set \<Rightarrow> goval" where
  "goDaemonSet ds = VPtr ''*v1.DaemonSet'' (Some (VStruct ''v1.DaemonSet'' [(''Spec'', VStruct ''v1.DaemonSetSpec''
     [(''Template'', goTemplate (ds_template ds))])]))"

text \<open>Whether the comparison of two objects says they differ; an error leaves the result unequal.\<close>

definition fieldsDiffer :: "goval \<Rightarrow> goval \<Rightarrow> string list \<Rightarrow> bool option" where
  "fieldsDiffer expected found paths = do {
     (err, result) \<leftarrow> CompareFieldsInTwoObjects expected found paths;
     Some (\<not> cmp_Equals result)
   }"

definition imagePath :: string where "imagePath = ''Spec.Template.Spec.Containers[0].Image''"
definition imagePullPolicyPath :: string where "imagePullPolicyPath = ''Spec.Template.Spec.Containers[0].ImagePullPolicy''"
definition replicasPath :: string where "replicasPath = ''Spec.Replicas''"

section \<open>What the paths reach\<close>

abbreviation containerSteps :: "(string \<times> nat option) list" where
  "containerSteps \<equiv> [(''Spec'', None), (''Template'', None), (''Spec'', None), (''Containers'', Some 0)]"

lemma nat_dec_0: "nat_dec 0 = ''0''"
  by (simp add: nat_dec.simps)

lemma paths_rendered:
  "imagePath = renderPath (containerSteps @ [(''Image'', None)])"
  "imagePullPolicyPath = renderPath (containerSteps @ [(''ImagePullPolicy'', None)])"
  "replicasPath = renderPath [(''Spec'', None), (''Replicas'', None)]"
  by (simp_all add: imagePath_def imagePullPolicyPath_def replicasPath_def renderPath_def renderStep_def nat_dec_0)

lemma steps_plain:
  "list_all plainStep (containerSteps @ [(''Image'', None)])"
  "list_all plainStep (containerSteps @ [(''ImagePullPolicy'', None)])"
  "list_all plainStep [(''Spec'', None), (''Replicas'', None)]"
  by (simp_all add: plainStep_def)

lemma goTemplate_lookup:
  assumes "ps_containers (pt_spec t) = c # cs"
    and "derefValue v = Some (VStruct ty fs)" "map_of fs ''Spec'' = Some (VStruct ty' fs')"
    and "map_of fs' ''Template'' = Some (goTemplate t)"
  shows "getPropAtPath v imagePath = Some (Inr (Some (VString ''string'' (c_image c))))"
    and "getPropAtPath v imagePullPolicyPath = Some (Inr (Some (VString ''v1.PullPolicy'' (policyText (c_imagePullPolicy c)))))"
proof -
  have 1: "lookupSteps v (containerSteps @ [(''Image'', None)]) = Some (VString ''string'' (c_image c))"
    using assms by (simp add: derefValue_def goTemplate_def goContainer_def indexValue_def nth_opt_def)
  have 2: "lookupSteps v (containerSteps @ [(''ImagePullPolicy'', None)]) =
      Some (VString ''v1.PullPolicy'' (policyText (c_imagePullPolicy c)))"
    using assms by (simp add: derefValue_def goTemplate_def goContainer_def indexValue_def nth_opt_def)
  show "getPropAtPath v imagePath = Some (Inr (Some (VString ''string'' (c_image c))))"
    unfolding paths_rendered
    by (subst getPropAtPath_renderPath [OF _ steps_plain(1) 1]) (simp_all add: derefValue_def)
  show "getPropAtPath v imagePullPolicyPath = Some (Inr (Some (VString ''v1.PullPolicy'' (policyText (c_imagePullPolicy c)))))"
    unfolding paths_rendered
    by (subst getPropAtPath_renderPath [OF _ steps_plain(2) 2]) (simp_all add: derefValue_def)
qed

lemma replicas_lookup:
  "getPropAtPath (goStatefulSet ss) replicasPath = Some (Inr (map_option (\<lambda>r. VInt ''int32'' (sint r)) (ss_replicas ss)))"
proof -
  have "lookupSteps (goStatefulSet ss) [(''Spec'', None), (''Replicas'', None)] =
      Some (VPtr ''*int32'' (map_option (\<lambda>r. VInt ''int32'' (sint r)) (ss_replicas ss)))"
    by (simp add: goStatefulSet_def derefValue_def)
  from getPropAtPath_renderPath [OF _ steps_plain(3) this] show ?thesis
    unfolding paths_rendered by (simp add: derefValue_def)
qed

lemma statefulSet_lookup:
  assumes "ps_containers (pt_spec (ss_template ss)) = c # cs"
  shows "getPropAtPath (goStatefulSet ss) imagePath = Some (Inr (Some (VString ''string'' (c_image c))))"
proof -
  let ?spec = "[(''Replicas'', VPtr ''*int32'' (map_option (\<lambda>r. VInt ''int32'' (sint r)) (ss_replicas ss))), (''Template'', goTemplate (ss_template ss))]"
  have "derefValue (goStatefulSet ss) = Some (VStruct ''v1.StatefulSet'' [(''Spec'', VStruct ''v1.StatefulSetSpec'' ?spec)])"
    by (simp add: goStatefulSet_def derefValue_def)
  from goTemplate_lookup(1) [OF assms this] show ?thesis by simp
qed

lemma daemonSet_lookup:
  assumes "ps_containers (pt_spec (ds_template ds)) = c # cs"
  shows "getPropAtPath (goDaemonSet ds) imagePath = Some (Inr (Some (VString ''string'' (c_image c))))"
    and "getPropAtPath (goDaemonSet ds) imagePullPolicyPath =
      Some (Inr (Some (VString ''v1.PullPolicy'' (policyText (c_imagePullPolicy c)))))"
proof -
  have d: "derefValue (goDaemonSet ds) =
      Some (VStruct ''v1.DaemonSet'' [(''Spec'', VStruct ''v1.DaemonSetSpec'' [(''Template'', goTemplate (ds_template ds))])])"
    by (simp add: goDaemonSet_def derefValue_def)
  show "getPropAtPath (goDaemonSet ds) imagePath = Some (Inr (Some (VString ''string'' (c_image c))))"
    and "getPropAtPath (goDaemonSet ds) imagePullPolicyPath =
      Some (Inr (Some (VString ''v1.PullPolicy'' (policyText (c_imagePullPolicy c)))))"
    using goTemplate_lookup [OF assms d] by simp_all
qed

section \<open>What the comparisons say\<close>

lemma fieldsDiffer_Cons:
  assumes "getPropAtPath x p = Some (Inr (Some a))" "getPropAtPath y p = Some (Inr (Some b))"
    and "typeOf a = typeOf b" "comparableValue a" "comparableValue b"
  shows "fieldsDiffer x y (p # ps) = (if a = b then fieldsDiffer x y ps else Some True)"
  using CompareObjects_at [OF assms] by (simp add: fieldsDiffer_def zeroCompareResult_def)

lemma fieldsDiffer_Nil: "fieldsDiffer x y [] = Some False"
  by (simp add: fieldsDiffer_def zeroCompareResult_def)

lemma fieldsDiffer_statefulSet_image:
  assumes "ps_containers (pt_spec (ss_template e)) = c # cs" "ps_containers (pt_spec (ss_template f)) = d # ds"
  shows "fieldsDiffer (goStatefulSet e) (goStatefulSet f) (imagePath # ps) =
    (if c_image c = c_image d then fieldsDiffer (goStatefulSet e) (goStatefulSet f) ps else Some True)"
  by (subst fieldsDiffer_Cons [OF statefulSet_lookup [OF assms(1)] statefulSet_lookup [OF assms(2)]]) simp_all

lemma fieldsDiffer_replicas:
  assumes "ss_replicas e = Some r" "ss_replicas f = Some q"
  shows "fieldsDiffer (goStatefulSet e) (goStatefulSet f) (replicasPath # ps) =
    (if r = q then fieldsDiffer (goStatefulSet e) (goStatefulSet f) ps else Some True)"
  by (subst fieldsDiffer_Cons [OF replicas_lookup [of e, unfolded assms option.map] replicas_lookup [of f, unfolded assms option.map]])
    (auto dest: signed_word_eqI)

lemma fieldsDiffer_daemonSet:
  assumes "ps_containers (pt_spec (ds_template e)) = c # cs" "ps_containers (pt_spec (ds_template f)) = d # ds"
  shows "fieldsDiffer (goDaemonSet e) (goDaemonSet f) [imagePath, imagePullPolicyPath] =
    Some (c_image c \<noteq> c_image d \<or> c_imagePullPolicy c \<noteq> c_imagePullPolicy d)"
  by (subst fieldsDiffer_Cons [OF daemonSet_lookup(1) [OF assms(1)] daemonSet_lookup(1) [OF assms(2)]], simp_all)
    (subst fieldsDiffer_Cons [OF daemonSet_lookup(2) [OF assms(1)] daemonSet_lookup(2) [OF assms(2)]],
      simp_all add: fieldsDiffer_Nil)

end
