(* ===== verification/CsiController.thy ===== *)
theory CsiController
  imports MemKube ReflectObjects
begin

text \<open>
  pkg/controllers/csi_controller.go: the CSI driver component. A failed type assertion and an index
  out of range panic. The component meets the contract of the shared loop
  (interpretation \<open>csic\<close>).
\<close>

definition csiAssetsLocation :: string where "csiAssetsLocation = ''resources/csi/''"
definition csiDaemonSetName :: string where "csiDaemonSetName = ''nvmesh-csi-node-driver''"
definition csiStatefulSetName :: string where "csiStatefulSetName = ''nvmesh-csi-controller''"
definition csiDriverImageName :: string where "csiDriverImageName = ''nvmesh-csi-driver''"
definition csiDriverDefaultRegistry :: string where "csiDriverDefaultRegistry = ''excelero''"
definition csiServiceAccountName :: string where "csiServiceAccountName = ''nvmesh-csi''"

text \<open>From mgmt_controller.go.\<close>

definition mgmtGuiServiceName :: string where "mgmtGuiServiceName = ''nvmesh-management-gui''"
definition mgmtProtocol :: string where "mgmtProtocol = ''https''"

definition getCSIServiceAccountName :: "nvmesh \<Rightarrow> string" where
  "getCSIServiceAccountName cr = csiServiceAccountName"

definition getCSIFullImageName :: "nvmesh \<Rightarrow> string" where
  "getCSIFullImageName cr =
     (let registry = (if csi_ImageRegistry (csi cr) \<noteq> '''' then csi_ImageRegistry (csi cr) else csiDriverDefaultRegistry)
      in registry @ ''/'' @ csiDriverImageName @ '':'' @ csi_Version (csi cr))"

definition missingCSIVersion :: goerr where
  "missingCSIVersion = ErrorString ''Missing NVMesh CSI Driver Version (NVMesh.Spec.CSI.Version)''"

text \<open>What both initialisations do to the pod template.\<close>

definition initCSITemplate :: "nvmesh \<Rightarrow> pod_template \<Rightarrow> pod_template option" where
  "initCSITemplate cr t = do {
     let podSpec = (pt_spec t)\<lparr>ps_serviceAccountName := getCSIServiceAccountName cr\<rparr>;
     containers \<leftarrow> upd_nth 0 (\<lambda>c. c\<lparr>c_image := getCSIFullImageName cr, c_imagePullPolicy := getImagePullPolicy cr\<rparr>)
       (ps_containers podSpec);
     Some (t\<lparr>pt_spec := podSpec\<lparr>ps_containers := containers\<rparr>\<rparr>)
   }"

definition initCSINodeDriverDaemonSet :: "nvmesh \<Rightarrow> daemon_set \<Rightarrow> (goerr option \<times> daemon_set) option" where
  "initCSINodeDriverDaemonSet cr ds =
     (if csi_Version (csi cr) = '''' then Some (Some missingCSIVersion, ds)
      else do {
        t \<leftarrow> initCSITemplate cr (ds_template ds);
        Some (None, ds\<lparr>ds_template := t\<rparr>)
      })"

definition initCSIControllerStatefulSet :: "nvmesh \<Rightarrow> stateful_set \<Rightarrow> (goerr option \<times> stateful_set) option" where
  "initCSIControllerStatefulSet cr ss =
     (if csi_Version (csi cr) = '''' then Some (Some missingCSIVersion, ss)
      else do {
        t \<leftarrow> initCSITemplate cr (ss_template ss);
        Some (None, ss\<lparr>ss_template := t, ss_replicas := Some (csi_ControllerReplicas (csi cr))\<rparr>)
      })"

text \<open>Writing to a nil map panics.\<close>

definition initCSIConfigMap :: "nvmesh \<Rightarrow> config_map \<Rightarrow> (goerr option \<times> config_map) option" where
  "initCSIConfigMap cr conf = do {
     data \<leftarrow> cm_data conf;
     let data = AList.update ''management.protocol'' mgmtProtocol data;
     let data = AList.update ''management.servers''
       (mgmtGuiServiceName @ ''.'' @ crNamespace cr @ ''.svc.cluster.local:4000'') data;
     Some (None, conf\<lparr>cm_data := Some data\<rparr>)
   }"

text \<open>\<open>initClusterRoleBinding\<close> and \<open>initRoleBinding\<close> have the same body.\<close>

definition initRoleBinding :: "nvmesh \<Rightarrow> role_binding \<Rightarrow> (goerr option \<times> role_binding) option" where
  "initRoleBinding cr rb = do {
     let subjects = map (\<lambda>s. s\<lparr>sub_namespace := crNamespace cr\<rparr>) (rb_subjects rb);
     subjects \<leftarrow> upd_nth 0 (\<lambda>s. s\<lparr>sub_name := getCSIServiceAccountName cr\<rparr>) subjects;
     Some (None, rb\<lparr>rb_subjects := subjects\<rparr>)
   }"

definition initClusterRoleBinding :: "nvmesh \<Rightarrow> role_binding \<Rightarrow> (goerr option \<times> role_binding) option" where
  "initClusterRoleBinding cr crb = do {
     let subjects = map (\<lambda>s. s\<lparr>sub_namespace := crNamespace cr\<rparr>) (rb_subjects crb);
     subjects \<leftarrow> upd_nth 0 (\<lambda>s. s\<lparr>sub_name := getCSIServiceAccountName cr\<rparr>) subjects;
     Some (None, crb\<lparr>rb_subjects := subjects\<rparr>)
   }"

definition csiInitObject :: "nvmesh \<Rightarrow> kobj \<Rightarrow> (goerr option \<times> kobj) option" where
  "csiInitObject cr obj =
     (case obj of
        StatefulSet o' \<Rightarrow>
          if nameOf obj = ''nvmesh-csi-controller''
          then do { (err, o') \<leftarrow> initCSIControllerStatefulSet cr o'; Some (err, StatefulSet o') }
          else Some (None, obj)
      | DaemonSet o' \<Rightarrow>
          if nameOf obj = ''nvmesh-csi-node-driver''
          then do { (err, o') \<leftarrow> initCSINodeDriverDaemonSet cr o'; Some (err, DaemonSet o') }
          else Some (None, obj)
      | ConfigMap o' \<Rightarrow> do { (err, o') \<leftarrow> initCSIConfigMap cr o'; Some (err, ConfigMap o') }
      | RoleBinding o' \<Rightarrow> do { (err, o') \<leftarrow> initRoleBinding cr o'; Some (err, RoleBinding o') }
      | ClusterRoleBinding o' \<Rightarrow> do { (err, o') \<leftarrow> initClusterRoleBinding cr o'; Some (err, ClusterRoleBinding o') }
      | _ \<Rightarrow> Some (None, obj))"

definition shouldUpdateCSINodeDriverDaemonSet :: "daemon_set \<Rightarrow> daemon_set \<Rightarrow> bool option" where
  "shouldUpdateCSINodeDriverDaemonSet expected ds =
     fieldsDiffer (goDaemonSet expected) (goDaemonSet ds) [imagePath, imagePullPolicyPath]"

definition shouldUpdateCSIControllerStatefulSet :: "stateful_set \<Rightarrow> stateful_set \<Rightarrow> bool option" where
  "shouldUpdateCSIControllerStatefulSet expected ss =
     fieldsDiffer (goStatefulSet expected) (goStatefulSet ss) [imagePath, replicasPath]"

definition csiShouldUpdateObject :: "kobj \<Rightarrow> kobj \<Rightarrow> bool option" where
  "csiShouldUpdateObject exp found =
     (case found of
        StatefulSet o' \<Rightarrow>
          if nameOf found = ''nvmesh-csi-controller''
          then (case exp of StatefulSet expected \<Rightarrow> shouldUpdateCSIControllerStatefulSet expected o' | _ \<Rightarrow> None)
          else Some False
      | DaemonSet o' \<Rightarrow>
          if nameOf found = ''nvmesh-csi-node-driver''
          then (case exp of DaemonSet expected \<Rightarrow> shouldUpdateCSINodeDriverDaemonSet expected o' | _ \<Rightarrow> None)
          else Some False
      | _ \<Rightarrow> Some False)"

definition csiComponent :: "'w component" where
  "csiComponent = \<lparr>InitObject = csiInitObject,
     ShouldUpdateObject = (\<lambda>cr expected found s. do { b \<leftarrow> csiShouldUpdateObject expected found; Some ((b, expected), s) })\<rparr>"

definition deployCSI :: "'w kube \<Rightarrow> nvmesh \<Rightarrow> 'w st \<Rightarrow> (goerr option \<times> 'w st) option" where
  "deployCSI env cr = createObjectsFromDir env cr csiComponent csiAssetsLocation True"

definition removeCSI :: "'w kube \<Rightarrow> nvmesh \<Rightarrow> 'w st \<Rightarrow> (goerr option \<times> 'w st) option" where
  "removeCSI env cr = removeObjectsFromDir env cr csiComponent csiAssetsLocation True"

definition csiReconcile :: "'w kube \<Rightarrow> nvmesh \<Rightarrow> 'w st \<Rightarrow> ((ctrl_result \<times> goerr option) \<times> 'w st) option" where
  "csiReconcile env cr s =
     (if \<not> csi_Disabled (csi cr) then do {
        (err, s) \<leftarrow> deployCSI env cr s;
        Some ((DoNotRequeue, err), s)
      }
      else do {
        (err, s) \<leftarrow> removeCSI env cr s;
        Some ((DoNotRequeue, err), s)
      })"

section \<open>The contract of the shared loop\<close>

lemmas csi_init_defs = csiInitObject_def initCSIControllerStatefulSet_def initCSINodeDriverDaemonSet_def
  initCSIConfigMap_def initRoleBinding_def initClusterRoleBinding_def initCSITemplate_def

lemma csiInitObject_meta:
  "csiInitObject cr x = Some (err, y) \<Longrightarrow> metaOf y = metaOf x \<and> kindOf y = kindOf x"
  by (auto simp: csi_init_defs bind_eq_Some Let_def split: kobj.splits if_splits)

lemma csiInit_statefulSet:
  assumes "csiInitObject cr (StatefulSet ss) = Some (None, y)" and "om_name (ss_meta ss) = ''nvmesh-csi-controller''"
  obtains ss' c cs where "y = StatefulSet ss'" "ps_containers (pt_spec (ss_template ss')) = c # cs"
    "c_image c = getCSIFullImageName cr" "ss_replicas ss' = Some (csi_ControllerReplicas (csi cr))" "ss_meta ss' = ss_meta ss"
  using assms by (force simp: csi_init_defs nameOf_def bind_eq_Some Let_def upd_nth_0_Some split: if_splits)

lemma csiInit_daemonSet:
  assumes "csiInitObject cr (DaemonSet ds) = Some (None, y)" and "om_name (ds_meta ds) = ''nvmesh-csi-node-driver''"
  obtains ds' c cs where "y = DaemonSet ds'" "ps_containers (pt_spec (ds_template ds')) = c # cs"
    "c_image c = getCSIFullImageName cr" "c_imagePullPolicy c = getImagePullPolicy cr" "ds_meta ds' = ds_meta ds"
  using assms by (force simp: csi_init_defs nameOf_def bind_eq_Some Let_def upd_nth_0_Some split: if_splits)

lemma csiShouldUpdateObject_refl:
  assumes init: "csiInitObject cr x = Some (None, y)" and g: "\<And>m. om_name (g m) = om_name m"
  shows "csiShouldUpdateObject (mapMeta g y) (mapMeta g y) = Some False"
proof (cases x)
  case (StatefulSet ss)
  show ?thesis
  proof (cases "om_name (ss_meta ss) = ''nvmesh-csi-controller''")
    case True
    with init StatefulSet obtain ss' c cs where "y = StatefulSet ss'" and
      c: "ps_containers (pt_spec (ss_template ss')) = c # cs" and r: "ss_replicas ss' = Some (csi_ControllerReplicas (csi cr))"
      by (metis csiInit_statefulSet)
    moreover from c r have "shouldUpdateCSIControllerStatefulSet (ss_meta_update g ss') (ss_meta_update g ss') = Some False"
      by (simp add: shouldUpdateCSIControllerStatefulSet_def fieldsDiffer_statefulSet_image fieldsDiffer_replicas fieldsDiffer_Nil)
    ultimately show ?thesis by (simp add: csiShouldUpdateObject_def)
  next
    case False
    with init StatefulSet have "y = StatefulSet ss" by (simp add: csiInitObject_def nameOf_def)
    with False show ?thesis by (simp add: csiShouldUpdateObject_def nameOf_def g)
  qed
next
  case (DaemonSet ds)
  show ?thesis
  proof (cases "om_name (ds_meta ds) = ''nvmesh-csi-node-driver''")
    case True
    with init DaemonSet obtain ds' c cs where "y = DaemonSet ds'" and
      c: "ps_containers (pt_spec (ds_template ds')) = c # cs" by (metis csiInit_daemonSet)
    moreover from c have "shouldUpdateCSINodeDriverDaemonSet (ds_meta_update g ds') (ds_meta_update g ds') = Some False"
      by (simp add: shouldUpdateCSINodeDriverDaemonSet_def fieldsDiffer_daemonSet)
    ultimately show ?thesis by (simp add: csiShouldUpdateObject_def)
  next
    case False
    with init DaemonSet have "y = DaemonSet ds" by (simp add: csiInitObject_def nameOf_def)
    with False show ?thesis by (simp add: csiShouldUpdateObject_def nameOf_def g)
  qed
qed (use init in \<open>auto simp: csi_init_defs bind_eq_Some Let_def csiShouldUpdateObject_def\<close>)

interpretation csic: steady_component env csiComponent for env :: "'w kube"
proof unfold_locales
  fix cr x err y
  assume "InitObject csiComponent cr x = Some (err, y)"
  then show "metaOf y = metaOf x \<and> kindOf y = kindOf x"
    by (simp add: csiComponent_def csiInitObject_meta)
next
  fix cr e f s b e' s'
  assume "ShouldUpdateObject csiComponent cr e f s = Some ((b, e'), s')"
  then show "metaOf e' = metaOf e \<and> kindOf e' = kindOf e"
    by (auto simp: csiComponent_def bind_eq_Some)
next
  fix R :: "'w st \<Rightarrow> 'w st \<Rightarrow> bool" and cr e f
  assume "preord R"
  then show "steps R (ShouldUpdateObject csiComponent cr e f)"
    by (auto simp: csiComponent_def intro!: steps_bind_pure steps_return)
next
  fix cr x y s and g :: "obj_meta \<Rightarrow> obj_meta"
  assume "InitObject csiComponent cr x = Some (None, y)" and "\<And>m. om_name (g m) = om_name m"
  then show "\<exists>e'. ShouldUpdateObject csiComponent cr (mapMeta g y) (mapMeta g y) s = Some ((False, e'), s)"
    using csiShouldUpdateObject_refl [of cr x y g] by (auto simp: csiComponent_def)
qed

section \<open>Properties\<close>

text \<open>C35: An initialised controller stateful set that the server already has is updated exactly
  when the server's image or number of replicas is not the one the resource asks for.\<close>

theorem csiController_update_iff:
  assumes "csiInitObject cr (StatefulSet ss) = Some (None, y)" and "om_name (ss_meta ss) = ''nvmesh-csi-controller''"
    and "om_name (ss_meta found) = ''nvmesh-csi-controller''"
    and "ps_containers (pt_spec (ss_template found)) = c # cs" and "ss_replicas found = Some replicas"
  shows "csiShouldUpdateObject y (StatefulSet found) =
    Some (c_image c \<noteq> getCSIFullImageName cr \<or> replicas \<noteq> csi_ControllerReplicas (csi cr))"
proof -
  from assms(1,2) obtain ss' d ds where y: "y = StatefulSet ss'" and d: "ps_containers (pt_spec (ss_template ss')) = d # ds"
    and "c_image d = getCSIFullImageName cr" "ss_replicas ss' = Some (csi_ControllerReplicas (csi cr))"
    by (metis csiInit_statefulSet)
  then show ?thesis using assms(3,5)
    by (auto simp: csiShouldUpdateObject_def nameOf_def shouldUpdateCSIControllerStatefulSet_def
        fieldsDiffer_statefulSet_image [OF d assms(4)] fieldsDiffer_replicas fieldsDiffer_Nil)
qed

definition sampleContainer :: "string \<Rightarrow> string \<Rightarrow> container" where
  "sampleContainer name img = \<lparr>c_name = name, c_image = img, c_imagePullPolicy = PullUnset, c_env = [], c_command = [],
     c_args = [], c_volumeMounts = [], c_securityContext = None\<rparr>"

definition sampleSS :: "string \<Rightarrow> string \<Rightarrow> int32 \<Rightarrow> stateful_set" where
  "sampleSS name img replicas = emptyStatefulSet\<lparr>ss_meta := newMeta name ''ns'', ss_replicas := Some replicas,
     ss_template := emptyTemplate\<lparr>pt_spec := emptyPodSpec\<lparr>ps_containers := [sampleContainer name img]\<rparr>\<rparr>,
     ss_volumeClaimTemplates := [\<lparr>pvc_meta = newMeta ''data'' ''ns'', pvc_spec_of = zeroPvcSpec\<rparr>]\<rparr>"

theorem csiController_update_iff_witness:
  "\<exists>y. csiInitObject (upd_csi (csi_Version_update (\<lambda>_. ''1.2.3'')) sampleCR) (StatefulSet (sampleSS ''nvmesh-csi-controller'' '''' 1)) = Some (None, y) \<and>
     csiShouldUpdateObject y (StatefulSet (sampleSS ''nvmesh-csi-controller'' ''excelero/nvmesh-csi-driver:1.2.3'' 2)) = Some True"
proof -
  let ?cr = "upd_csi (csi_Version_update (\<lambda>_. ''1.2.3'')) sampleCR"
  let ?ss = "sampleSS ''nvmesh-csi-controller'' '''' 1" and ?f = "sampleSS ''nvmesh-csi-controller'' ''excelero/nvmesh-csi-driver:1.2.3'' 2"
  obtain y where y: "csiInitObject ?cr (StatefulSet ?ss) = Some (None, y)"
    by (simp add: csi_init_defs sampleSS_def nameOf_def newMeta_def sampleCR_def zeroNVMesh_def)
  have c: "ps_containers (pt_spec (ss_template ?f)) = [sampleContainer ''nvmesh-csi-controller'' ''excelero/nvmesh-csi-driver:1.2.3'']"
    by (simp add: sampleSS_def)
  have "csiShouldUpdateObject y (StatefulSet ?f) = Some True"
    by (subst csiController_update_iff [OF y _ _ c, of 2]) (simp_all add: sampleSS_def newMeta_def sampleCR_def zeroNVMesh_def)
  with y show ?thesis by blast
qed

end
