(* ===== verification/MgmtController.thy ===== *)
theory MgmtController
  imports Jobs CsiController
begin

text \<open>
  pkg/controllers/mgmt_controller.go and pkg/mongoclient/mongo_client.go: the management component
  with its MongoDB. Before the management objects are deployed, the reconciler looks into the
  database: an empty one is initialised by a job first, and the two hidden settings follow the
  resource.
\<close>

definition mgmtAssetsLocation :: string where "mgmtAssetsLocation = ''resources/management/''"
definition mongoDBAssetsLocation :: string where "mongoDBAssetsLocation = ''resources/mongodb''"
definition mgmtStatefulSetName :: string where "mgmtStatefulSetName = ''nvmesh-management''"
definition mgmtImageName :: string where "mgmtImageName = ''nvmesh-management''"
definition mongoInstanceImageName :: string where "mongoInstanceImageName = ''nvmesh-mongo-instance''"
definition mgmtInitDbJobName :: string where "mgmtInitDbJobName = ''mgmt-init-db''"

section \<open>encoding/json\<close>

text \<open>
  \<open>json.MarshalIndent\<close> with four spaces, for the values the configuration holds: the keys of an
  object are sorted, and a string is escaped the way Go does by default. Strings are ASCII.
\<close>

datatype json = JString string | JInt nat | JBool bool | JObject "(string \<times> json) list"

definition hexDigit :: "nat \<Rightarrow> char" where
  "hexDigit n = (if n < 10 then char_of (48 + n) else char_of (87 + n))"

definition jsonChar :: "char \<Rightarrow> string" where
  "jsonChar c =
     (if c = CHR 0x22 then [CHR 0x5C, CHR 0x22]
      else if c = CHR 0x5C then [CHR 0x5C, CHR 0x5C]
      else if c = CHR 0x0A then CHR 0x5C # ''n''
      else if c = CHR 0x0D then CHR 0x5C # ''r''
      else if c = CHR 0x09 then CHR 0x5C # ''t''
      else if of_char c < (32 :: nat) \<or> c \<in> set ''<>&''
      then CHR 0x5C # ''u00'' @ [hexDigit (of_char c div 16), hexDigit (of_char c mod 16)]
      else [c])"

definition jsonString :: "string \<Rightarrow> string" where
  "jsonString s = CHR 0x22 # concat (map jsonChar s) @ [CHR 0x22]"

fun marshalIndent :: "string \<Rightarrow> json \<Rightarrow> string" where
  "marshalIndent indent (JString s) = jsonString s"
| "marshalIndent indent (JInt n) = nat_dec n"
| "marshalIndent indent (JBool b) = formatBool b"
| "marshalIndent indent (JObject fs) =
     (if fs = [] then ''{}''
      else ''{'' @ [CHR 0x0A] @
        go_join ('','' @ [CHR 0x0A])
          (map snd (sort_key fst (map (\<lambda>(k, v). (k, indent @ ''    '' @ jsonString k @ '': '' @ marshalIndent (indent @ ''    '') v)) fs)))
        @ [CHR 0x0A] @ indent @ ''}'')"

section \<open>Initialising the objects\<close>

definition getMongoConnectionString :: "nvmesh \<Rightarrow> string" where
  "getMongoConnectionString cr = ''mongo-svc.'' @ crNamespace cr @ ''.svc.cluster.local:27017''"

definition getMongoURI :: "nvmesh \<Rightarrow> string" where
  "getMongoURI cr = ''mongodb://'' @ getMongoConnectionString cr"

definition getSMTPConfig :: json where
  "getSMTPConfig = JObject
     [(''host'', JString ''smtp.gmail.com''), (''port'', JInt 587), (''secure'', JBool True),
      (''authRequired'', JBool True), (''username'', JString ''app@excelero.com''),
      (''password'', JString ''Tom@2021''), (''useDefault'', JBool True)]"

definition initConfigMap :: "nvmesh \<Rightarrow> config_map \<Rightarrow> (goerr option \<times> config_map) option" where
  "initConfigMap cr o' = do {
     data \<leftarrow> cm_data o';
     let data = AList.update ''configVersion'' (mgmt_Version (mgmt cr)) data;
     let mongoConnectionString = (if mongo_External (mgmt_MongoDB (mgmt cr)) then mongo_Address (mgmt_MongoDB (mgmt cr))
       else getMongoConnectionString cr);
     let mongoConnection = JObject [(''hosts'', JString mongoConnectionString)];
     let useSSL = formatBool (\<not> mgmt_NoSSL (mgmt cr));
     let conf = JObject
       [(''loggingLevel'', JString ''DEBUG''), (''statisticsCores'', JInt 5), (''useSSL'', JString useSSL),
        (''mongoConnection'', mongoConnection), (''nvmeshMetadataMongoConnection'', mongoConnection),
        (''statisticsMongoConnection'', mongoConnection),
        (''exceleroEmail'', JString ''customer.stats+OpenShift@excelero.com''), (''SMTP'', getSMTPConfig)];
     Some (None, o'\<lparr>cm_data := Some (AList.update ''config'' (marshalIndent '''' conf) data)\<rparr>)
   }"

definition getMgmtImageFromResource :: "nvmesh \<Rightarrow> string" where
  "getMgmtImageFromResource cr =
     mgmt_ImageRegistry (mgmt cr) @ ''/'' @ mgmtImageName @ '':'' @ mgmt_Version (mgmt cr)"

definition overrideVolumeClaimFields :: "pvc_spec \<Rightarrow> pvc_spec \<Rightarrow> pvc_spec" where
  "overrideVolumeClaimFields target source =
     (let target = (if pvc_storageClassName source \<noteq> None then target\<lparr>pvc_storageClassName := pvc_storageClassName source\<rparr> else target);
          target = (if pvc_selector source \<noteq> None then target\<lparr>pvc_selector := pvc_selector source\<rparr> else target);
          target = (if pvc_requests source \<noteq> None then target\<lparr>pvc_requests := pvc_requests source\<rparr> else target)
      in (if pvc_limits source \<noteq> None then target\<lparr>pvc_limits := pvc_limits source\<rparr> else target))"

definition addDeleteOnUninstallLabel :: "nvmesh \<Rightarrow> persistent_volume_claim \<Rightarrow> persistent_volume_claim" where
  "addDeleteOnUninstallLabel cr pvc =
     (let labels = (case om_labels (pvc_meta pvc) of None \<Rightarrow> [] | Some l \<Rightarrow> l);
          labels = AList.update deleteOnUninstallLabelKey '''' labels;
          labels = AList.update nvmeshClusterNameLabelKey (crm_ClusterName (cr_ObjectMeta cr)) labels
      in pvc_meta_update (om_labels_update (\<lambda>_. Some labels)) pvc)"

text \<open>\<open>VolumeClaimTemplates[0]\<close> is overridden and labelled; without one, a panic.\<close>

definition initClaim :: "nvmesh \<Rightarrow> pvc_spec \<Rightarrow> stateful_set \<Rightarrow> stateful_set option" where
  "initClaim cr source o' = do {
     claims \<leftarrow> upd_nth 0 (\<lambda>pvc. addDeleteOnUninstallLabel cr (pvc_spec_of_update (\<lambda>t. overrideVolumeClaimFields t source) pvc))
       (ss_volumeClaimTemplates o');
     Some (o'\<lparr>ss_volumeClaimTemplates := claims\<rparr>)
   }"

definition ssTemplateContainers :: "(container list \<Rightarrow> container list) \<Rightarrow> stateful_set \<Rightarrow> stateful_set" where
  "ssTemplateContainers f = ss_template_update (pt_spec_update (ps_containers_update f))"

definition ssContainers :: "stateful_set \<Rightarrow> container list" where
  "ssContainers ss = ps_containers (pt_spec (ss_template ss))"

definition initMgmtStatefulSet :: "nvmesh \<Rightarrow> stateful_set \<Rightarrow> (goerr option \<times> stateful_set) option" where
  "initMgmtStatefulSet cr o' =
     (if mgmt_Version (mgmt cr) = ''''
      then Some (Some (ErrorString ''Missing Management Version (NVMesh.Spec.Management.Version)''), o')
      else do {
        containers \<leftarrow> upd_nth 0 (\<lambda>c. addKeepRunningAfterFailureEnvVar cr (c\<lparr>c_image := getMgmtImageFromResource cr\<rparr>)) (ssContainers o');
        let o' = (ssTemplateContainers (\<lambda>_. containers) o')\<lparr>ss_replicas := Some (mgmt_Replicas (mgmt cr))\<rparr>;
        o' \<leftarrow> initClaim cr (mgmt_BackupsVolumeClaim (mgmt cr)) o';
        Some (None, o')
      })"

definition initMongoStatefulSet :: "nvmesh \<Rightarrow> stateful_set \<Rightarrow> (goerr option \<times> stateful_set) option" where
  "initMongoStatefulSet cr o' = do {
     containers \<leftarrow> upd_nth 0 (\<lambda>c. c\<lparr>c_image := getCoreFullImageName cr mongoInstanceImageName\<rparr>) (ssContainers o');
     o' \<leftarrow> initClaim cr (mongo_DataVolumeClaim (mgmt_MongoDB (mgmt cr))) (ssTemplateContainers (\<lambda>_. containers) o');
     Some (None, o')
   }"

definition initMgmtGuiService :: "nvmesh \<Rightarrow> service \<Rightarrow> goerr option \<times> service" where
  "initMgmtGuiService cr svc =
     (None, if mgmt_ExternalIPs (mgmt cr) \<noteq> None then svc\<lparr>svc_externalIPs := mgmt_ExternalIPs (mgmt cr)\<rparr> else svc)"

definition mgmtInitObject :: "nvmesh \<Rightarrow> kobj \<Rightarrow> (goerr option \<times> kobj) option" where
  "mgmtInitObject cr obj =
     (let name = nameOf obj in
      case obj of
        StatefulSet o' \<Rightarrow>
          if name = ''nvmesh-management'' then do { (err, o') \<leftarrow> initMgmtStatefulSet cr o'; Some (err, StatefulSet o') }
          else if name = ''mongo'' then do { (err, o') \<leftarrow> initMongoStatefulSet cr o'; Some (err, StatefulSet o') }
          else Some (None, obj)
      | ConfigMap o' \<Rightarrow>
          if name = ''nvmesh-mgmt-config'' then do { (err, o') \<leftarrow> initConfigMap cr o'; Some (err, ConfigMap o') }
          else Some (None, obj)
      | Service o' \<Rightarrow>
          if name = ''nvmesh-management-gui'' then (case initMgmtGuiService cr o' of (err, o') \<Rightarrow> Some (err, Service o'))
          else Some (None, obj)
      | _ \<Rightarrow> Some (None, obj))"

section \<open>Updating them\<close>

fun markKeys :: "string list \<Rightarrow> (string, bool) gomap \<Rightarrow> (string, bool) gomap" where
  "markKeys [] dict = dict"
| "markKeys (key # keys) dict = markKeys keys (AList.update key False dict)"

fun findKeys :: "string list \<Rightarrow> (string, bool) gomap \<Rightarrow> (string, bool) gomap option" where
  "findKeys [] dict = Some dict"
| "findKeys (key # keys) dict =
     (if gomap_has dict key then findKeys keys (AList.update key True dict) else None)"

definition isStringArraysEqualElements :: "string list \<Rightarrow> string list \<Rightarrow> bool" where
  "isStringArraysEqualElements a b =
     (case findKeys b (markKeys a []) of
        None \<Rightarrow> False
      | Some dict \<Rightarrow> list_all (\<lambda>(key, val). val) dict)"

definition shouldUpdateManagementStatefulSet :: "stateful_set \<Rightarrow> stateful_set \<Rightarrow> bool option" where
  "shouldUpdateManagementStatefulSet expected ss =
     fieldsDiffer (goStatefulSet expected) (goStatefulSet ss) [imagePath, replicasPath]"

definition shouldUpdateMongoStatefulSet :: "stateful_set \<Rightarrow> stateful_set \<Rightarrow> bool option" where
  "shouldUpdateMongoStatefulSet expected ss = fieldsDiffer (goStatefulSet expected) (goStatefulSet ss) [imagePath]"

text \<open>A nil slice of the found service is an empty one here.\<close>

definition shouldUpdateGuiService :: "service \<Rightarrow> service \<Rightarrow> bool \<times> service" where
  "shouldUpdateGuiService expected svc =
     (let expected = expected\<lparr>svc_clusterIP := svc_clusterIP svc\<rparr>
      in (case svc_externalIPs expected of
            None \<Rightarrow> (False, expected)
          | Some ips \<Rightarrow>
              (\<not> isStringArraysEqualElements ips (case svc_externalIPs svc of None \<Rightarrow> [] | Some l \<Rightarrow> l), expected)))"

definition cmData :: "config_map \<Rightarrow> labels" where
  "cmData cm = (case cm_data cm of None \<Rightarrow> [] | Some d \<Rightarrow> d)"

text \<open>The second test compares the configurations again, not the versions.\<close>

definition shouldUpdateConfigMap :: "config_map \<Rightarrow> config_map \<Rightarrow> bool" where
  "shouldUpdateConfigMap expected conf =
     (let expectedConfig = gomap_get (cmData expected) ''config'';
          foundConfig = gomap_get (cmData conf) ''config''
      in if expectedConfig \<noteq> foundConfig then True
         else if expectedConfig \<noteq> foundConfig then True
         else False)"

definition restartManagement :: "'w kube \<Rightarrow> string \<Rightarrow> 'w st \<Rightarrow> (goerr option \<times> 'w st) option" where
  "restartManagement env namespace = restartStatefulSet env namespace mgmtStatefulSetName"

definition updateConfAndRestartMgmt :: "'w kube \<Rightarrow> nvmesh \<Rightarrow> config_map \<Rightarrow> 'w st \<Rightarrow> (goerr option \<times> 'w st) option" where
  "updateConfAndRestartMgmt env cr expected s = do {
     (err, s) \<leftarrow> clientUpdate env (ConfigMap expected) s;
     if err \<noteq> None then Some (err, s) else restartManagement env (crNamespace cr) s
   }"

text \<open>A failed type assertion panics; an error of the restart is only logged.\<close>

definition mgmtShouldUpdateObject ::
  "'w kube \<Rightarrow> nvmesh \<Rightarrow> kobj \<Rightarrow> kobj \<Rightarrow> 'w st \<Rightarrow> ((bool \<times> kobj) \<times> 'w st) option" where
  "mgmtShouldUpdateObject env cr exp obj s =
     (let name = nameOf obj in
      case obj of
        StatefulSet o' \<Rightarrow>
          if name = ''nvmesh-management'' then
            (case exp of
               StatefulSet expected \<Rightarrow> do { b \<leftarrow> shouldUpdateManagementStatefulSet expected o'; Some ((b, exp), s) }
             | _ \<Rightarrow> None)
          else if name = ''mongo'' then
            (case exp of
               StatefulSet expected \<Rightarrow> do { b \<leftarrow> shouldUpdateMongoStatefulSet expected o'; Some ((b, exp), s) }
             | _ \<Rightarrow> None)
          else Some ((False, exp), s)
      | ConfigMap o' \<Rightarrow>
          if name = ''nvmesh-mgmt-config'' then
            (case exp of
               ConfigMap expectedConf \<Rightarrow>
                 if shouldUpdateConfigMap expectedConf o' then do {
                   (_, s) \<leftarrow> updateConfAndRestartMgmt env cr expectedConf s;
                   Some ((False, exp), s)
                 }
                 else Some ((False, exp), s)
             | _ \<Rightarrow> None)
          else Some ((False, exp), s)
      | Service o' \<Rightarrow>
          if name = ''nvmesh-management-gui'' then
            (case exp of
               Service expectedService \<Rightarrow>
                 (case shouldUpdateGuiService expectedService o' of (b, e) \<Rightarrow> Some ((b, Service e), s))
             | _ \<Rightarrow> None)
          else Some ((False, exp), s)
      | _ \<Rightarrow> Some ((False, exp), s))"

definition mgmtComponent :: "'w kube \<Rightarrow> 'w component" where
  "mgmtComponent env = \<lparr>InitObject = mgmtInitObject, ShouldUpdateObject = mgmtShouldUpdateObject env\<rparr>"

section \<open>The database\<close>

text \<open>\<open>FindOne\<close> passes an empty filter to the driver, whatever filter it is given.\<close>

definition FindOne :: "'w kube \<Rightarrow> 'w st \<Rightarrow> ((goerr + hidden_settings) \<times> 'w st) option" where
  "FindOne env = apiCall ReqMongoFind (mongoFindOne env)"

definition UpdateOne :: "'w kube \<Rightarrow> bool \<Rightarrow> bool \<Rightarrow> 'w st \<Rightarrow> (goerr option \<times> 'w st) option" where
  "UpdateOne env autoEvict autoFormat s = do {
     (r, s) \<leftarrow> apiCall (ReqMongoUpdate autoEvict autoFormat) (mongoUpdateOne env autoEvict autoFormat) s;
     case r of
       Inl err \<Rightarrow> Some (Some err, s)
     | Inr matched \<Rightarrow>
         if matched = 0
         then Some (Some (ErrorString ''Failed to update document in collection globalSettings and filter []''), s)
         else Some (None, s)
   }"

definition mongoClose :: "'w kube \<Rightarrow> 'w st \<Rightarrow> (unit \<times> 'w st) option" where
  "mongoClose env = apiCall ReqMongoDisconnect (unitCall (mongoDisconnect env))"

text \<open>The body between the connection and the deferred disconnection.\<close>

definition syncSettings :: "'w kube \<Rightarrow> nvmesh \<Rightarrow> 'w st \<Rightarrow> (goerr option \<times> 'w st) option" where
  "syncSettings env cr s = do {
     (r, s) \<leftarrow> FindOne env s;
     case r of
       Inl err \<Rightarrow> Some (Some err, s)
     | Inr result \<Rightarrow> do {
         (_, s) \<leftarrow> deleteJob env (crNamespace cr) mgmtInitDbJobName s;
         if mgmt_DisableAutoFormatDrives (mgmt cr) \<noteq> (\<not> hs_AutoFormatDrive result)
           \<or> mgmt_DisableAutoEvictMissingDrives (mgmt cr) \<noteq> (\<not> hs_AutoEvictMissingDrive result)
         then do {
           (err, s) \<leftarrow> UpdateOne env (\<not> mgmt_DisableAutoEvictMissingDrives (mgmt cr))
             (\<not> mgmt_DisableAutoFormatDrives (mgmt cr)) s;
           case err of
             Some e \<Rightarrow> Some (Some (WrappedError ''Failed to update autoEvictDrives & autoFormatDrives in MongoDB'' e), s)
           | None \<Rightarrow> do {
               (_, s) \<leftarrow> restartManagement env (crNamespace cr) s;
               Some (None, s)
             }
         }
         else Some (None, s)
       }
   }"

definition handleDBManipulations :: "'w kube \<Rightarrow> nvmesh \<Rightarrow> 'w st \<Rightarrow> (goerr option \<times> 'w st) option" where
  "handleDBManipulations env cr s = do {
     let mongoURI = (if optDevelopment env then ''mongodb://localhost:27017'' else getMongoURI cr);
     (err, s) \<leftarrow> apiCall (ReqMongoConnect mongoURI) (mongoConnect env mongoURI) s;
     case err of
       Some e \<Rightarrow> Some (Some (WrappedError ''Failed to connect to MongoDB'' e), s)
     | None \<Rightarrow> do {
         (err, s) \<leftarrow> syncSettings env cr s;
         (_, s) \<leftarrow> mongoClose env s;
         Some (err, s)
       }
   }"

definition jobContainer :: "(container \<Rightarrow> container) \<Rightarrow> job \<Rightarrow> job option" where
  "jobContainer f j = do {
     containers \<leftarrow> upd_nth 0 f (ps_containers (pt_spec (j_template j)));
     Some (j_template_update (pt_spec_update (ps_containers_update (\<lambda>_. containers))) j)
   }"

definition mgmtInitDBJob :: "nvmesh \<Rightarrow> job option" where
  "mgmtInitDBJob cr =
     jobContainer (\<lambda>c. c\<lparr>c_command := [''mongo''],
         c_args := [getMongoConnectionString cr @ ''/management'', ''/opt/NVMesh/management/initDB.js'']\<rparr>)
       ((getNewJob cr mgmtInitDbJobName (getMgmtImageFromResource cr))\<lparr>j_backoffLimit := Some 1\<rparr>)"

definition runMgmtInitDBJob :: "'w kube \<Rightarrow> nvmesh \<Rightarrow> 'w st \<Rightarrow> (goerr option \<times> 'w st) option" where
  "runMgmtInitDBJob env cr s = do {
     job \<leftarrow> mgmtInitDBJob cr;
     (err, s) \<leftarrow> clientCreate env (Job job) s;
     case err of
       None \<Rightarrow> Some (None, s)
     | Some e \<Rightarrow> Some (if \<not> isAlreadyExists e then Some (WrappedError ''Failed to create iniDB job'' e) else None, s)
   }"

section \<open>The component's reconciliation\<close>

definition deployMongoDB :: "'w kube \<Rightarrow> nvmesh \<Rightarrow> 'w st \<Rightarrow> (goerr option \<times> 'w st) option" where
  "deployMongoDB env cr = createObjectsFromDir env cr (mgmtComponent env) mongoDBAssetsLocation False"

definition removeMongoDB :: "'w kube \<Rightarrow> nvmesh \<Rightarrow> 'w st \<Rightarrow> (goerr option \<times> 'w st) option" where
  "removeMongoDB env cr = removeObjectsFromDir env cr (mgmtComponent env) mongoDBAssetsLocation False"

definition deployManagement :: "'w kube \<Rightarrow> nvmesh \<Rightarrow> 'w st \<Rightarrow> (goerr option \<times> 'w st) option" where
  "deployManagement env cr = createObjectsFromDir env cr (mgmtComponent env) mgmtAssetsLocation True"

definition removeManagement :: "'w kube \<Rightarrow> nvmesh \<Rightarrow> 'w st \<Rightarrow> (goerr option \<times> 'w st) option" where
  "removeManagement env cr = removeObjectsFromDir env cr (mgmtComponent env) mgmtAssetsLocation True"

fun isServerSelectionError :: "goerr \<Rightarrow> bool" where
  "isServerSelectionError (ServerSelectionError _) = True"
| "isServerSelectionError _ = False"

definition mgmtReconcile :: "'w kube \<Rightarrow> nvmesh \<Rightarrow> 'w st \<Rightarrow> ((ctrl_result \<times> goerr option) \<times> 'w st) option" where
  "mgmtReconcile env cr s = do {
     (err, s) \<leftarrow> (if \<not> mgmt_Disabled (mgmt cr) \<and> \<not> mongo_External (mgmt_MongoDB (mgmt cr))
       then deployMongoDB env cr s else removeMongoDB env cr s);
     if err \<noteq> None then Some ((RequeueIn second, err), s)
     else if mgmt_Disabled (mgmt cr) then do {
       (err, s) \<leftarrow> removeObjectsFromDir env cr (mgmtComponent env) mgmtAssetsLocation True s;
       Some ((DoNotRequeue, err), s)
     }
     else do {
       (err, s) \<leftarrow> handleDBManipulations env cr s;
       case err of
         Some e \<Rightarrow>
           if e = ErrNoDocuments then do {
             (err, s) \<leftarrow> runMgmtInitDBJob env cr s;
             Some ((RequeueIn (second * 3), err), s)
           }
           else if isServerSelectionError e then Some ((RequeueIn (second * 5), None), s)
           else Some ((RequeueIn second, Some e), s)
       | None \<Rightarrow> do {
           (err, s) \<leftarrow> createObjectsFromDir env cr (mgmtComponent env) mgmtAssetsLocation True s;
           Some ((DoNotRequeue, err), s)
         }
     }
   }"

section \<open>What a restart may do\<close>

lemma restartAttempt_steps:
  assumes R: "preord R" "allowsReads env R" "allowsUpdates env R"
    and run: "restartAttempt env ns name i (p, s) = Some (e, p', s')"
  shows "R s s'"
proof -
  obtain r s1 where get: "clientGet env ''StatefulSet'' ns name s = Some (r, s1)"
    using run by (auto simp: restartAttempt_def bind_eq_Some)
  have 1: "R s s1" by (rule stepsD [OF allowsReadsD(1) [OF R(2)] get])
  show ?thesis
  proof (cases r)
    case (Inl err)
    with run get 1 show ?thesis by (simp add: restartAttempt_def)
  next
    case (Inr obj)
    show ?thesis
    proof (cases obj)
      case (StatefulSet ss)
      from run [unfolded restartAttempt_def prod.case get bind_Some_conv Inr sum.case StatefulSet kobj.case Let_def]
      obtain now s2 x err where now: "localCall (timeNow env) s1 = Some (now, s2)" and upd: "clientUpdate env x s2 = Some (err, s')"
        by (auto simp only: bind_case_prod_Some option.inject prod.inject)
      from stepsD [OF allowsReadsD(8) [OF R(2)] now] stepsD [OF allowsUpdatesD [OF R(3)] upd] 1
      show ?thesis by (blast intro: preord_trans [OF R(1)])
    qed (use run get Inr in \<open>auto simp: restartAttempt_def\<close>)
  qed
qed

lemma steps_restartStatefulSet:
  assumes R: "preord R" "retries (retryDefaultBackoff env)" "allowsReads env R" "allowsUpdates env R"
  shows "steps R (restartStatefulSet env ns name)"
proof (rule stepsI)
  fix s r s'
  assume "restartStatefulSet env ns name s = Some (r, s')"
  then obtain p where "retryDefaultBackoff env (restartAttempt env ns name) (emptyStatefulSet, s) = Some (r, p, s')"
    by (auto simp: restartStatefulSet_def bind_eq_Some)
  from steps_retry [OF R(2) R(1) _ this] restartAttempt_steps [OF R(1,3,4)] show "R s s'" by blast
qed

section \<open>The contract of the shared loop\<close>

lemmas mgmt_init_defs = mgmtInitObject_def initMgmtStatefulSet_def initMongoStatefulSet_def initClaim_def
  initConfigMap_def initMgmtGuiService_def ssTemplateContainers_def

lemma mgmtInitObject_meta:
  "mgmtInitObject cr x = Some (err, y) \<Longrightarrow> metaOf y = metaOf x \<and> kindOf y = kindOf x"
  by (auto simp: mgmt_init_defs bind_eq_Some Let_def split: kobj.splits if_splits)

lemma mgmtInit_statefulSet:
  assumes "mgmtInitObject cr (StatefulSet ss) = Some (None, y)" and "om_name (ss_meta ss) \<in> {''nvmesh-management'', ''mongo''}"
  obtains ss' c cs where "y = StatefulSet ss'" "ssContainers ss' = c # cs" "ss_meta ss' = ss_meta ss"
    "om_name (ss_meta ss) = ''nvmesh-management'' \<longrightarrow>
       c_image c = getMgmtImageFromResource cr \<and> ss_replicas ss' = Some (mgmt_Replicas (mgmt cr))"
    "om_name (ss_meta ss) = ''mongo'' \<longrightarrow> c_image c = getCoreFullImageName cr mongoInstanceImageName"
proof (cases "om_name (ss_meta ss) = ''nvmesh-management''")
  case True
  with assms obtain ss' c cs where "y = StatefulSet ss'" "ssContainers ss' = c # cs" "ss_meta ss' = ss_meta ss"
    "c_image c = getMgmtImageFromResource cr" "ss_replicas ss' = Some (mgmt_Replicas (mgmt cr))"
    by (force simp: mgmt_init_defs nameOf_def bind_eq_Some Let_def upd_nth_0_Some ssContainers_def addKeepRunningAfterFailureEnvVar_def
        split: if_splits)
  with True show ?thesis by (intro that) simp_all
next
  case False
  with assms obtain ss' c cs where "y = StatefulSet ss'" "ssContainers ss' = c # cs" "ss_meta ss' = ss_meta ss"
    "c_image c = getCoreFullImageName cr mongoInstanceImageName"
    by (force simp: mgmt_init_defs nameOf_def bind_eq_Some Let_def upd_nth_0_Some ssContainers_def split: if_splits)
  with False show ?thesis by (intro that [of ss' c cs]) simp_all
qed

lemma mgmtShouldUpdateObject_meta:
  "mgmtShouldUpdateObject env cr e f s = Some ((b, e'), s') \<Longrightarrow> metaOf e' = metaOf e \<and> kindOf e' = kindOf e"
  by (auto simp: mgmtShouldUpdateObject_def shouldUpdateGuiService_def Let_def bind_eq_Some
      split: kobj.splits if_splits option.splits)

lemma steps_mgmtShouldUpdateObject:
  assumes R: "preord R" "retries (retryDefaultBackoff env)" "allowsReads env R" "allowsUpdates env R"
  shows "steps R (mgmtShouldUpdateObject env cr e f)"
proof -
  have conf: "steps R (updateConfAndRestartMgmt env cr c)" for c
    unfolding updateConfAndRestartMgmt_def restartManagement_def
    by (intro steps_intro steps_restartStatefulSet R allowsUpdatesD [OF R(4)])
  show ?thesis
  proof (rule stepsI)
    fix s r s'
    assume "mgmtShouldUpdateObject env cr e f s = Some (r, s')"
    then have "s' = s \<or> (\<exists>c x. updateConfAndRestartMgmt env cr c s = Some (x, s'))"
      by (auto simp: mgmtShouldUpdateObject_def Let_def bind_eq_Some split: kobj.splits if_splits prod.splits)
    then show "R s s'" using stepsD [OF conf] preord_refl [OF R(1)] by blast
  qed
qed

lemma isStringArraysEqualElements_dict:
  "gomap_ok d \<Longrightarrow>
   map_of (markKeys ks d) = (\<lambda>k. if k \<in> set ks then Some False else map_of d k) \<and> gomap_ok (markKeys ks d)"
  by (induction ks arbitrary: d) (auto simp: update_conv' fun_eq_iff)

lemma findKeys_dict:
  "gomap_ok d \<Longrightarrow>
   (case findKeys ks d of
      None \<Rightarrow> \<not> set ks \<subseteq> dom (map_of d)
    | Some d' \<Rightarrow> set ks \<subseteq> dom (map_of d) \<and> gomap_ok d' \<and>
        map_of d' = (\<lambda>k. if k \<in> set ks then Some True else map_of d k))"
proof (induction ks arbitrary: d)
  case Nil
  then show ?case by simp
next
  case (Cons k ks)
  show ?case
  proof (cases "gomap_has d k")
    case True
    with Cons have "case findKeys ks (AList.update k True d) of
        None \<Rightarrow> \<not> set ks \<subseteq> dom (map_of (AList.update k True d))
      | Some d' \<Rightarrow> set ks \<subseteq> dom (map_of (AList.update k True d)) \<and> gomap_ok d' \<and>
          map_of d' = (\<lambda>j. if j \<in> set ks then Some True else map_of (AList.update k True d) j)"
      by simp
    moreover have "insert k (dom (map_of d)) = dom (map_of d)" using True by (auto simp: gomap_has_def)
    ultimately show ?thesis using True
      by (auto simp: update_conv' gomap_has_def split: option.splits)
  next
    case False
    then show ?thesis by (auto simp: gomap_has_def)
  qed
qed

lemma list_all_map_of: "gomap_ok d \<Longrightarrow> list_all (\<lambda>(k, v). v) d \<longleftrightarrow> (\<forall>k v. map_of d k = Some v \<longrightarrow> v)"
  unfolding gomap_ok_def list_all_iff by (auto dest: map_of_SomeD)

lemma isStringArraysEqualElements_set: "isStringArraysEqualElements a b \<longleftrightarrow> set a = set b"
proof -
  have m: "map_of (markKeys a []) = (\<lambda>k. if k \<in> set a then Some False else None)" and ok: "gomap_ok (markKeys a [])"
    using isStringArraysEqualElements_dict [of "[]" a] by (simp_all add: fun_eq_iff)
  have dom: "dom (map_of (markKeys a [])) = set a" unfolding m by (auto split: if_splits)
  show ?thesis
  proof (cases "findKeys b (markKeys a [])")
    case None
    with findKeys_dict [OF ok, of b] dom show ?thesis by (auto simp: isStringArraysEqualElements_def)
  next
    case (Some d)
    with findKeys_dict [OF ok, of b] dom
    have "set b \<subseteq> set a" "gomap_ok d" and d: "map_of d = (\<lambda>k. if k \<in> set b then Some True else map_of (markKeys a []) k)"
      by simp_all
    moreover have "(\<forall>k v. map_of d k = Some v \<longrightarrow> v) \<longleftrightarrow> set a \<subseteq> set b"
      unfolding d m by auto
    ultimately show ?thesis using Some by (auto simp: isStringArraysEqualElements_def list_all_map_of)
  qed
qed

lemma mgmtShouldUpdateObject_refl:
  assumes init: "mgmtInitObject cr x = Some (None, y)" and g: "\<And>m. om_name (g m) = om_name m"
  shows "\<exists>e'. mgmtShouldUpdateObject env cr (mapMeta g y) (mapMeta g y) s = Some ((False, e'), s)"
proof (cases x)
  case (StatefulSet ss)
  show ?thesis
  proof (cases "om_name (ss_meta ss) \<in> {''nvmesh-management'', ''mongo''}")
    case True
    obtain ss' c cs where y: "y = StatefulSet ss'" and c: "ssContainers ss' = c # cs"
      and m: "ss_meta ss' = ss_meta ss"
      and r: "om_name (ss_meta ss) = ''nvmesh-management'' \<longrightarrow>
         c_image c = getMgmtImageFromResource cr \<and> ss_replicas ss' = Some (mgmt_Replicas (mgmt cr))"
      by (rule mgmtInit_statefulSet [OF init [unfolded StatefulSet] True]) (rule that; assumption)
    let ?g = "ss_meta_update g ss'"
    have "shouldUpdateMongoStatefulSet ?g ?g = Some False"
      using c by (simp add: shouldUpdateMongoStatefulSet_def ssContainers_def fieldsDiffer_statefulSet_image fieldsDiffer_Nil)
    moreover have "shouldUpdateManagementStatefulSet ?g ?g = Some False" if "om_name (ss_meta ss) = ''nvmesh-management''"
      using c r that
      by (simp add: shouldUpdateManagementStatefulSet_def ssContainers_def fieldsDiffer_statefulSet_image
          fieldsDiffer_replicas fieldsDiffer_Nil)
    ultimately show ?thesis using y m by (simp add: mgmtShouldUpdateObject_def Let_def nameOf_def g)
  next
    case False
    with init StatefulSet have "y = StatefulSet ss" by (simp add: mgmtInitObject_def nameOf_def)
    with False show ?thesis by (simp add: mgmtShouldUpdateObject_def nameOf_def g)
  qed
next
  case (ConfigMap cm)
  with mgmtInitObject_meta [OF init] obtain cm' where "y = ConfigMap cm'"
    using init by (auto simp: mgmtInitObject_def Let_def bind_eq_Some split: if_splits)
  then show ?thesis by (simp add: mgmtShouldUpdateObject_def Let_def shouldUpdateConfigMap_def)
next
  case (Service svc)
  with init obtain svc' where y: "y = Service svc'"
    by (auto simp: mgmtInitObject_def Let_def split: if_splits prod.splits)
  have "\<not> fst (shouldUpdateGuiService svc' svc')" for svc'
    by (simp add: shouldUpdateGuiService_def Let_def isStringArraysEqualElements_set split: option.splits)
  then obtain e where "shouldUpdateGuiService (svc_meta_update g svc') (svc_meta_update g svc') = (False, e)"
    by (metis prod.collapse)
  with y show ?thesis by (simp add: mgmtShouldUpdateObject_def Let_def)
qed (use init in \<open>auto simp: mgmtInitObject_def mgmtShouldUpdateObject_def\<close>)

interpretation mgmtc: steady_component env "mgmtComponent env" for env :: "'w kube"
proof unfold_locales
  fix cr x err y
  assume "InitObject (mgmtComponent env) cr x = Some (err, y)"
  then show "metaOf y = metaOf x \<and> kindOf y = kindOf x"
    by (simp add: mgmtComponent_def mgmtInitObject_meta)
next
  fix cr e f s b e' s'
  assume "ShouldUpdateObject (mgmtComponent env) cr e f s = Some ((b, e'), s')"
  then show "metaOf e' = metaOf e \<and> kindOf e' = kindOf e"
    by (auto simp: mgmtComponent_def dest!: mgmtShouldUpdateObject_meta)
next
  fix R :: "'w st \<Rightarrow> 'w st \<Rightarrow> bool" and cr e f
  assume "preord R" "retries (retryDefaultBackoff env)" "allowsReads env R" "allowsUpdates env R"
  then show "steps R (ShouldUpdateObject (mgmtComponent env) cr e f)"
    by (simp add: mgmtComponent_def steps_mgmtShouldUpdateObject)
next
  fix cr x y s and g :: "obj_meta \<Rightarrow> obj_meta"
  assume "InitObject (mgmtComponent env) cr x = Some (None, y)" and "\<And>m. om_name (g m) = om_name m"
  then show "\<exists>e'. ShouldUpdateObject (mgmtComponent env) cr (mapMeta g y) (mapMeta g y) s = Some ((False, e'), s)"
    using mgmtShouldUpdateObject_refl [of cr x y g] by (simp add: mgmtComponent_def)
qed

section \<open>Properties\<close>

text \<open>The comparison of two string slices by a map of marks is equality of the sets of their
  elements.\<close>

theorem isStringArraysEqualElements_iff:
  "isStringArraysEqualElements a b = (set a = set b)"
  by (rule isStringArraysEqualElements_set)



text \<open>C28: While the database is empty, no object of the management directory is deployed: the
  reconciliation asks for the initialisation job instead and comes back in three seconds.\<close>

theorem mgmtReconcile_waits_for_db:
  assumes "\<not> mgmt_Disabled (mgmt cr)"
    and "(if mongo_External (mgmt_MongoDB (mgmt cr)) then removeMongoDB env cr else deployMongoDB env cr) s = Some (None, s1)"
    and "handleDBManipulations env cr s1 = Some (Some ErrNoDocuments, s2)"
  shows "\<exists>job err w. mgmtInitDBJob cr = Some job \<and> j_backoffLimit job = Some 1 \<and>
    kCreate env (Job job) (world s2) = (err, w) \<and>
    mgmtReconcile env cr s = Some ((RequeueIn (second * 3),
        if realError isAlreadyExists err then map_option (WrappedError ''Failed to create iniDB job'') err else None),
      s2\<lparr>world := w, reqs := reqs s2 @ [ReqCreate (Job job)]\<rparr>)"
proof -
  obtain job where job: "mgmtInitDBJob cr = Some job" "j_backoffLimit job = Some 1"
    by (simp add: mgmtInitDBJob_def jobContainer_def getNewJob_def Let_def)
  obtain err w where "kCreate env (Job job) (world s2) = (err, w)" by (metis surj_pair)
  moreover from this job have "runMgmtInitDBJob env cr s2 =
      Some (if realError isAlreadyExists err then map_option (WrappedError ''Failed to create iniDB job'') err else None,
        s2\<lparr>world := w, reqs := reqs s2 @ [ReqCreate (Job job)]\<rparr>)"
    by (cases err) (simp_all add: runMgmtInitDBJob_def clientCreate_def apiCall_def)
  ultimately show ?thesis using job assms
    by (intro exI [of _ job] exI [of _ err] exI [of _ w])
      (cases "mongo_External (mgmt_MongoDB (mgmt cr))"; simp add: mgmtReconcile_def)
qed

theorem mgmtReconcile_waits_for_db_witness:
  "\<exists>s'. mgmtReconcile plainKube sampleCR (memState emptyMem) = Some ((RequeueIn (second * 3), None), s') \<and>
     length (m_objs (world s')) = 1"
proof -
  have "deployMongoDB plainKube sampleCR (memState emptyMem) = Some (None, memState emptyMem)"
    by (simp add: plainKube_def deployMongoDB_def createObjectsFromDir_def reconcileYamlObjectsFromDir_def listFilesInDir_def
        localCall_def memKube_def memState_def)
  then have d: "(if mongo_External (mgmt_MongoDB (mgmt sampleCR)) then removeMongoDB plainKube sampleCR
      else deployMongoDB plainKube sampleCR) (memState emptyMem) = Some (None, memState emptyMem)"
    by (simp add: sampleCR_def zeroNVMesh_def)
  obtain s2 where h: "handleDBManipulations plainKube sampleCR (memState emptyMem) = Some (Some ErrNoDocuments, s2)"
    and w: "world s2 = emptyMem"
    by (simp add: plainKube_def handleDBManipulations_def syncSettings_def FindOne_def mongoClose_def unitCall_def
        apiCall_def memKube_def memState_def emptyMem_def)
  from mgmtReconcile_waits_for_db [OF _ d h]
  obtain job err v where "kCreate plainKube (Job job) (world s2) = (err, v)"
    "mgmtReconcile plainKube sampleCR (memState emptyMem) = Some ((RequeueIn (second * 3),
        if realError isAlreadyExists err then map_option (WrappedError ''Failed to create iniDB job'') err else None),
      s2\<lparr>world := v, reqs := reqs s2 @ [ReqCreate (Job job)]\<rparr>)"
    by (auto simp: sampleCR_def zeroNVMesh_def)
  with w show ?thesis by (auto simp: plainKube_def memCreate_def memHas_def emptyMem_def)
qed

end
