(* ===== verification/CollectLogs.thy ===== *)
theory CollectLogs
  imports TaskStatus ClusterNodes MgmtController
begin

text \<open>
  pkg/controllers/collect_logs.go: the action that runs jobs on the nodes which collect the logs, the
  database and the configuration. Its five tasks go on across reconciliation cycles through the task
  statuses in the resource, which is passed in and returned.
\<close>

definition collectLogsImageName :: string where "collectLogsImageName = ''nvmesh-logs-collector''"
definition collectDbJobName :: string where "collectDbJobName = ''collect-db''"
definition collectConfigMapsJobName :: string where "collectConfigMapsJobName = ''collect-config-maps''"
definition collectLogsJobName :: string where "collectLogsJobName = ''collect-logs''"
definition collectDBStage :: string where "collectDBStage = ''CollectDB''"
definition collectConfigMapsStage :: string where "collectConfigMapsStage = ''CollectConfigMaps''"
definition collectLogsStage :: string where "collectLogsStage = ''CollectLogs''"
definition waitForJobsToFinish :: string where "waitForJobsToFinish = ''waitForJobsToFinish''"
definition deleteJobsStage :: string where "deleteJobsStage = ''DeleteJobs''"
definition mgmtConfigMapName :: string where "mgmtConfigMapName = ''nvmesh-mgmt-config''"
definition nvmeshConfigMapName :: string where "nvmeshConfigMapName = ''nvmesh-core-config''"
definition csiConfigMapName :: string where "csiConfigMapName = ''nvmesh-csi-config''"
definition s3bucketSecretName :: string where "s3bucketSecretName = ''s3-bucket-secrets''"
definition logsSavePath :: string where "logsSavePath = ''/opt/nvmesh-operator/logs''"

section \<open>The jobs\<close>

definition getNVMeshClusterName :: "nvmesh \<Rightarrow> string" where
  "getNVMeshClusterName cr = crNamespace cr @ ''_'' @ crName cr"

definition plainEnv :: "string \<Rightarrow> string \<Rightarrow> env_var" where
  "plainEnv name value = \<lparr>ev_name = name, ev_value = value, ev_valueFrom = None\<rparr>"

definition addClusterNameEnvVar :: "nvmesh \<Rightarrow> container \<Rightarrow> container" where
  "addClusterNameEnvVar cr c = c\<lparr>c_env := c_env c @ [plainEnv ''CLUSTER_NAME'' (getNVMeshClusterName cr)]\<rparr>"

definition addS3CredentialsEnvVar :: "string \<Rightarrow> container \<Rightarrow> container" where
  "addS3CredentialsEnvVar bucketName c = c\<lparr>c_env := c_env c @
     [\<lparr>ev_name = ''S3_KEY_ID'', ev_value = '''', ev_valueFrom = Some (SecretKeyRef s3bucketSecretName ''AWS_ACCESS_KEY_ID'')\<rparr>,
      \<lparr>ev_name = ''S3_KEY_SECRET'', ev_value = '''', ev_valueFrom = Some (SecretKeyRef s3bucketSecretName ''AWS_SECRET_ACCESS_KEY'')\<rparr>,
      plainEnv ''S3_BUCKET_NAME'' bucketName]\<rparr>"

definition getCollectJogImageName :: "nvmesh \<Rightarrow> string" where
  "getCollectJogImageName cr = getCoreFullImageName cr collectLogsImageName"

text \<open>The end of each of the three functions that build a container: the S3 upload and the debug flag.\<close>

definition uploadAndDebug :: "nvmesh \<Rightarrow> cluster_action \<Rightarrow> container \<Rightarrow> container" where
  "uploadAndDebug cr action c =
     (let c = (case getActionArg action ''upload-to-s3'' of
            (bucketName, ok) \<Rightarrow>
              if ok then addS3CredentialsEnvVar bucketName (c\<lparr>c_args := c_args c @ [''--upload-to-s3'']\<rparr>) else c)
      in if dbg_CollectLogsJobsRunForever (debug cr) then c\<lparr>c_args := c_args c @ [''--debug'']\<rparr> else c)"

definition collectDBJob :: "nvmesh \<Rightarrow> cluster_action \<Rightarrow> job option" where
  "collectDBJob cr action =
     onPodSpec (\<lambda>ps. do {
       let ps = ps\<lparr>ps_terminationGracePeriodSeconds := Some 1, ps_serviceAccountName := getClusterServiceAccountName cr\<rparr>;
       ps \<leftarrow> onContainer0 (\<lambda>c.
         let c = c\<lparr>c_command := [''sudo''], c_args := [''-E'', ''/init.sh'', ''--db-dump''],
               c_env := [plainEnv ''MONGO_URI'' (''mongodb://'' @ getMongoConnectionString cr @ ''/management'')]\<rparr>
         in uploadAndDebug cr action (addClusterNameEnvVar cr (setContainerAsPrivileged c))) ps;
       addHostPathMount 0 logsSavePath ps
     }) (getNewJob cr collectDbJobName (getCollectJogImageName cr))"

definition collectConfigMapsJob :: "nvmesh \<Rightarrow> cluster_action \<Rightarrow> job option" where
  "collectConfigMapsJob cr action =
     onPodSpec (\<lambda>ps. do {
       let ps = ps\<lparr>ps_terminationGracePeriodSeconds := Some 1, ps_serviceAccountName := getClusterServiceAccountName cr\<rparr>;
       ps \<leftarrow> onContainer0 (\<lambda>c.
         let c = c\<lparr>c_command := [''/bin/bash''], c_args := [''-c'', ''/init.sh --config-maps'']\<rparr>
         in uploadAndDebug cr action (addClusterNameEnvVar cr (setContainerAsPrivileged c))) ps;
       ps \<leftarrow> addHostPathMount 0 logsSavePath ps;
       ps \<leftarrow> addConfigMapMount 0 mgmtConfigMapName (''/config-maps/'' @ mgmtConfigMapName) ps;
       ps \<leftarrow> addConfigMapMount 0 nvmeshConfigMapName (''/config-maps/'' @ nvmeshConfigMapName) ps;
       addConfigMapMount 0 csiConfigMapName (''/config-maps/'' @ csiConfigMapName) ps
     }) (getNewJob cr collectConfigMapsJobName (getCollectJogImageName cr))"

definition collectLogsJobFor :: "string \<Rightarrow> string" where
  "collectLogsJobFor name = collectLogsJobName @ ''-'' @ sanitizeString name"

definition collectLogsJob :: "nvmesh \<Rightarrow> cluster_action \<Rightarrow> string \<Rightarrow> job option" where
  "collectLogsJob cr action name =
     onPodSpec (\<lambda>ps. do {
       let ps = ps\<lparr>ps_hostNetwork := True, ps_hostPID := True, ps_serviceAccountName := getClusterServiceAccountName cr\<rparr>;
       ps \<leftarrow> onContainer0 (\<lambda>c.
         let c = c\<lparr>c_command := [''sudo''], c_args := [''-E'', ''/init.sh'', ''--node-logs'']\<rparr>
         in uploadAndDebug cr action (addClusterNameEnvVar cr (setContainerAsPrivileged c))) ps;
       ps \<leftarrow> addHostPathMount 0 ''/var/opt/NVMesh'' ps;
       ps \<leftarrow> addHostPathMount 0 ''/var/log/NVMesh'' ps;
       ps \<leftarrow> addHostPathMount 0 ''/opt/NVMesh'' ps;
       ps \<leftarrow> addHostPathMount 0 logsSavePath ps;
       Some (ps\<lparr>ps_nodeSelector := matchNode name\<rparr>)
     }) (getNewJob cr (collectLogsJobFor name) (getCollectJogImageName cr))"

definition runCollectDBJob :: "'w kube \<Rightarrow> nvmesh \<Rightarrow> cluster_action \<Rightarrow> 'w st \<Rightarrow> (goerr option \<times> 'w st) option" where
  "runCollectDBJob env cr action s = do {
     job \<leftarrow> collectDBJob cr action;
     createJob env (''Failed to create '' @ om_name (j_meta job)) job s
   }"

definition runCollectConfigMapsJob :: "'w kube \<Rightarrow> nvmesh \<Rightarrow> cluster_action \<Rightarrow> 'w st \<Rightarrow> (goerr option \<times> 'w st) option" where
  "runCollectConfigMapsJob env cr action s = do {
     job \<leftarrow> collectConfigMapsJob cr action;
     createJob env (''Failed to create '' @ om_name (j_meta job)) job s
   }"

definition createCollectLogsJob ::
  "'w kube \<Rightarrow> nvmesh \<Rightarrow> cluster_action \<Rightarrow> string \<Rightarrow> 'w st \<Rightarrow> (goerr option \<times> 'w st) option" where
  "createCollectLogsJob env cr action name s = do {
     job \<leftarrow> collectLogsJob cr action name;
     createJob env (''Failed to create '' @ collectLogsJobFor name @ '' on node '' @ name) job s
   }"

text \<open>Whether to remove the action, and the result of the cycle.\<close>

type_synonym action_result = "bool \<times> ctrl_result \<times> goerr option"

section \<open>The loops over the nodes\<close>

fun createCollectLogsJobs ::
  "'w kube \<Rightarrow> nvmesh \<Rightarrow> cluster_action \<Rightarrow> node list \<Rightarrow> 'w st \<Rightarrow> (goerr option \<times> 'w st) option" where
  "createCollectLogsJobs env cr action [] s = Some (None, s)"
| "createCollectLogsJobs env cr action (n # ns) s = do {
     (err, s) \<leftarrow> createCollectLogsJob env cr action (nodeName n) s;
     if err \<noteq> None then Some (err, s) else createCollectLogsJobs env cr action ns s
   }"

text \<open>None when every job is finished, else what the action returns.\<close>

fun waitCollectLogsJobs ::
  "'w kube \<Rightarrow> nvmesh \<Rightarrow> node list \<Rightarrow> 'w st \<Rightarrow> (action_result option \<times> 'w st) option" where
  "waitCollectLogsJobs env cr [] s = Some (None, s)"
| "waitCollectLogsJobs env cr (n # ns) s = do {
     ((res, err), s) \<leftarrow> waitForJobToFinish env cr (collectLogsJobFor (nodeName n)) s;
     if Requeue res \<or> err \<noteq> None then Some (Some (False, res\<lparr>RequeueAfter := second * 3\<rparr>, err), s)
     else waitCollectLogsJobs env cr ns s
   }"

text \<open>Waiting for one of the two single jobs.\<close>

definition waitSingle :: "'w kube \<Rightarrow> nvmesh \<Rightarrow> string \<Rightarrow> 'w st \<Rightarrow> (action_result option \<times> 'w st) option" where
  "waitSingle env cr jobName s = do {
     ((res, err), s) \<leftarrow> waitForJobToFinish env cr jobName s;
     if err \<noteq> None then Some (Some (False, res, err), s)
     else if Requeue res then Some (Some (False, res\<lparr>RequeueAfter := second * 3\<rparr>, err), s)
     else Some (None, s)
   }"

fun deleteNodeJobs :: "'w kube \<Rightarrow> nvmesh \<Rightarrow> (string \<Rightarrow> string) \<Rightarrow> node list \<Rightarrow> 'w st \<Rightarrow> (goerr option \<times> 'w st) option" where
  "deleteNodeJobs env cr jobFor [] s = Some (None, s)"
| "deleteNodeJobs env cr jobFor (n # ns) s = do {
     (err, s) \<leftarrow> deleteJob env (crNamespace cr) (jobFor (nodeName n)) s;
     if err \<noteq> None then Some (err, s) else deleteNodeJobs env cr jobFor ns s
   }"

definition deleteCollectLogJobs :: "'w kube \<Rightarrow> nvmesh \<Rightarrow> node list \<Rightarrow> 'w st \<Rightarrow> (goerr option \<times> 'w st) option" where
  "deleteCollectLogJobs env cr nodeList s = do {
     (err, s) \<leftarrow> deleteJob env (crNamespace cr) collectDbJobName s;
     if err \<noteq> None then Some (err, s)
     else do {
       (err, s) \<leftarrow> deleteJob env (crNamespace cr) collectConfigMapsJobName s;
       if err \<noteq> None then Some (err, s) else deleteNodeJobs env cr collectLogsJobFor nodeList s
     }
   }"

section \<open>The action\<close>

definition failing :: "goerr option \<Rightarrow> action_result option" where
  "failing err = (case err of None \<Rightarrow> None | Some e \<Rightarrow> Some (False, DoNotRequeue, Some e))"

definition waitAll :: "'w kube \<Rightarrow> node list \<Rightarrow> nvmesh \<Rightarrow> 'w st \<Rightarrow> (action_result option \<times> 'w st) option" where
  "waitAll env nodeList cr s = do {
     (early, s) \<leftarrow> waitSingle env cr collectDbJobName s;
     if early \<noteq> None then Some (early, s)
     else do {
       (early, s) \<leftarrow> waitSingle env cr collectConfigMapsJobName s;
       if early \<noteq> None then Some (early, s) else waitCollectLogsJobs env cr nodeList s
     }
   }"

definition deleteTask :: "'w kube \<Rightarrow> node list \<Rightarrow> nvmesh \<Rightarrow> 'w st \<Rightarrow> (action_result option \<times> 'w st) option" where
  "deleteTask env nodeList cr s = do {
     (err, s) \<leftarrow> deleteCollectLogJobs env cr nodeList s;
     Some (if realError isNotFound err then Some (False, RequeueIn second, err) else None, s)
   }"

text \<open>The nodes: those of the cluster and the ones labelled for the management.\<close>

definition collectNodes :: "'w kube \<Rightarrow> nvmesh \<Rightarrow> 'w st \<Rightarrow> ((goerr + node list) \<times> 'w st) option" where
  "collectNodes env cr s = do {
     (r, s) \<leftarrow> getAllNVMeshClusterNodes env s;
     case r of
       Inl err \<Rightarrow> Some (Inl (WrappedError (''Failed to list all of the nodes in NVMesh Cluster '' @ crName cr) err), s)
     | Inr nodeSet \<Rightarrow> do {
         (r, s) \<leftarrow> getAllMgmtLabelledNodes env s;
         case r of
           Inl err \<Rightarrow> Some (Inl (WrappedError (''Failed to list nodes with label '' @ nvmeshMgmtLabelKey) err), s)
         | Inr mgmtLabeledNodes \<Rightarrow> do {
             (nodeList, s) \<leftarrow> nodeSetToList env (addNewNodes mgmtLabeledNodes nodeSet) s;
             Some (Inr nodeList, s)
           }
       }
   }"

definition handleCollectLogs :: "'w kube \<Rightarrow> nvmesh \<Rightarrow> cluster_action \<Rightarrow> 'w st \<Rightarrow> ((action_result \<times> nvmesh) \<times> 'w st) option" where
  "handleCollectLogs env cr a s =
     runTask a collectDBStage
       (\<lambda>cr s. do { (err, s) \<leftarrow> runCollectDBJob env cr a s; Some (failing err, s) })
       (runTask a collectConfigMapsStage
         (\<lambda>cr s. do { (err, s) \<leftarrow> runCollectConfigMapsJob env cr a s; Some (failing err, s) })
         (\<lambda>cr s. do {
            (r, s) \<leftarrow> collectNodes env cr s;
            case r of
              Inl err \<Rightarrow> Some (((False, DoNotRequeue, Some err), cr), s)
            | Inr nodeList \<Rightarrow>
                runTask a collectLogsStage
                  (\<lambda>cr s. do { (err, s) \<leftarrow> createCollectLogsJobs env cr a nodeList s; Some (failing err, s) })
                  (runTask a waitForJobsToFinish (waitAll env nodeList)
                    (runTask a deleteJobsStage (deleteTask env nodeList)
                      (\<lambda>cr s. Some (((True, DoNotRequeue, None), setActionComplete cr a), s)))) cr s
          })) cr s"

section \<open>Properties\<close>

definition collectStages :: "string list" where
  "collectStages = [collectDBStage, collectConfigMapsStage, collectLogsStage, waitForJobsToFinish, deleteJobsStage]"

lemmas collect_stage_defs = collectStages_def collectDBStage_def collectConfigMapsStage_def collectLogsStage_def
  waitForJobsToFinish_def deleteJobsStage_def

text \<open>A task that ends the action early says so by an error or by asking for another cycle.\<close>

definition notYet :: "action_result \<Rightarrow> bool" where
  "notYet r \<longleftrightarrow> (case r of (remove, res, err) \<Rightarrow> \<not> remove \<and> (Requeue res \<or> err \<noteq> None))"

lemma failing_notYet: "failing err = Some r \<Longrightarrow> notYet r"
  by (auto simp: failing_def notYet_def split: option.splits)

lemma waitSingle_notYet: "waitSingle env cr j s = Some (Some r, s') \<Longrightarrow> notYet r"
  by (auto simp: waitSingle_def notYet_def bind_eq_Some split: if_splits)

lemma waitCollectLogsJobs_notYet: "waitCollectLogsJobs env cr ns s = Some (Some r, s') \<Longrightarrow> notYet r"
  by (induction ns arbitrary: s) (auto simp: notYet_def bind_eq_Some split: if_splits)

lemma waitAll_notYet: "waitAll env ns cr s = Some (Some r, s') \<Longrightarrow> notYet r"
  by (auto simp: waitAll_def bind_case_prod_Some split: if_splits dest: waitSingle_notYet waitCollectLogsJobs_notYet)

lemma deleteTask_notYet: "deleteTask env ns cr s = Some (Some r, s') \<Longrightarrow> notYet r"
  by (auto simp: deleteTask_def notYet_def bind_case_prod_Some split: if_splits)

lemma handleCollectLogs_progress:
  "progress a collectStages notYet (\<lambda>r. r = (True, DoNotRequeue, None) \<or> notYet r) 0 (\<lambda>cr. handleCollectLogs env cr a)"
proof -
  let ?P = "progress a collectStages notYet (\<lambda>r :: action_result. r = (True, DoNotRequeue, None) \<or> notYet r)"
  have d: "distinct collectStages" by (simp add: collect_stage_defs)
  have stages: "k < length collectStages" if "k < 5" for k using that by (simp add: collectStages_def)
  have names: "collectDBStage = collectStages ! 0" "collectConfigMapsStage = collectStages ! Suc 0"
    "collectLogsStage = collectStages ! Suc (Suc 0)" "waitForJobsToFinish = collectStages ! Suc (Suc (Suc 0))"
    "deleteJobsStage = collectStages ! Suc (Suc (Suc (Suc 0)))"
    by (simp_all add: collectStages_def)
  note task = progress_runTask [OF d stages]
  have finish: "?P (Suc (Suc (Suc (Suc (Suc 0))))) (\<lambda>cr s. Some (((True, DoNotRequeue, None), setActionComplete cr a), s))"
    by (rule progress_complete) (simp_all add: collect_stage_defs actionComplete_def)
  have create: "(do { (err, s) \<leftarrow> f s; Some (failing err, s) }) = Some (Some r, s') \<Longrightarrow> notYet r"
    for f :: "'a st \<Rightarrow> (goerr option \<times> 'a st) option" and s r s'
    by (auto simp: bind_case_prod_Some dest: failing_notYet)
  have last3: "?P (Suc (Suc 0)) (runTask a collectLogsStage
      (\<lambda>cr s. do { (err, s) \<leftarrow> createCollectLogsJobs env cr a nodeList s; Some (failing err, s) })
      (runTask a waitForJobsToFinish (waitAll env nodeList)
        (runTask a deleteJobsStage (deleteTask env nodeList)
          (\<lambda>cr s. Some (((True, DoNotRequeue, None), setActionComplete cr a), s)))))" for nodeList
    by (intro task names finish) (simp_all, (blast dest: create waitAll_notYet deleteTask_notYet)+)
  show ?thesis
    unfolding handleCollectLogs_def
    by (intro task names progress_rules last3) (simp_all add: notYet_def [of "(_, _, Some _)"], (blast dest: create)+)
qed

lemma handleCollectLogs_keepsStatusOk: "keepsStatusOk (\<lambda>cr. handleCollectLogs env cr a)"
proof -
  have last: "keepsStatusOk (\<lambda>cr s. Some (((True, DoNotRequeue, None), setActionComplete cr a), s))"
    by (simp add: keepsStatusOk_def)
  show ?thesis
    unfolding handleCollectLogs_def [abs_def] by (intro keepsStatusOk_runTask keepsStatusOk_rules last)
qed

text \<open>C12: Collecting logs never undoes a finished task: when the first \<open>n\<close> of its five tasks are
  finished, afterwards the first \<open>m\<close> are, with \<open>m\<close> at least \<open>n\<close>; the action is removed
  only when all five are, and when it is not, an error or a request for another cycle says why.\<close>

theorem handleCollectLogs_tasks:
  assumes "tasksDone a collectStages n cr" and "handleCollectLogs env cr a s = Some (((remove, res, err), cr'), s')"
  shows "\<exists>m\<ge>n. tasksDone a collectStages m cr' \<and> cr_ObjectMeta cr' = cr_ObjectMeta cr \<and>
    (if remove then m = 5 \<and> res = DoNotRequeue \<and> err = None else Requeue res \<or> err \<noteq> None)"
  using progressD [OF handleCollectLogs_progress assms(1) _ assms(2)]
  by (auto simp: notYet_def collectStages_def split: if_splits)

definition collectAction :: cluster_action where
  "collectAction = \<lparr>act_Name = ''collect-logs'', act_Args = None\<rparr>"

text \<open>A server that refuses to create anything.\<close>

definition refusingKube :: "mem kube" where
  "refusingKube = plainKube\<lparr>kCreate := (\<lambda>x w. (Some (ErrorString ''refused''), w))\<rparr>"

theorem handleCollectLogs_tasks_witness:
  "tasksDone collectAction collectStages 0 sampleCR \<and>
   (\<exists>err cr' s'. handleCollectLogs refusingKube sampleCR collectAction (memState emptyMem) = Some (((False, DoNotRequeue, Some err), cr'), s') \<and>
      (\<exists>m. tasksDone collectAction collectStages m cr'))"
proof -
  have t: "tasksDone collectAction collectStages 0 sampleCR"
    by (simp add: tasksDone_def finished_def taskStatus_def actionsStatus_def sampleCR_def zeroNVMesh_def taskFinished_def)
  have job: "\<exists>job. collectDBJob cr a = Some job" for cr a
    by (simp add: collectDBJob_def onPodSpec_def onContainer0_def getNewJob_def Let_def addHostPathMount_def mountVolume_def
        logsSavePath_def)
  have "\<not> finished collectAction sampleCR collectDBStage"
    by (simp add: finished_def taskStatus_def actionsStatus_def sampleCR_def zeroNVMesh_def taskFinished_def)
  moreover obtain job where
    "collectDBJob (setTaskStarted (snd (isTaskFinished sampleCR collectAction collectDBStage)) collectAction collectDBStage) collectAction = Some job"
    using job by blast
  ultimately obtain err cr' s' where
    r: "handleCollectLogs refusingKube sampleCR collectAction (memState emptyMem) = Some (((False, DoNotRequeue, Some err), cr'), s')"
    by (simp add: handleCollectLogs_def runTask_def case_prod_beta runCollectDBJob_def createJob_def clientCreate_def apiCall_def
        refusingKube_def failing_def)
  with handleCollectLogs_tasks [OF t r] t show ?thesis by blast
qed

end
