(* ===== verification/Actions.thy ===== *)
theory Actions
  imports CollectLogs
begin

text \<open>
  The rest of pkg/controllers/nvmesh_actions.go: running the actions listed in the resource, removing
  the completed ones from it, and removing the statuses of actions that are gone.
\<close>

definition hasActions :: "nvmesh \<Rightarrow> bool" where
  "hasActions cr \<longleftrightarrow> length (spec_Actions (cr_Spec cr)) > 0"

definition zeroAction :: cluster_action where
  "zeroAction = \<lparr>act_Name = '''', act_Args = None\<rparr>"

text \<open>The loop over the actions that fills \<open>newList\<close>; an index out of range panics.\<close>

fun removeLoop :: "nat \<Rightarrow> nat \<Rightarrow> cluster_action list \<Rightarrow> cluster_action list \<Rightarrow> cluster_action list option" where
  "removeLoop i indexToRemove [] newList = Some newList"
| "removeLoop i indexToRemove (item # items) newList = do {
     newList \<leftarrow> (if i < indexToRemove then upd_nth i (\<lambda>_. item) newList else Some newList);
     newList \<leftarrow> (if i > indexToRemove then upd_nth (i - 1) (\<lambda>_. item) newList else Some newList);
     removeLoop (Suc i) indexToRemove items newList
   }"

text \<open>\<open>make\<close> panics on the negative length.\<close>

definition removeAction :: "nat \<Rightarrow> nvmesh \<Rightarrow> nvmesh option" where
  "removeAction indexToRemove cr =
     (let actions = spec_Actions (cr_Spec cr) in
      if actions = [] then None
      else do {
        newList \<leftarrow> removeLoop 0 indexToRemove actions (replicate (length actions - 1) zeroAction);
        Some (cr_Spec_update (spec_Actions_update (\<lambda>_. newList)) cr)
      })"

definition updateNVMeshClusterObject :: "'w kube \<Rightarrow> nvmesh \<Rightarrow> 'w st \<Rightarrow> ((goerr option \<times> nvmesh) \<times> 'w st) option" where
  "updateNVMeshClusterObject env cr s = do {
     (r, s) \<leftarrow> clientUpdateCR env cr s;
     Some (case r of Inl err \<Rightarrow> (if isNotFound err then None else Some err, cr) | Inr cr \<Rightarrow> (None, cr), s)
   }"

definition handleAction :: "'w kube \<Rightarrow> cluster_action \<Rightarrow> nvmesh \<Rightarrow> 'w st \<Rightarrow> ((action_result \<times> nvmesh) \<times> 'w st) option" where
  "handleAction env action cr s =
     (if act_Name action = ''collect-logs'' then handleCollectLogs env cr action s
      else Some (((False, DoNotRequeue, Some (ErrorString (''Unknown Action '' @ act_Name action))), cr), s))"

definition removeCompleted :: "'w kube \<Rightarrow> nat \<Rightarrow> bool \<Rightarrow> nvmesh \<Rightarrow> 'w st \<Rightarrow> (nvmesh \<times> 'w st) option" where
  "removeCompleted env actionIndex shouldRemove cr s =
     (if shouldRemove then do {
        cr \<leftarrow> removeAction actionIndex cr;
        ((_, cr), s) \<leftarrow> updateNVMeshClusterObject env cr s;
        Some (cr, s)
      }
      else Some (cr, s))"

text \<open>The loop over the actions listed at its start, while the list in the resource shrinks.\<close>

fun handlePending ::
  "'w kube \<Rightarrow> nat \<Rightarrow> cluster_action list \<Rightarrow> nvmesh \<Rightarrow> 'w st \<Rightarrow> (((ctrl_result \<times> goerr option) \<times> nvmesh) \<times> 'w st) option" where
  "handlePending env actionIndex [] cr s = Some (((DoNotRequeue, None), cr), s)"
| "handlePending env actionIndex (action # actions) cr s = do {
     (((shouldRemove, result, err), cr), s) \<leftarrow> handleAction env action cr s;
     (cr, s) \<leftarrow> removeCompleted env actionIndex shouldRemove cr s;
     if Requeue result then do {
       ((_, cr), s) \<leftarrow> UpdateStatus env cr s;
       Some (((result, err), cr), s)
     }
     else if err \<noteq> None then Some (((result, err), cr), s)
     else handlePending env (Suc actionIndex) actions cr s
   }"

definition handleActions :: "'w kube \<Rightarrow> nvmesh \<Rightarrow> 'w st \<Rightarrow> (((ctrl_result \<times> goerr option) \<times> nvmesh) \<times> 'w st) option" where
  "handleActions env cr s =
     (let pendingActions = spec_Actions (cr_Spec cr) in
      if length pendingActions > 0 then handlePending env 0 pendingActions cr s
      else Some (((DoNotRequeue, None), cr), s))"

text \<open>The range loop over the statuses, which deletes the stale ones; the flag is \<open>result.Requeue\<close>.\<close>

fun dropStale :: "string list \<Rightarrow> cluster_action list \<Rightarrow> (string, action_status) gomap \<Rightarrow> bool \<Rightarrow> bool \<times> (string, action_status) gomap" where
  "dropStale [] actions m requeue = (requeue, m)"
| "dropStale (actionName # names) actions m requeue =
     (if list_ex (\<lambda>action. act_Name action = actionName) actions then dropStale names actions m requeue
      else dropStale names actions (AList.delete actionName m) True)"

definition removeFinishedActionStatuses :: "'w kube \<Rightarrow> nvmesh \<Rightarrow> 'w st \<Rightarrow> ((ctrl_result \<times> nvmesh) \<times> 'w st) option" where
  "removeFinishedActionStatuses env cr s =
     (let (requeue, cr) =
        (case st_ActionsStatus (cr_Status cr) of
           None \<Rightarrow> (False, cr)
         | Some m \<Rightarrow>
             (case dropStale (map fst m) (spec_Actions (cr_Spec cr)) m False of
                (requeue, m) \<Rightarrow> (requeue, setActionsStatus m cr)))
      in if requeue then do {
           ((_, cr), s) \<leftarrow> UpdateStatus env cr s;
           Some ((\<lparr>Requeue = True, RequeueAfter = 0\<rparr>, cr), s)
         }
         else Some ((\<lparr>Requeue = False, RequeueAfter = 0\<rparr>, cr), s))"

section \<open>Lemmas\<close>

text \<open>The loop after its first \<open>i\<close> items: the slice holds what it has copied so far.\<close>

lemma removeLoop_before:
  assumes "i + length items \<le> idx" "length newList = i + length items - 1" "items \<noteq> []"
  shows "removeLoop i idx items newList = None"
  using assms
proof (induction items arbitrary: i newList)
  case Nil
  then show ?case by simp
next
  case (Cons x xs)
  show ?case
  proof (cases xs)
    case Nil
    with Cons.prems show ?thesis by (simp add: upd_nth_def)
  next
    case (Cons y ys)
    with Cons.prems Cons.IH [of "Suc i" "newList[i := x]"] show ?thesis by (simp add: upd_nth_def)
  qed
qed

lemma removeLoop_after:
  assumes "idx < i" "length newList = i - 1 + length items"
  shows "removeLoop i idx items newList = Some (take (i - 1) newList @ items)"
  using assms
proof (induction items arbitrary: i newList)
  case Nil
  then show ?case by simp
next
  case (Cons x xs)
  from Cons.prems have "i - 1 < length newList" by simp
  then have "take i (newList[i - 1 := x]) = take (i - 1) newList @ [x]"
    using Cons.prems(1) by (metis One_nat_def Suc_pred' take_Suc_conv_app_nth take_update_cancel length_list_update
        less_imp_le_nat nth_list_update_eq order_refl zero_less_iff_neq_zero not_less_zero)
  with Cons.prems Cons.IH [of "Suc i" "newList[i - 1 := x]"] show ?case
    by (simp add: upd_nth_def)
qed

lemma removeLoop_within:
  assumes "i \<le> idx" "idx < i + length items" "length newList = i + length items - 1"
  shows "removeLoop i idx items newList = Some (take i newList @ take (idx - i) items @ drop (Suc (idx - i)) items)"
  using assms
proof (induction items arbitrary: i newList)
  case Nil
  then show ?case by simp
next
  case (Cons x xs)
  show ?case
  proof (cases "i = idx")
    case True
    with Cons.prems removeLoop_after [of idx "Suc i" newList xs] show ?thesis by simp
  next
    case False
    with Cons.prems have i: "i < idx" "i < length newList" by auto
    then have "take (Suc i) (newList[i := x]) = take i newList @ [x]"
      by (simp add: take_Suc_conv_app_nth)
    moreover have "idx - i = Suc (idx - Suc i)" using i by simp
    ultimately show ?thesis using i Cons.prems Cons.IH [of "Suc i" "newList[i := x]"]
      by (simp add: upd_nth_def)
  qed
qed

lemma removeAction_eq:
  "removeAction i cr =
     (let actions = spec_Actions (cr_Spec cr) in
      if i < length actions
      then Some (cr_Spec_update (spec_Actions_update (\<lambda>_. take i actions @ drop (Suc i) actions)) cr)
      else None)"
proof (cases "i < length (spec_Actions (cr_Spec cr))")
  case True
  then have "spec_Actions (cr_Spec cr) \<noteq> []" by auto
  with True show ?thesis
    by (simp add: removeAction_def Let_def removeLoop_within)
next
  case False
  then show ?thesis
    using removeLoop_before [of 0 "spec_Actions (cr_Spec cr)" i]
    by (simp add: removeAction_def Let_def)
qed

lemma dropStale_map:
  "map_of (snd (dropStale names actions m b)) =
     (\<lambda>k. if k \<in> set names \<and> k \<notin> act_Name ` set actions then None else map_of m k)"
  "fst (dropStale names actions m b) \<longleftrightarrow> b \<or> \<not> set names \<subseteq> act_Name ` set actions"
  by (induction names arbitrary: m b) (auto simp: list_ex_iff delete_conv' fun_eq_iff)

lemma dropStale_ok: "gomap_ok m \<Longrightarrow> gomap_ok (snd (dropStale names actions m b))"
  by (induction names arbitrary: m b) simp_all

lemma statusOk_dropStale:
  assumes "statusOk cr"
  shows "statusOk (setActionsStatus (snd (dropStale names actions (actionsStatus cr) requeue)) cr)"
proof -
  have delete: "list_all P m \<Longrightarrow> list_all P (AList.delete k m)" for P and m :: "(string, action_status) gomap" and k
    by (auto simp: list_all_iff AList.delete_eq)
  have "gomap_ok m \<Longrightarrow> list_all (\<lambda>(_, m). gomap_ok m) m \<Longrightarrow>
      gomap_ok (snd (dropStale names actions m b)) \<and> list_all (\<lambda>(_, m). gomap_ok m) (snd (dropStale names actions m b))" for m b
    by (induction names actions m b rule: dropStale.induct) (simp_all add: delete)
  with assms show ?thesis by (simp add: statusOk_def)
qed

section \<open>Properties\<close>

text \<open>Removing an action by its index removes that one and keeps the order of the others; an index
  that is not in the list panics, and so does the empty list.\<close>

lemma removeAction_spec:
  "removeAction i cr =
     (if i < length (spec_Actions (cr_Spec cr))
      then Some (cr_Spec_update (spec_Actions_update (\<lambda>actions. take i actions @ drop (Suc i) actions)) cr)
      else None)"
proof -
  have "cr_Spec_update (spec_Actions_update (\<lambda>_. take i (spec_Actions (cr_Spec cr)) @ drop (Suc i) (spec_Actions (cr_Spec cr)))) cr =
      cr_Spec_update (spec_Actions_update (\<lambda>actions. take i actions @ drop (Suc i) actions)) cr"
    by (cases cr; cases "cr_Spec cr") simp
  then show ?thesis by (simp add: removeAction_eq Let_def)
qed

text \<open>C15: Two actions that complete in the same cycle: when the server answers the first removal with
  the list it was sent, the second removal uses an index past the end of the shrunk list and the operator
  panics.\<close>

theorem handleActions_two_completed_panics:
  assumes "spec_Actions (cr_Spec cr) = [a, b]"
    and "handleAction env a cr s = Some (((True, result, None), cr1), s1)" and "\<not> Requeue result"
    and "spec_Actions (cr_Spec cr1) = [a, b]"
    and "clientUpdateCR env (cr_Spec_update (spec_Actions_update (\<lambda>_. [b])) cr1) s1 = Some (Inr cr2, s2)"
    and "handleAction env b cr2 s2 = Some (((True, result', None), cr3), s3)"
    and "spec_Actions (cr_Spec cr3) = [b]"
  shows "handleActions env cr s = None"
proof -
  have "removeAction 0 cr1 = Some (cr_Spec_update (spec_Actions_update (\<lambda>_. [b])) cr1)"
    using assms(4) by (simp add: removeAction_eq)
  moreover have "removeAction (Suc 0) cr3 = None" using assms(7) by (simp add: removeAction_eq)
  ultimately show ?thesis
    using assms by (simp add: handleActions_def removeCompleted_def updateNVMeshClusterObject_def)
qed

text \<open>Dropping the finished statuses leaves exactly the statuses of the actions still listed, and
  it asks for another cycle exactly when there was one to drop.\<close>

theorem removeFinishedActionStatuses_spec:
  assumes "st_ActionsStatus (cr_Status cr) = Some m"
    and "removeFinishedActionStatuses env cr s = Some ((result, cr'), s')"
  shows "\<exists>m'. map_of m' = map_of m |` (act_Name ` set (spec_Actions (cr_Spec cr))) \<and>
    RequeueAfter result = 0 \<and>
    (Requeue result = (\<not> fst ` set m \<subseteq> act_Name ` set (spec_Actions (cr_Spec cr)))) \<and>
    (if Requeue result then \<exists>err. UpdateStatus env (setActionsStatus m' cr) s = Some ((err, cr'), s')
     else map_of m' = map_of m \<and> cr' = setActionsStatus m' cr \<and> s' = s)"
proof -
  obtain b m' where d: "dropStale (map fst m) (spec_Actions (cr_Spec cr)) m False = (b, m')" by (metis surj_pair)
  let ?names = "act_Name ` set (spec_Actions (cr_Spec cr))"
  have "map_of m' = (\<lambda>k. if k \<in> fst ` set m \<and> k \<notin> ?names then None else map_of m k)"
    using dropStale_map(1) [of "map fst m" "spec_Actions (cr_Spec cr)" m False] d by simp
  moreover have "\<dots> = map_of m |` ?names"
    by (rule ext) (auto simp: restrict_map_def map_of_eq_None_iff)
  ultimately have m': "map_of m' = map_of m |` ?names" by simp
  have b: "b = (\<not> fst ` set m \<subseteq> ?names)"
    using dropStale_map(2) [of "map fst m" "spec_Actions (cr_Spec cr)" m False] d by simp
  show ?thesis
  proof (cases b)
    case True
    then obtain err where "UpdateStatus env (setActionsStatus m' cr) s = Some ((err, cr'), s')" "result = \<lparr>Requeue = True, RequeueAfter = 0\<rparr>"
      using assms d by (auto simp: removeFinishedActionStatuses_def bind_case_prod_Some)
    with True m' b show ?thesis by (intro exI [of _ m']) auto
  next
    case False
    then have "cr' = setActionsStatus m' cr" "s' = s" "result = \<lparr>Requeue = False, RequeueAfter = 0\<rparr>"
      using assms d by (auto simp: removeFinishedActionStatuses_def)
    moreover have "map_of m' = map_of m"
    proof -
      have "map_of m k = None" if "k \<notin> ?names" for k
        using False b that by (metis map_of_eq_None_iff subsetD)
      then show ?thesis unfolding m' by (intro ext) (auto simp: restrict_map_def)
    qed
    ultimately show ?thesis using m' b False by (intro exI [of _ m']) auto
  qed
qed

definition statusCR :: nvmesh where
  "statusCR = setActionsStatus [(''gone'', [])] sampleCR"

theorem removeFinishedActionStatuses_spec_witness:
  "\<exists>result cr' s'. removeFinishedActionStatuses plainKube statusCR (memState (emptyMem\<lparr>m_cr := Some statusCR\<rparr>)) = Some ((result, cr'), s') \<and>
     Requeue result"
proof -
  let ?s = "memState (emptyMem\<lparr>m_cr := Some statusCR\<rparr>)"
  have st: "st_ActionsStatus (cr_Status statusCR) = Some [(''gone'', [])]" and acts: "spec_Actions (cr_Spec statusCR) = []"
    by (simp_all add: statusCR_def setActionsStatus_def sampleCR_def zeroNVMesh_def)
  obtain result cr' s' where r: "removeFinishedActionStatuses plainKube statusCR ?s = Some ((result, cr'), s')"
    by (simp add: removeFinishedActionStatuses_def st acts UpdateStatus_def plainKube_def eval_nat_numeral asAttempt_def
        statusAttempt_def clientUpdateStatus_def apiCall_def memUpdateCR_def memState_def)
  from removeFinishedActionStatuses_spec [OF st this] acts have "Requeue result" by auto
  with r show ?thesis by blast
qed

definition twoActionsCR :: nvmesh where
  "twoActionsCR = setActionsStatus
     [(''collect-logs'', map (\<lambda>k. (k, taskFinished)) collectStages)]
     (cr_Spec_update (spec_Actions_update (\<lambda>_. [collectAction, collectAction])) sampleCR)"

lemma collectLogs_done_again:
  assumes "tasksDone a collectStages 5 cr" and "m_nodes (world s) = []"
  shows "\<exists>cr' s'. handleCollectLogs plainKube cr a s = Some (((True, DoNotRequeue, None), cr'), s') \<and>
    tasksDone a collectStages 5 cr' \<and> cr_Spec cr' = cr_Spec cr \<and> world s' = world s"
proof -
  let ?t = "\<lambda>k cr. snd (isTaskFinished cr a k)"
  have fin: "finished a cr k" if "k \<in> set collectStages" for k
    using assms(1) that by (auto simp: tasksDone_def in_set_conv_nth) (simp add: collectStages_def)
  let ?cr = "?t deleteJobsStage (?t waitForJobsToFinish (?t collectLogsStage (?t collectConfigMapsStage (?t collectDBStage cr))))"
  obtain s2 where nodes: "collectNodes plainKube c s = Some (Inr [], s2)" and w: "world s2 = world s" for c
    using assms(2)
    by (simp add: collectNodes_def getAllNVMeshClusterNodes_def getAllMgmtLabelledNodes_def getNodesWithLabel_def
        clientListNodes_def apiCall_def plainKube_def memKube_def nodeSetToList_def localCall_def)
  have "handleCollectLogs plainKube cr a s = Some (((True, DoNotRequeue, None), setActionComplete ?cr a), s2)"
    unfolding handleCollectLogs_def
    by (simp add: runTask_finished fin collectStages_def nodes)
  moreover have "tasksDone a collectStages 5 (setActionComplete ?cr a)"
    by (subst setActionComplete_done) (simp_all add: collect_stage_defs actionComplete_def tasksDone_upTo tasks.upTo_touch
        assms(1) [unfolded collect_stage_defs tasksDone_upTo])
  moreover have "sameButActions cr (setActionComplete ?cr a)"
    by (meson sameButActions_ops sameButActions_trans)
  ultimately show ?thesis using w by (auto simp: sameButActions_def)
qed

theorem handleActions_two_completed_panics_witness:
  "handleActions plainKube twoActionsCR (memState (emptyMem\<lparr>m_cr := Some twoActionsCR\<rparr>)) = None"
proof -
  let ?a = collectAction and ?s = "memState (emptyMem\<lparr>m_cr := Some twoActionsCR\<rparr>)"
  have acts: "spec_Actions (cr_Spec twoActionsCR) = [?a, ?a]" by (simp add: twoActionsCR_def)
  have h: "handleAction plainKube ?a c s = handleCollectLogs plainKube c ?a s" for c s
    by (simp add: handleAction_def collectAction_def)
  have done5: "tasksDone ?a collectStages 5 twoActionsCR"
    by (auto simp: tasksDone_def finished_def taskStatus_def twoActionsCR_def collectAction_def gomap_get_def collect_stage_defs
        less_Suc_eq nth_Cons')
  then obtain cr1 s1 where 1: "handleAction plainKube ?a twoActionsCR ?s = Some (((True, DoNotRequeue, None), cr1), s1)"
    "tasksDone ?a collectStages 5 cr1" "cr_Spec cr1 = cr_Spec twoActionsCR" "world s1 = world ?s"
    using collectLogs_done_again [OF done5, of ?s] unfolding h by (auto simp: memState_def emptyMem_def)
  let ?cr2 = "cr_Spec_update (spec_Actions_update (\<lambda>_. [?a])) cr1"
  obtain s2 where 2: "clientUpdateCR plainKube ?cr2 s1 = Some (Inr ?cr2, s2)" "m_nodes (world s2) = []"
    using 1(4) by (simp add: clientUpdateCR_def apiCall_def plainKube_def memUpdateCR_def memState_def emptyMem_def)
  have "tasksDone ?a collectStages 5 ?cr2" using 1(2) by (simp add: tasksDone_def finished_def taskStatus_def actionsStatus_def)
  from collectLogs_done_again [OF this 2(2)] obtain cr3 s3 where
    3: "handleAction plainKube ?a ?cr2 s2 = Some (((True, DoNotRequeue, None), cr3), s3)" "cr_Spec cr3 = cr_Spec ?cr2"
    unfolding h by blast
  show ?thesis
    by (rule handleActions_two_completed_panics [OF acts 1(1) _ _ 2(1) 3(1)]) (use 1 3 acts in simp_all)
qed

end
