(* ===== verification/CoreController.thy ===== *)
theory CoreController
  imports MemKube
begin

text \<open>
  pkg/controllers/core_controller.go: the NVMesh core component (drivers, agents and the core
  configuration). The first half is the code; the second shows that nvmesh.conf survives a
  round trip through the dictionary form, what an update of it does, and that the component
  meets the contract of the shared loop.
\<close>

definition nvmeshCoreAssestLocation :: string where "nvmeshCoreAssestLocation = ''resources/nvmesh-core''"
definition coreUserspaceDaemonSetName :: string where "coreUserspaceDaemonSetName = ''nvmesh-mcs-agent''"
definition targetDriverDaemonSetName :: string where "targetDriverDaemonSetName = ''nvmesh-target''"
definition clientDriverDaemonSetName :: string where "clientDriverDaemonSetName = ''nvmesh-client''"
definition defaultFileServerAddress :: string where
  "defaultFileServerAddress = ''https://repo.excelero.com/nvmesh/operator_binaries''"
definition envVarNVMeshVersion :: string where "envVarNVMeshVersion = ''NVMESH_VERSION''"

section \<open>nvmesh.conf\<close>

definition newline :: char where "newline = CHR 0x0A"

text \<open>The range loop over the lines; a later line of the same key wins.\<close>

fun confLines :: "string list \<Rightarrow> labels \<Rightarrow> labels" where
  "confLines [] configDict = configDict"
| "confLines (line # lines) configDict =
     (case go_split ''='' line of
        [] \<Rightarrow> configDict
      | key # parts \<Rightarrow> confLines lines (AList.update key (go_join ''='' parts) configDict))"

definition configStringToDict :: "string \<Rightarrow> labels" where
  "configStringToDict conf = confLines (go_split [newline] conf) []"

definition configDictToString :: "labels \<Rightarrow> string" where
  "configDictToString configDict =
     (let sortedKeys = sort (map fst configDict)
      in go_join [newline] (map (\<lambda>key. key @ ''='' @ gomap_get configDict key) sortedKeys))"

fun confDiffers :: "string list \<Rightarrow> labels \<Rightarrow> labels \<Rightarrow> bool \<Rightarrow> bool" where
  "confDiffers [] expectedDict currentDict shouldUpdate = shouldUpdate"
| "confDiffers (field # keys) expectedDict currentDict shouldUpdate =
     confDiffers keys expectedDict currentDict
       (if gomap_get currentDict field \<noteq> gomap_get expectedDict field then True else shouldUpdate)"

fun confCopy :: "string list \<Rightarrow> labels \<Rightarrow> labels \<Rightarrow> labels" where
  "confCopy [] currentDict expectedDict = expectedDict"
| "confCopy (field # keys) currentDict expectedDict =
     confCopy keys currentDict
       (if gomap_has expectedDict field then expectedDict
        else AList.update field (gomap_get currentDict field) expectedDict)"

definition shouldUpdateNVMeshConf :: "nvmesh \<Rightarrow> string \<Rightarrow> string \<Rightarrow> bool \<times> string" where
  "shouldUpdateNVMeshConf cr expected current =
     (let expectedDict = configStringToDict expected;
          currentDict = configStringToDict current;
          shouldUpdate = confDiffers (map fst expectedDict) expectedDict currentDict False;
          expectedDict = confCopy (map fst currentDict) currentDict expectedDict
      in (shouldUpdate, configDictToString expectedDict))"

text \<open>A nil map reads as the empty one.\<close>

definition dataOf :: "config_map \<Rightarrow> labels" where
  "dataOf cm = (case cm_data cm of None \<Rightarrow> [] | Some d \<Rightarrow> d)"

fun confMapFields :: "nvmesh \<Rightarrow> string list \<Rightarrow> labels \<Rightarrow> labels \<Rightarrow> bool \<Rightarrow> bool \<times> labels" where
  "confMapFields cr [] expected found shouldUpdate = (shouldUpdate, expected)"
| "confMapFields cr (field # keys) expected found shouldUpdate =
     (if field = ''nvmesh.conf'' then
        (case shouldUpdateNVMeshConf cr (gomap_get expected field) (gomap_get found field) of
           (shouldUpdateConf, newExpectedConfString) \<Rightarrow>
             confMapFields cr keys (AList.update field newExpectedConfString expected) found
               (shouldUpdate \<or> shouldUpdateConf))
      else if gomap_get expected field \<noteq> gomap_get found field
      then confMapFields cr keys expected found True
      else confMapFields cr keys expected found shouldUpdate)"

definition shouldUpdateCoreConfigMap :: "nvmesh \<Rightarrow> config_map \<Rightarrow> config_map \<Rightarrow> bool \<times> config_map" where
  "shouldUpdateCoreConfigMap cr expected cm =
     (case confMapFields cr (map fst (dataOf expected)) (dataOf expected) (dataOf cm) False of
        (shouldUpdate, data) \<Rightarrow> (shouldUpdate, expected\<lparr>cm_data := map_option (\<lambda>_. data) (cm_data expected)\<rparr>))"

definition getMgmtServersConnectionString :: "nvmesh \<Rightarrow> string" where
  "getMgmtServersConnectionString cr =
     (let replicas = nat (sint (mgmt_Replicas (mgmt cr)))
      in go_join '','' (map (\<lambda>i. ''nvmesh-management-'' @ nat_dec i @ ''.nvmesh-management-ws.'' @ crNamespace cr
           @ ''.svc.cluster.local:4001'') [0..<replicas]))"

definition nvmeshConfWrapWithQuotes :: "string \<Rightarrow> string" where
  "nvmeshConfWrapWithQuotes value = CHR 0x22 # value @ [CHR 0x22]"

definition coreConfDict :: "nvmesh \<Rightarrow> labels \<Rightarrow> labels" where
  "coreConfDict cr configDict =
     (let quoted = nvmeshConfWrapWithQuotes;
          configDict = AList.update ''MANAGEMENT_SERVERS'' (quoted (getMgmtServersConnectionString cr)) configDict;
          configDict = (if core_TCPOnly (core cr)
            then AList.update ''CONFIGURED_NICS'' (quoted (core_ConfiguredNICs (core cr)))
              (AList.update ''TCP_ENABLED'' (quoted ''Yes'') (AList.update ''IPV4_ONLY'' (quoted ''Yes'') configDict))
            else configDict);
          configDict = (if core_AzureOptimized (core cr)
            then AList.update ''AGENT_CLOUD_MODE'' (quoted ''Yes'') (AList.update ''TOMA_CLOUD_MODE'' (quoted ''Yes'')
              (AList.update ''CLOUD_OPTIMIZED'' (quoted ''Yes'') configDict))
            else configDict)
      in (case core_ExcludeDrives (core cr) of
            None \<Rightarrow> configDict
          | Some ex \<Rightarrow>
              (let configDict = (case ex_SerialNumbers ex of None \<Rightarrow> configDict
                  | Some serials \<Rightarrow> AList.update ''EXCLUDE_DRIVE_SERIALS'' (quoted (go_join '','' serials)) configDict)
               in (case ex_DevicePaths ex of None \<Rightarrow> configDict
                  | Some devicePaths \<Rightarrow> AList.update ''EXCLUDE_DEVICE_PATHS'' (quoted (go_join '','' devicePaths)) configDict))))"

text \<open>Writing to a nil map panics.\<close>

definition initCoreConfigMap :: "nvmesh \<Rightarrow> config_map \<Rightarrow> (goerr option \<times> config_map) option" where
  "initCoreConfigMap cr cm = do {
     data \<leftarrow> cm_data cm;
     let fileServerOptions = (case op_FileServer (oper cr) of None \<Rightarrow> \<lparr>fs_Address = '''', fs_SkipCheckCertificate = False\<rparr> | Some o' \<Rightarrow> o');
     let data = AList.update ''fileServer.address''
       (if fs_Address fileServerOptions \<noteq> '''' then fs_Address fileServerOptions else defaultFileServerAddress) data;
     let data = AList.update ''fileServer.skipCheckCertificate'' (formatBool (fs_SkipCheckCertificate fileServerOptions)) data;
     let configDict = coreConfDict cr (configStringToDict (gomap_get data ''nvmesh.conf''));
     let data = AList.update ''modprobe.d'' (core_ModuleParams (core cr)) data;
     let data = AList.update ''nvmesh.conf'' (configDictToString configDict) data;
     Some (None, cm\<lparr>cm_data := Some data\<rparr>)
   }"

section \<open>Daemon sets\<close>

definition setEnvVariableValues :: "nvmesh \<Rightarrow> container \<Rightarrow> container" where
  "setEnvVariableValues cr c =
     addKeepRunningAfterFailureEnvVar cr
       (c\<lparr>c_env := map (\<lambda>env. if ev_name env = ''NVMESH_VERSION'' then env\<lparr>ev_value := core_Version (core cr)\<rparr> else env) (c_env c)\<rparr>)"

definition addVolumeAndMountToContainer ::
  "string \<Rightarrow> string \<Rightarrow> container \<times> volume list \<Rightarrow> container \<times> volume list" where
  "addVolumeAndMountToContainer volumeName mountPath = (\<lambda>(c, volumes).
     (c\<lparr>c_volumeMounts := c_volumeMounts c @ [\<lparr>vm_name = volumeName, vm_path = mountPath\<rparr>]\<rparr>,
      volumes @ [\<lparr>vol_name = volumeName, vol_source = HostPath mountPath\<rparr>]))"

definition addTomaIBLibMounts :: "container \<times> volume list \<Rightarrow> container \<times> volume list" where
  "addTomaIBLibMounts = addVolumeAndMountToContainer ''etc-libibverbs'' ''/etc/libibverbs.d/''"

text \<open>
  The loop over the containers. \<open>imageName\<close> is declared outside it: a container with none of the
  names keeps the one of the container before.
\<close>

fun initContainers :: "nvmesh \<Rightarrow> string \<Rightarrow> container list \<Rightarrow> volume list \<Rightarrow> container list \<times> volume list" where
  "initContainers cr imageName [] volumes = ([], volumes)"
| "initContainers cr imageName (c # cs) volumes =
     (let (imageName, c, volumes) =
        (if c_name c = ''mcs'' then (''nvmesh-mcs'', c, volumes)
         else if c_name c = ''agent'' then (''nvmesh-mcs'', c, volumes)
         else if c_name c = ''toma'' then
           (''nvmesh-toma'', if \<not> core_TCPOnly (core cr) then addTomaIBLibMounts (c, volumes) else (c, volumes))
         else if c_name c = ''tracer'' then (''nvmesh-tracer'', c, volumes)
         else if c_name c = ''driver-container'' then
           (''nvmesh-driver-container'', if \<not> core_TCPOnly (core cr)
             then addVolumeAndMountToContainer ''etc-infiniband'' ''/etc/infiniband'' (c, volumes) else (c, volumes))
         else (imageName, c, volumes));
       c = c\<lparr>c_image := getCoreFullImageName cr imageName, c_imagePullPolicy := getImagePullPolicy cr\<rparr>;
       c = setEnvVariableValues cr c;
       (cs, volumes) = initContainers cr imageName cs volumes
      in (c # cs, volumes))"

definition initDaemonSets :: "nvmesh \<Rightarrow> daemon_set \<Rightarrow> goerr option \<times> daemon_set" where
  "initDaemonSets cr ds =
     (let podSpec = pt_spec (ds_template ds);
          (containers, volumes) = initContainers cr '''' (ps_containers podSpec) (ps_volumes podSpec)
      in (None, ds_template_update (pt_spec_update (\<lambda>_. podSpec\<lparr>ps_containers := containers, ps_volumes := volumes\<rparr>)) ds))"

fun envVersionDiffers :: "nvmesh \<Rightarrow> env_var list \<Rightarrow> bool" where
  "envVersionDiffers cr [] = False"
| "envVersionDiffers cr (env # envs) =
     (if ev_name env = envVarNVMeshVersion \<and> ev_value env \<noteq> core_Version (core cr) then True
      else envVersionDiffers cr envs)"

text \<open>The two container lists have the same length here.\<close>

fun containersDiffer :: "nvmesh \<Rightarrow> container list \<Rightarrow> container list \<Rightarrow> bool" where
  "containersDiffer cr (e # expected) (c # cs) =
     (if c_image c \<noteq> c_image e then True
      else if envVersionDiffers cr (c_env c) then True
      else containersDiffer cr expected cs)"
| "containersDiffer cr _ _ = False"

definition dsContainers :: "daemon_set \<Rightarrow> container list" where
  "dsContainers ds = ps_containers (pt_spec (ds_template ds))"

definition shouldUpdateDaemonSet :: "nvmesh \<Rightarrow> daemon_set \<Rightarrow> daemon_set \<Rightarrow> bool" where
  "shouldUpdateDaemonSet cr expected ds =
     (if length (dsContainers ds) \<noteq> length (dsContainers expected) then True
      else containersDiffer cr (dsContainers expected) (dsContainers ds))"

section \<open>The component\<close>

definition coreInitObject :: "nvmesh \<Rightarrow> kobj \<Rightarrow> (goerr option \<times> kobj) option" where
  "coreInitObject cr obj =
     (case obj of
        DaemonSet ds \<Rightarrow> (case initDaemonSets cr ds of (err, ds) \<Rightarrow> Some (err, DaemonSet ds))
      | ConfigMap cm \<Rightarrow> do { (err, cm) \<leftarrow> initCoreConfigMap cr cm; Some (err, ConfigMap cm) }
      | _ \<Rightarrow> Some (None, obj))"

text \<open>A failed type assertion panics.\<close>

definition coreShouldUpdateObject :: "nvmesh \<Rightarrow> kobj \<Rightarrow> kobj \<Rightarrow> (bool \<times> kobj) option" where
  "coreShouldUpdateObject cr expected obj =
     (case obj of
        DaemonSet ds \<Rightarrow>
          (case expected of
             DaemonSet expDS \<Rightarrow>
               if om_name (ds_meta ds) \<in> {coreUserspaceDaemonSetName, targetDriverDaemonSetName, clientDriverDaemonSetName}
               then Some (shouldUpdateDaemonSet cr expDS ds, expected)
               else Some (False, expected)
           | _ \<Rightarrow> None)
      | ConfigMap cm \<Rightarrow>
          (case expected of
             ConfigMap expectedConfigMap \<Rightarrow>
               (case shouldUpdateCoreConfigMap cr expectedConfigMap cm of (b, e) \<Rightarrow> Some (b, ConfigMap e))
           | _ \<Rightarrow> None)
      | _ \<Rightarrow> Some (False, expected))"

definition coreComponent :: "'w component" where
  "coreComponent = \<lparr>InitObject = coreInitObject,
     ShouldUpdateObject = (\<lambda>cr expected found s. do { r \<leftarrow> coreShouldUpdateObject cr expected found; Some (r, s) })\<rparr>"

definition removeCore :: "'w kube \<Rightarrow> nvmesh \<Rightarrow> 'w st \<Rightarrow> (goerr option \<times> 'w st) option" where
  "removeCore env cr = removeObjectsFromDir env cr coreComponent nvmeshCoreAssestLocation True"

definition deployCore :: "'w kube \<Rightarrow> nvmesh \<Rightarrow> 'w st \<Rightarrow> (goerr option \<times> 'w st) option" where
  "deployCore env cr = createObjectsFromDir env cr coreComponent nvmeshCoreAssestLocation True"

definition coreReconcile :: "'w kube \<Rightarrow> nvmesh \<Rightarrow> 'w st \<Rightarrow> ((ctrl_result \<times> goerr option) \<times> 'w st) option" where
  "coreReconcile env cr s =
     (if \<not> core_Disabled (core cr) then do {
        (err, s) \<leftarrow> deployCore env cr s;
        Some ((DoNotRequeue, err), s)
      }
      else do {
        (err, s) \<leftarrow> removeCore env cr s;
        Some ((DoNotRequeue, err), s)
      })"

section \<open>The dictionary form of nvmesh.conf\<close>

definition confEntry :: "string \<Rightarrow> string \<times> string" where
  "confEntry line = (hd (go_split ''='' line), go_join ''='' (tl (go_split ''='' line)))"

lemma confLines_Cons:
  "confLines (line # lines) d = confLines lines (AList.update (fst (confEntry line)) (snd (confEntry line)) d)"
  by (cases "go_split ''='' line") (simp_all add: confEntry_def)

declare confLines.simps(2) [simp del]

lemma confEntry_pair: "CHR ''='' \<notin> set k \<Longrightarrow> confEntry (k @ CHR ''='' # v) = (k, v)"
  by (simp add: confEntry_def go_split_char_append go_join_split)

lemma confLines_map: "map_of (confLines lines d) = map_of d ++ map_of (rev (map confEntry lines))"
proof (induction lines arbitrary: d)
  case Nil
  then show ?case by simp
next
  case (Cons line lines)
  show ?case
    unfolding confLines_Cons Cons
    by (rule ext) (cases "confEntry line", auto simp: map_add_def update_conv' split: option.splits)
qed

lemma confLines_ok: "gomap_ok d \<Longrightarrow> gomap_ok (confLines lines d)"
  by (induction lines arbitrary: d) (simp_all add: confLines_Cons)

lemma confLines_not_Nil: "lines \<noteq> [] \<or> d \<noteq> [] \<Longrightarrow> confLines lines d \<noteq> []"
proof (induction lines arbitrary: d)
  case Nil
  then show ?case by simp
next
  case (Cons line lines)
  have "AList.update k v d \<noteq> []" for k v by (cases d) auto
  with Cons.IH show ?case unfolding confLines_Cons by simp
qed

text \<open>A dictionary that can be written down and read back.\<close>

definition confDict :: "labels \<Rightarrow> bool" where
  "confDict d \<longleftrightarrow> gomap_ok d \<and> d \<noteq> [] \<and>
     (\<forall>k v. map_of d k = Some v \<longrightarrow> CHR ''='' \<notin> set k \<and> newline \<notin> set k \<and> newline \<notin> set v)"

lemma confDict_update:
  "confDict d \<Longrightarrow> CHR ''='' \<notin> set k \<Longrightarrow> newline \<notin> set k \<Longrightarrow> newline \<notin> set v \<Longrightarrow> confDict (AList.update k v d)"
  unfolding confDict_def
  by (intro conjI) (simp, cases d, simp, simp add: case_prod_beta, auto simp: update_conv' split: if_splits)

lemma confEntry_clean:
  assumes "newline \<notin> set line"
  shows "CHR ''='' \<notin> set (fst (confEntry line)) \<and> newline \<notin> set (fst (confEntry line)) \<and> newline \<notin> set (snd (confEntry line))"
proof -
  obtain w ws where w: "go_split ''='' line = w # ws" by (cases "go_split ''='' line") auto
  then have line: "line = go_join ''='' (w # ws)" by (metis go_join_split)
  have "CHR ''='' \<notin> set w" by (rule go_split_char_pieces [of w _ line]) (simp add: w)
  moreover from line have "set w \<subseteq> set line" and "set (go_join ''='' ws) \<subseteq> set line"
    by (cases ws; simp; blast)+
  ultimately show ?thesis using assms w by (auto simp: confEntry_def)
qed

lemma map_of_confLines_mem:
  "map_of (confLines lines []) k = Some v \<Longrightarrow> (k, v) \<in> confEntry ` set lines"
  unfolding confLines_map by (auto dest!: map_of_SomeD)

text \<open>Every string reads as such a dictionary.\<close>

lemma confDict_configStringToDict: "confDict (configStringToDict conf)"
proof -
  have "CHR ''='' \<notin> set k \<and> newline \<notin> set k \<and> newline \<notin> set v"
    if kv: "map_of (confLines (go_split [newline] conf) []) k = Some v" for k v
  proof -
    from map_of_confLines_mem [OF kv] obtain line where l: "line \<in> set (go_split [newline] conf)" and e: "confEntry line = (k, v)"
      by (metis imageE)
    from go_split_char_pieces [OF l] have "newline \<notin> set line" .
    from confEntry_clean [OF this] e show ?thesis by simp
  qed
  then show ?thesis
    by (simp add: confDict_def configStringToDict_def confLines_ok confLines_not_Nil)
qed

text \<open>Writing does not depend on the order in which the map is walked.\<close>

lemma configDictToString_cong:
  assumes "gomap_ok d" "gomap_ok d'" and eq: "map_of d = map_of d'"
  shows "configDictToString d = configDictToString d'"
proof -
  have "set (map fst d) = set (map fst d')"
    using arg_cong [OF eq, of dom] by (simp add: dom_map_of_conv_image_fst)
  then have "sort (map fst d) = sort (map fst d')"
    using assms(1,2) by (metis gomap_ok_def sorted_list_of_set_sort_remdups distinct_remdups_id)
  then show ?thesis by (simp add: configDictToString_def gomap_get_def eq)
qed

lemma configDictToString_lines:
  assumes "confDict d"
  shows "go_split [newline] (configDictToString d) = map (\<lambda>k. k @ ''='' @ gomap_get d k) (sort (map fst d))"
proof -
  have "newline \<notin> set (k @ ''='' @ gomap_get d k)" if "k \<in> set (map fst d)" for k
  proof -
    from that obtain v where v: "map_of d k = Some v"
      by (metis gomap_has_def gomap_has_set list.set_map not_None_eq)
    with assms show ?thesis by (auto simp: confDict_def gomap_get_def newline_def)
  qed
  then have "newline \<notin> set l" if "l \<in> set (map (\<lambda>k. k @ ''='' @ gomap_get d k) (sort (map fst d)))" for l
  proof -
    from that obtain k where "l = k @ ''='' @ gomap_get d k" and "k \<in> set (map fst d)" by auto
    with \<open>\<And>k. k \<in> set (map fst d) \<Longrightarrow> newline \<notin> set (k @ ''='' @ gomap_get d k)\<close> show ?thesis by simp
  qed
  moreover have "sort (map fst d) \<noteq> []"
    using assms by (metis confDict_def length_0_conv length_map length_sort)
  ultimately show ?thesis
    unfolding configDictToString_def Let_def by (intro go_split_join_char) simp_all
qed

lemma map_of_graph: "distinct ks \<Longrightarrow> map_of (rev (map (\<lambda>k. (k, f k)) ks)) k = (if k \<in> set ks then Some (f k) else None)"
  unfolding rev_map map_of_map_restrict by (auto simp: restrict_map_def)

lemma configString_roundtrip:
  assumes d: "confDict d"
  shows "map_of (configStringToDict (configDictToString d)) = map_of d"
proof -
  let ?ks = "sort (map fst d)"
  have clean: "CHR ''='' \<notin> set k" if "k \<in> set ?ks" for k
  proof -
    from that obtain v where "map_of d k = Some v"
      by (metis gomap_has_def gomap_has_set list.set_map not_None_eq set_sort)
    with d show ?thesis by (auto simp: confDict_def)
  qed
  have entries: "map confEntry (map (\<lambda>k. k @ ''='' @ gomap_get d k) ?ks) = map (\<lambda>k. (k, gomap_get d k)) ?ks"
    unfolding map_map o_def by (rule map_cong [OF refl]) (simp add: confEntry_pair clean)
  have "distinct ?ks" using d by (simp add: confDict_def gomap_ok_def)
  show ?thesis
  proof
    fix k
    have "map_of (configStringToDict (configDictToString d)) k = (if k \<in> set ?ks then Some (gomap_get d k) else None)"
      unfolding configStringToDict_def configDictToString_lines [OF d] confLines_map entries
      by (simp add: map_of_graph [OF \<open>distinct ?ks\<close>])
    also have "\<dots> = map_of d k"
      unfolding set_sort list.set_map gomap_has_set [symmetric]
      by (cases "map_of d k") (simp_all add: gomap_get_def gomap_has_def)
    finally show "map_of (configStringToDict (configDictToString d)) k = map_of d k" .
  qed
qed

section \<open>What an update of nvmesh.conf does\<close>

lemma confDiffers_iff:
  "confDiffers ks e c b \<longleftrightarrow> b \<or> (\<exists>k\<in>set ks. gomap_get c k \<noteq> gomap_get e k)"
  by (induction ks arbitrary: b) auto

lemma confCopy_ok: "gomap_ok e \<Longrightarrow> gomap_ok (confCopy ks c e)"
  by (induction ks arbitrary: e) simp_all

lemma confCopy_map:
  "map_of (confCopy ks c e) k = (if gomap_has e k then map_of e k else if k \<in> set ks then Some (gomap_get c k) else None)"
proof (induction ks arbitrary: e)
  case Nil
  then show ?case by (simp add: gomap_has_def)
next
  case (Cons x ks)
  then show ?case by (auto simp: gomap_has_def update_conv')
qed

lemma confCopy_expected:
  "map_of (confCopy (map fst c) c e) = map_of c ++ map_of e"
proof
  fix k
  show "map_of (confCopy (map fst c) c e) k = (map_of c ++ map_of e) k"
    unfolding confCopy_map list.set_map gomap_has_set [symmetric]
    by (cases "map_of e k"; cases "map_of c k") (simp_all add: gomap_has_def gomap_get_def map_add_def)
qed

lemma confDict_merge:
  assumes "confDict c" "confDict e"
  shows "confDict (confCopy (map fst c) c e)"
proof -
  have m: "map_of (confCopy (map fst c) c e) = map_of c ++ map_of e" by (rule confCopy_expected)
  have "confCopy (map fst c) c e \<noteq> []"
  proof
    assume "confCopy (map fst c) c e = []"
    with m have "map_of c ++ map_of e = Map.empty" by simp
    then have "map_of e = Map.empty" by (simp add: map_add_def fun_eq_iff split: option.splits)
    with assms(2) show False by (cases e) (auto simp: confDict_def fun_eq_iff split: if_splits)
  qed
  with assms m show ?thesis
    by (auto simp: confDict_def confCopy_ok map_add_def split: option.splits)
qed

lemma shouldUpdateNVMeshConf_map:
  "map_of (configStringToDict (snd (shouldUpdateNVMeshConf cr expected current))) =
     map_of (configStringToDict current) ++ map_of (configStringToDict expected)"
  "fst (shouldUpdateNVMeshConf cr expected current) \<longleftrightarrow>
     (\<exists>k. gomap_has (configStringToDict expected) k \<and>
        gomap_get (configStringToDict current) k \<noteq> gomap_get (configStringToDict expected) k)"
  by (simp_all add: shouldUpdateNVMeshConf_def Let_def confDiffers_iff gomap_has_set Bex_def
      configString_roundtrip confDict_merge confDict_configStringToDict confCopy_expected)

section \<open>The contract of the shared loop\<close>

lemma addKeepRunning_fields [simp]:
  "c_name (addKeepRunningAfterFailureEnvVar cr c) = c_name c"
  "c_image (addKeepRunningAfterFailureEnvVar cr c) = c_image c"
  "c_imagePullPolicy (addKeepRunningAfterFailureEnvVar cr c) = c_imagePullPolicy c"
  by (simp_all add: addKeepRunningAfterFailureEnvVar_def)

lemma envVersionDiffers_iff:
  "envVersionDiffers cr envs \<longleftrightarrow> (\<exists>e\<in>set envs. ev_name e = envVarNVMeshVersion \<and> ev_value e \<noteq> core_Version (core cr))"
  by (induction envs) auto

lemma setEnvVariableValues_version [simp]:
  "\<not> envVersionDiffers cr (c_env (setEnvVariableValues cr c))"
  by (auto simp: envVersionDiffers_iff setEnvVariableValues_def addKeepRunningAfterFailureEnvVar_def envVarNVMeshVersion_def)

lemma setEnvVariableValues_image [simp]: "c_image (setEnvVariableValues cr c) = c_image c"
  by (simp add: setEnvVariableValues_def)

lemma containersDiffer_iff:
  "length es = length cs \<Longrightarrow>
   (\<not> containersDiffer cr es cs) \<longleftrightarrow>
     map c_image cs = map c_image es \<and> (\<forall>c\<in>set cs. \<not> envVersionDiffers cr (c_env c))"
  by (induction es cs rule: list_induct2) auto

lemma initContainers_good:
  "initContainers cr n cs vs = (cs', vs') \<Longrightarrow>
   length cs' = length cs \<and>
   (\<forall>c\<in>set cs'. \<not> envVersionDiffers cr (c_env c) \<and> c_imagePullPolicy c = getImagePullPolicy cr \<and>
     (\<exists>name. c_image c = getCoreFullImageName cr name))"
proof (induction cs arbitrary: n vs cs' vs')
  case Nil
  then show ?case by simp
next
  case (Cons c cs)
  have policy: "c_imagePullPolicy (setEnvVariableValues cr (c'\<lparr>c_image := i, c_imagePullPolicy := p\<rparr>)) = p" for c' i p
    by (simp add: setEnvVariableValues_def)
  from Cons.prems obtain n' c' vs1 cs1 vs2 where rec: "initContainers cr n' cs vs1 = (cs1, vs2)"
    and cs': "cs' = setEnvVariableValues cr (c'\<lparr>c_image := getCoreFullImageName cr n', c_imagePullPolicy := getImagePullPolicy cr\<rparr>) # cs1"
    unfolding initContainers.simps Let_def by (auto split: prod.splits)
  from Cons.IH [OF rec] policy show ?case unfolding cs' by auto
qed

lemma initDaemonSets_good:
  assumes "initDaemonSets cr ds = (err, ds')"
  shows "err = None" and "ds_meta ds' = ds_meta ds" and "length (dsContainers ds') = length (dsContainers ds)"
    and "\<And>c. c \<in> set (dsContainers ds') \<Longrightarrow> \<not> envVersionDiffers cr (c_env c)"
    and "\<And>c. c \<in> set (dsContainers ds') \<Longrightarrow> \<exists>name. c_image c = getCoreFullImageName cr name"
    and "\<And>c. c \<in> set (dsContainers ds') \<Longrightarrow> c_imagePullPolicy c = getImagePullPolicy cr"
proof -
  obtain cs vs where i: "initContainers cr '''' (ps_containers (pt_spec (ds_template ds))) (ps_volumes (pt_spec (ds_template ds))) = (cs, vs)"
    by (metis surj_pair)
  with assms have e: "err = None" "ds_meta ds' = ds_meta ds" "dsContainers ds' = cs"
    by (auto simp: initDaemonSets_def Let_def dsContainers_def)
  then show "err = None" and "ds_meta ds' = ds_meta ds" by simp_all
  from initContainers_good [OF i] e
  show "length (dsContainers ds') = length (dsContainers ds)"
    and "\<And>c. c \<in> set (dsContainers ds') \<Longrightarrow> \<not> envVersionDiffers cr (c_env c)"
    and "\<And>c. c \<in> set (dsContainers ds') \<Longrightarrow> \<exists>name. c_image c = getCoreFullImageName cr name"
    and "\<And>c. c \<in> set (dsContainers ds') \<Longrightarrow> c_imagePullPolicy c = getImagePullPolicy cr"
    by (auto simp: dsContainers_def)
qed

lemma shouldUpdateDaemonSet_refl:
  assumes "initDaemonSets cr ds = (err, ds')"
  shows "\<not> shouldUpdateDaemonSet cr (ds_meta_update g ds') (ds_meta_update g ds')"
proof -
  have "dsContainers (ds_meta_update g ds') = dsContainers ds'" by (simp add: dsContainers_def)
  then show ?thesis using initDaemonSets_good(4) [OF assms]
    by (simp add: shouldUpdateDaemonSet_def containersDiffer_iff)
qed

lemma shouldUpdateNVMeshConf_same:
  assumes "map_of (configStringToDict x) = map_of (configStringToDict y)"
  shows "\<not> fst (shouldUpdateNVMeshConf cr x y)"
    and "map_of (configStringToDict (snd (shouldUpdateNVMeshConf cr x y))) = map_of (configStringToDict y)"
proof -
  have "m ++ m = m" for m :: "string \<Rightarrow> string option" by (rule ext) (simp add: map_add_def split: option.splits)
  then show "map_of (configStringToDict (snd (shouldUpdateNVMeshConf cr x y))) = map_of (configStringToDict y)"
    using assms by (simp add: shouldUpdateNVMeshConf_map)
qed (use assms in \<open>simp add: shouldUpdateNVMeshConf_map gomap_has_def gomap_get_def\<close>)

lemma confMapFields_refl:
  "(\<And>k. k \<noteq> ''nvmesh.conf'' \<Longrightarrow> gomap_get e k = gomap_get c k) \<Longrightarrow>
   map_of (configStringToDict (gomap_get e ''nvmesh.conf'')) = map_of (configStringToDict (gomap_get c ''nvmesh.conf'')) \<Longrightarrow>
   fst (confMapFields cr ks e c b) = b"
proof (induction ks arbitrary: e b)
  case Nil
  then show ?case by simp
next
  case (Cons k ks)
  show ?case
  proof (cases "k = ''nvmesh.conf''")
    case True
    obtain u new where r: "shouldUpdateNVMeshConf cr (gomap_get e ''nvmesh.conf'') (gomap_get c ''nvmesh.conf'') = (u, new)"
      by (metis surj_pair)
    with shouldUpdateNVMeshConf_same [OF Cons.prems(2), of cr]
    have "\<not> u" "map_of (configStringToDict new) = map_of (configStringToDict (gomap_get c ''nvmesh.conf''))" by simp_all
    with Cons True r show ?thesis by simp
  next
    case False
    with Cons show ?thesis by simp
  qed
qed

lemma shouldUpdateCoreConfigMap_refl: "\<not> fst (shouldUpdateCoreConfigMap cr (cm_meta_update g cm) (cm_meta_update g cm))"
proof -
  have "fst (confMapFields cr (map fst (dataOf cm)) (dataOf cm) (dataOf cm) False) = False"
    by (rule confMapFields_refl) simp_all
  moreover have "dataOf (cm_meta_update g cm) = dataOf cm" by (simp add: dataOf_def)
  ultimately show ?thesis
    by (cases "confMapFields cr (map fst (dataOf cm)) (dataOf cm) (dataOf cm) False")
      (simp add: shouldUpdateCoreConfigMap_def)
qed

lemma coreShouldUpdateObject_meta:
  "coreShouldUpdateObject cr e f = Some (b, e') \<Longrightarrow> metaOf e' = metaOf e \<and> kindOf e' = kindOf e"
  by (auto simp: coreShouldUpdateObject_def shouldUpdateCoreConfigMap_def split: kobj.splits prod.splits if_splits)

lemma coreInitObject_meta:
  "coreInitObject cr x = Some (err, y) \<Longrightarrow> metaOf y = metaOf x \<and> kindOf y = kindOf x"
  by (auto simp: coreInitObject_def initCoreConfigMap_def initDaemonSets_def Let_def bind_eq_Some
      split: kobj.splits prod.splits)

lemma coreShouldUpdateObject_refl:
  assumes "coreInitObject cr x = Some (None, y)"
  shows "\<exists>e'. coreShouldUpdateObject cr (mapMeta g y) (mapMeta g y) = Some (False, e')"
proof (cases x)
  case (DaemonSet ds)
  with assms obtain ds' where "initDaemonSets cr ds = (None, ds')" and y: "y = DaemonSet ds'"
    by (auto simp: coreInitObject_def split: prod.splits)
  from shouldUpdateDaemonSet_refl [OF this(1), of g] y show ?thesis
    by (simp add: coreShouldUpdateObject_def)
next
  case (ConfigMap cm)
  with assms obtain cm' where y: "y = ConfigMap cm'"
    by (auto simp: coreInitObject_def bind_eq_Some)
  obtain b e where "shouldUpdateCoreConfigMap cr (cm_meta_update g cm') (cm_meta_update g cm') = (b, e)" by (metis surj_pair)
  with shouldUpdateCoreConfigMap_refl [of cr g cm'] y show ?thesis
    by (simp add: coreShouldUpdateObject_def)
qed (use assms in \<open>auto simp: coreInitObject_def coreShouldUpdateObject_def\<close>)

interpretation corec: steady_component env coreComponent for env :: "'w kube"
proof unfold_locales
  fix cr x err y
  assume "InitObject coreComponent cr x = Some (err, y)"
  then show "metaOf y = metaOf x \<and> kindOf y = kindOf x"
    by (simp add: coreComponent_def coreInitObject_meta)
next
  fix cr e f s b e' s'
  assume "ShouldUpdateObject coreComponent cr e f s = Some ((b, e'), s')"
  then show "metaOf e' = metaOf e \<and> kindOf e' = kindOf e"
    by (auto simp: coreComponent_def bind_eq_Some dest!: coreShouldUpdateObject_meta)
next
  fix R :: "'w st \<Rightarrow> 'w st \<Rightarrow> bool" and cr e f
  assume "preord R"
  then show "steps R (ShouldUpdateObject coreComponent cr e f)"
    by (auto simp: coreComponent_def intro!: steps_bind_pure steps_return)
next
  fix cr x y g s
  assume "InitObject coreComponent cr x = Some (None, y)"
  then show "\<exists>e'. ShouldUpdateObject coreComponent cr (mapMeta g y) (mapMeta g y) s = Some ((False, e'), s)"
    using coreShouldUpdateObject_refl [of cr x y g] by (auto simp: coreComponent_def)
qed

section \<open>Properties\<close>

text \<open>C11: Writing a configuration dictionary and reading it back gives the same map, for every
  dictionary read from a string.\<close>

theorem configDict_roundtrip:
  "map_of (configStringToDict (configDictToString (configStringToDict conf))) = map_of (configStringToDict conf)"
  by (rule configString_roundtrip [OF confDict_configStringToDict])

text \<open>The text written for a dictionary is the same for every order in which Go may walk the
  map.\<close>

theorem configDictToString_order_independent:
  assumes "gomap_ok d" and "gomap_ok d'" and "map_of d = map_of d'"
  shows "configDictToString d = configDictToString d'"
  by (rule configDictToString_cong [OF assms])

theorem configDictToString_order_independent_witness:
  "configDictToString [(''a'', ''1''), (''b'', ''2'')] = configDictToString [(''b'', ''2''), (''a'', ''1'')]"
  by (rule configDictToString_order_independent) (auto simp: gomap_ok_def fun_eq_iff)

text \<open>C10: Updating nvmesh.conf keeps every parameter the user added, sets every expected one, asks
  for an update exactly when an expected parameter differs, and settles: against the text it
  wrote, no further update is asked for and the text stays the same.\<close>

theorem shouldUpdateNVMeshConf_converges:
  "let (shouldUpdate, new) = shouldUpdateNVMeshConf cr expected current in
     map_of (configStringToDict new) = map_of (configStringToDict current) ++ map_of (configStringToDict expected) \<and>
     (shouldUpdate = (\<exists>k. gomap_has (configStringToDict expected) k \<and>
        gomap_get (configStringToDict current) k \<noteq> gomap_get (configStringToDict expected) k)) \<and>
     shouldUpdateNVMeshConf cr expected new = (False, new)"
proof -
  obtain b new where r: "shouldUpdateNVMeshConf cr expected current = (b, new)" by (metis surj_pair)
  note m = shouldUpdateNVMeshConf_map [of cr expected current, unfolded r fst_conv snd_conv]
  obtain b' new' where r': "shouldUpdateNVMeshConf cr expected new = (b', new')" by (metis surj_pair)
  note m' = shouldUpdateNVMeshConf_map [of cr expected new, unfolded r' fst_conv snd_conv]
  have "\<not> b'" using m' m(1) by (auto simp: gomap_has_def gomap_get_def)
  moreover have "new' = new"
  proof -
    have "new = configDictToString (confCopy (map fst (configStringToDict current)) (configStringToDict current) (configStringToDict expected))"
      "new' = configDictToString (confCopy (map fst (configStringToDict new)) (configStringToDict new) (configStringToDict expected))"
      using r r' by (auto simp: shouldUpdateNVMeshConf_def Let_def)
    moreover have "map_of (configStringToDict new) ++ map_of (configStringToDict expected) =
        map_of (configStringToDict current) ++ map_of (configStringToDict expected)"
      unfolding m(1) by (simp add: fun_eq_iff map_add_def split: option.splits)
    ultimately show ?thesis
      using confDict_configStringToDict by (simp add: configDictToString_cong confCopy_ok confCopy_expected confDict_def)
  qed
  ultimately show ?thesis using m unfolding r r' by (simp add: r')
qed

text \<open>A daemon set is left alone exactly when it has as many containers as expected, each with
  the expected image, and no container says another NVMesh version than the resource.\<close>

theorem shouldUpdateDaemonSet_iff:
  "(\<not> shouldUpdateDaemonSet cr expected ds) =
     (map c_image (dsContainers ds) = map c_image (dsContainers expected) \<and>
      list_all (\<lambda>c. {ev_value e |e. e \<in> set (c_env c) \<and> ev_name e = envVarNVMeshVersion} \<subseteq> {core_Version (core cr)})
        (dsContainers ds))"
proof (cases "length (dsContainers ds) = length (dsContainers expected)")
  case True
  have "(\<not> envVersionDiffers cr envs) =
      ({ev_value e |e. e \<in> set envs \<and> ev_name e = envVarNVMeshVersion} \<subseteq> {core_Version (core cr)})" for envs
    by (auto simp: envVersionDiffers_iff)
  with True show ?thesis
    by (simp add: shouldUpdateDaemonSet_def containersDiffer_iff list_all_iff)
next
  case False
  then have "map c_image (dsContainers ds) \<noteq> map c_image (dsContainers expected)" by (metis length_map)
  with False show ?thesis by (simp add: shouldUpdateDaemonSet_def)
qed

text \<open>Deploying the core component never deletes, and every object it creates is in the
  namespace of the resource and carries the operator's labels.\<close>

theorem deployCore_safe:
  assumes "retries (retryDefaultBackoff env)" and "ownerRefOnly env"
  shows "emits (\<lambda>q. isRead q \<or> isUpdate q \<or> (\<exists>x. q = ReqCreate x \<and> namespaceOf x = crNamespace cr \<and> hasOperatorLabels cr x))
    (deployCore env cr)"
  unfolding deployCore_def by (rule corec.steps_createObjectsFromDir) (use assms in auto)

theorem deployCore_safe_witness:
  "emits (\<lambda>q. isRead q \<or> isUpdate q \<or> (\<exists>x. q = ReqCreate x \<and> namespaceOf x = ''ns'' \<and> hasOperatorLabels sampleCR x))
    (deployCore (memKube sampleFiles sampleDec) sampleCR)"
  using deployCore_safe [of "memKube sampleFiles sampleDec" sampleCR]
  by (simp add: sampleCR_def crNamespace_def)

text \<open>On a server that keeps what it is given, when reconciling an enabled core component
  reports no error, every object of every file of its directory is on the server.\<close>

theorem coreReconcile_creates_all:
  assumes "serves env st" and "retries (retryDefaultBackoff env)" and "ownerRefOnly env"
    and "staticAssets env nvmeshCoreAssestLocation assets"
    and "\<not> core_Disabled (core cr)"
    and "coreReconcile env cr s = Some ((result, None), s')"
  shows "list_all (\<lambda>(f, t). keyIn cr ` set (assetObjects env t) \<subseteq> st (world s')) assets"
proof -
  from assms(5,6) have "createObjectsFromDir env cr coreComponent nvmeshCoreAssestLocation True s = Some (None, s')"
    by (auto simp: coreReconcile_def deployCore_def bind_case_prod_Some)
  from corec.createObjectsFromDir_exist [OF assms(1-4) this] show ?thesis by (simp add: list_all_iff)
qed

theorem coreReconcile_creates_all_witness:
  "\<exists>s'. coreReconcile (memKube sampleFiles sampleDec) sampleCR (memState sampleMem) = Some ((DoNotRequeue, None), s') \<and>
     (''ServiceAccount'', ''ns'', ''sa'') \<in> keyOf ` set (m_objs (world s'))"
proof -
  have "map_option fst (coreReconcile (memKube sampleFiles sampleDec) sampleCR (memState sampleMem)) = Some (DoNotRequeue, None)"
    by code_simp
  then obtain s' where r: "coreReconcile (memKube sampleFiles sampleDec) sampleCR (memState sampleMem) = Some ((DoNotRequeue, None), s')"
    by auto
  have "list_all (\<lambda>(f, t). keyIn sampleCR ` set (assetObjects (memKube sampleFiles sampleDec) t) \<subseteq> keyOf ` set (m_objs (world s'))) sampleFiles"
    by (rule coreReconcile_creates_all [OF memKube_serves _ _ sample_assets _ r]) (simp_all add: sampleCR_def zeroNVMesh_def)
  moreover have "map (keyIn sampleCR) (assetObjects (memKube sampleFiles sampleDec) ''sa'') = [(''ServiceAccount'', ''ns'', ''sa'')]"
    by code_simp
  ultimately have "(''ServiceAccount'', ''ns'', ''sa'') \<in> keyOf ` set (m_objs (world s'))"
    by (auto simp: sampleFiles_def)
  with r show ?thesis by blast
qed

text \<open>The steady state: when the server answers the look-up of an object of the core component
  with the object the operator would create now, the operator makes no other request.\<close>

theorem core_steady_state:
  assumes "ownerRefOnly env"
    and "coreInitObject cr (addOperatorLabels cr (setNamespace (crNamespace cr) x)) = Some (None, y)"
    and "kGet env (kindOf x) (getNamespaceForObject cr (kindOf x)) (nameOf x) (world s) = (Inr (snd (kSetControllerReference env cr y)), w)"
  shows "makeSureObjectExists env cr x (Some coreComponent) s =
    Some (None, s\<lparr>world := w, reqs := reqs s @ [ReqGet (kindOf x) (getNamespaceForObject cr (kindOf x)) (nameOf x)]\<rparr>)"
  by (rule corec.steady_state [OF assms(1) _ refl assms(3)]) (use assms(2) in \<open>simp add: coreComponent_def\<close>)

theorem core_steady_state_witness:
  "\<exists>w x. makeSureObjectExists (memKube [] sampleDec) sampleCR sampleObj (Some coreComponent) (memState (emptyMem\<lparr>m_objs := [x]\<rparr>)) =
    Some (None, (memState (emptyMem\<lparr>m_objs := [x]\<rparr>))\<lparr>world := w, reqs := [ReqGet ''ServiceAccount'' ''ns'' ''sa'']\<rparr>)"
proof -
  let ?env = "memKube [] sampleDec"
  let ?y = "addOperatorLabels sampleCR (setNamespace (crNamespace sampleCR) sampleObj)"
  let ?x = "snd (kSetControllerReference ?env sampleCR ?y)"
  have init: "coreInitObject sampleCR ?y = Some (None, ?y)"
    by (simp add: coreInitObject_def sampleObj_def setNamespace_def addOperatorLabels_def Let_def setLabels_def)
  have name: "nameOf sampleObj = ''sa''" "kindOf sampleObj = ''ServiceAccount''"
    by (simp_all add: sampleObj_def nameOf_def newMeta_def)
  have ns: "getNamespaceForObject sampleCR ''ServiceAccount'' = ''ns''"
    by (simp add: getNamespaceForObject_def GloballyNamedKinds_def sampleCR_def crNamespace_def)
  have key: "keyOf ?x = (''ServiceAccount'', ''ns'', ''sa'')"
    by (simp add: memKube_def keyOf_def name nameOf_def namespaceOf_def addOperatorLabels_def setLabels_def setNamespace_def
      Let_def sampleObj_def newMeta_def GloballyNamedKinds_def sampleCR_def crNamespace_def)
  have get: "kGet ?env (kindOf sampleObj) (getNamespaceForObject sampleCR (kindOf sampleObj)) (nameOf sampleObj)
      (world (memState (emptyMem\<lparr>m_objs := [?x]\<rparr>))) = (Inr ?x, emptyMem\<lparr>m_objs := [?x]\<rparr>)"
    using key by (simp add: name ns memGet_def memState_def)
  have "reqs (memState (emptyMem\<lparr>m_objs := [?x]\<rparr>)) = []" by (simp add: memState_def)
  with core_steady_state [OF _ init get] show ?thesis
    unfolding name ns by (intro exI [of _ "emptyMem\<lparr>m_objs := [?x]\<rparr>"] exI [of _ ?x]) simp
qed

end
