(* ===== verification/Uninstall.thy ===== *)
theory Uninstall
  imports CollectLogs CoreController
begin

text \<open>
  pkg/controllers/uninstall.go: taking the cluster down before its resource may be deleted. The
  uninstallation is a list of stages; each is run until it neither asks for another cycle nor fails,
  and the finished ones are remembered in the task statuses of the resource. The abstract state is a
  counter, the number of finished stages (\<open>tasksDone\<close>).
\<close>

definition uninstallJobNamePrefix :: string where "uninstallJobNamePrefix = ''n-uninstall-''"
definition clearDbJobName :: string where "clearDbJobName = ''nvmesh-clear-db-job''"
definition uninstallJobImageName :: string where "uninstallJobImageName = ''nvmesh-uninstall-job''"

definition uninstallAction :: cluster_action where
  "uninstallAction = \<lparr>act_Name = ''uninstall'', act_Args = None\<rparr>"

section \<open>Stages\<close>

datatype uninstall_stage =
    RemoveAllWorkloads
  | WaitForWorkloadsToFinish
  | ClearDB
  | WaitForClearDBToFinish
  | RemoveMongo
  | UninstallClusterNodes
  | DeletePVCs
  | DeleteClusterServiceAccount

text \<open>In the order the code lists them.\<close>

fun stageRank :: "uninstall_stage \<Rightarrow> nat" where
  "stageRank RemoveAllWorkloads = 0"
| "stageRank WaitForWorkloadsToFinish = 1"
| "stageRank ClearDB = 2"
| "stageRank WaitForClearDBToFinish = 3"
| "stageRank RemoveMongo = 4"
| "stageRank UninstallClusterNodes = 5"
| "stageRank DeletePVCs = 6"
| "stageRank DeleteClusterServiceAccount = 7"

lemma stageRank_inject: "stageRank x = stageRank y \<longleftrightarrow> x = y"
  by (cases x; cases y) simp_all

instantiation uninstall_stage :: linorder
begin

definition less_eq_uninstall_stage :: "uninstall_stage \<Rightarrow> uninstall_stage \<Rightarrow> bool" where
  "less_eq_uninstall_stage x y \<longleftrightarrow> stageRank x \<le> stageRank y"

definition less_uninstall_stage :: "uninstall_stage \<Rightarrow> uninstall_stage \<Rightarrow> bool" where
  "less_uninstall_stage x y \<longleftrightarrow> stageRank x < stageRank y"

instance
  by standard (auto simp: less_eq_uninstall_stage_def less_uninstall_stage_def stageRank_inject)

end

fun stageName :: "uninstall_stage \<Rightarrow> string" where
  "stageName RemoveAllWorkloads = ''removeAllWorkloads''"
| "stageName WaitForWorkloadsToFinish = ''waitForWorkloadsToFinish''"
| "stageName ClearDB = ''clearDB''"
| "stageName WaitForClearDBToFinish = ''waitForClearDBToFinish''"
| "stageName RemoveMongo = ''removeMongo''"
| "stageName UninstallClusterNodes = ''uninstallClusterNodes''"
| "stageName DeletePVCs = ''deletePVCs''"
| "stageName DeleteClusterServiceAccount = ''deleteClusterServiceAccount''"

definition allStages :: "uninstall_stage list" where
  "allStages = [RemoveAllWorkloads, WaitForWorkloadsToFinish, ClearDB, WaitForClearDBToFinish, RemoveMongo,
     UninstallClusterNodes, DeletePVCs, DeleteClusterServiceAccount]"

section \<open>What the stages do\<close>

type_synonym 'w stage_run = "'w st \<Rightarrow> ((ctrl_result \<times> goerr option) \<times> 'w st) option"

definition removeMongo :: "'w kube \<Rightarrow> nvmesh \<Rightarrow> 'w st \<Rightarrow> (goerr option \<times> 'w st) option" where
  "removeMongo env cr = removeMongoDB env cr"

definition removeAllWorkloadsExceptMongo :: "'w kube \<Rightarrow> nvmesh \<Rightarrow> 'w stage_run" where
  "removeAllWorkloadsExceptMongo env cr s = do {
     (err, s) \<leftarrow> removeCore env cr s;
     if err \<noteq> None then Some ((DoNotRequeue, err), s)
     else do {
       (err, s) \<leftarrow> removeCSI env cr s;
       if err \<noteq> None then Some ((DoNotRequeue, err), s)
       else do {
         (err, s) \<leftarrow> removeManagement env cr s;
         if err \<noteq> None then Some ((DoNotRequeue, err), s) else Some ((DoNotRequeue, None), s)
       }
     }
   }"

definition waitForClearDBToFinish :: "'w kube \<Rightarrow> nvmesh \<Rightarrow> 'w stage_run" where
  "waitForClearDBToFinish env cr s = do {
     ((result, err), s) \<leftarrow> waitForJobToFinish env cr clearDbJobName s;
     if Requeue result then Some ((result, None), s)
     else do {
       (err, s) \<leftarrow> deleteJob env (crNamespace cr) clearDbJobName s;
       if err \<noteq> None then Some ((DoNotRequeue, err), s) else Some ((DoNotRequeue, None), s)
     }
   }"

definition waitForWorkloadsToFinish :: "'w kube \<Rightarrow> nvmesh \<Rightarrow> 'w stage_run" where
  "waitForWorkloadsToFinish env cr s =
     (case kNewRequirement env ''nvmesh.excelero.com/component'' ''in'' [''client'', ''target'', ''mcs-agent'', ''csi-node-driver''] of
        (_, Some err) \<Rightarrow> Some ((DoNotRequeue, Some err), s)
      | (None, None) \<Rightarrow> None
      | (Some require, None) \<Rightarrow> do {
          ((err, pods), s) \<leftarrow> clientListPods env (PodsSelected require) s;
          if err \<noteq> None then Some ((DoNotRequeue, err), s)
          else if length pods > 0 then Some ((RequeueIn second, None), s)
          else Some ((DoNotRequeue, None), s)
        })"

definition clearDbJob :: "nvmesh \<Rightarrow> job option" where
  "clearDbJob cr = do {
     let job = (getNewJob cr clearDbJobName (getCoreFullImageName cr mongoInstanceImageName))\<lparr>j_backoffLimit := Some 1\<rparr>;
     job \<leftarrow> jobContainer (\<lambda>c. c\<lparr>c_command := [''mongo''],
       c_args := [getMongoConnectionString cr @ ''/management'', ''--eval'', ''db.dropDatabase()'']\<rparr>) job;
     onPodSpec (\<lambda>ps. Some (ps\<lparr>ps_imagePullSecrets := getExceleroRegistryPullSecrets\<rparr>)) job
   }"

definition runClearDbJob :: "'w kube \<Rightarrow> nvmesh \<Rightarrow> 'w st \<Rightarrow> (goerr option \<times> 'w st) option" where
  "runClearDbJob env cr s = do {
     job \<leftarrow> clearDbJob cr;
     createJob env ''Failed to create Clear DB job'' job s
   }"

definition getUninstallJobName :: "string \<Rightarrow> string" where
  "getUninstallJobName name = uninstallJobNamePrefix @ sanitizeString name"

definition getUninstallJobImageName :: "nvmesh \<Rightarrow> string" where
  "getUninstallJobImageName cr = getCoreFullImageName cr uninstallJobImageName"

definition getUninstallJob :: "nvmesh \<Rightarrow> string \<Rightarrow> job option" where
  "getUninstallJob cr name =
     onPodSpec (\<lambda>ps. do {
       ps \<leftarrow> addHostPathMount 0 ''/opt'' ps;
       ps \<leftarrow> addHostPathMount 0 ''/etc/opt'' ps;
       ps \<leftarrow> addHostPathMount 0 ''/var/log'' ps;
       ps \<leftarrow> addHostPathMount 0 ''/var/opt'' ps;
       ps \<leftarrow> onContainer0 (\<lambda>c. setContainerAsPrivileged (c\<lparr>c_env := [plainEnv ''KEEP_DOWNLOAD_CACHE'' ''false'']\<rparr>)) ps;
       Some (ps\<lparr>ps_nodeName := name\<rparr>)
     }) (getNewJob cr (getUninstallJobName name) (getUninstallJobImageName cr))"

definition uninstallNode :: "'w kube \<Rightarrow> nvmesh \<Rightarrow> string \<Rightarrow> 'w st \<Rightarrow> (goerr option \<times> 'w st) option" where
  "uninstallNode env cr name s = do {
     job \<leftarrow> getUninstallJob cr name;
     let labels = [(''job-name'', om_name (j_meta job))];
     let job = job\<lparr>j_selector := Some labels, j_template := (j_template job)\<lparr>pt_labels := Some labels\<rparr>\<rparr>;
     job \<leftarrow> onPodSpec (\<lambda>ps. Some (ps\<lparr>ps_nodeSelector := [(''kubernetes.io/hostname'', name)]\<rparr>)) job;
     (err, s) \<leftarrow> clientCreate env (Job job) s;
     Some (case err of
         None \<Rightarrow> None
       | Some e \<Rightarrow> if \<not> isAlreadyExists e
           then Some (WrappedError (''Failed to run UninstallJob on node '' @ name @ ''. Error: '' @ errorText e) e) else None, s)
   }"

text \<open>The error of a node is logged; the outer \<open>err\<close>, which is returned, is never set.\<close>

fun runUninstallJobs :: "'w kube \<Rightarrow> nvmesh \<Rightarrow> node list \<Rightarrow> 'w st \<Rightarrow> (goerr option \<times> 'w st) option" where
  "runUninstallJobs env cr [] s = Some (None, s)"
| "runUninstallJobs env cr (n # ns) s = do {
     (_, s) \<leftarrow> uninstallNode env cr (nodeName n) s;
     runUninstallJobs env cr ns s
   }"

fun waitForUninstallCompletion :: "'w kube \<Rightarrow> nvmesh \<Rightarrow> node list \<Rightarrow> 'w stage_run" where
  "waitForUninstallCompletion env cr [] s = Some ((DoNotRequeue, None), s)"
| "waitForUninstallCompletion env cr (n # ns) s = do {
     ((result, err), s) \<leftarrow> waitForJobToFinish env cr (getUninstallJobName (nodeName n)) s;
     if Requeue result \<or> err \<noteq> None then Some ((result, err), s)
     else waitForUninstallCompletion env cr ns s
   }"

definition deleteUninstallJobs :: "'w kube \<Rightarrow> nvmesh \<Rightarrow> node list \<Rightarrow> 'w st \<Rightarrow> (goerr option \<times> 'w st) option" where
  "deleteUninstallJobs env cr nodeList = deleteNodeJobs env cr getUninstallJobName nodeList"

definition uninstallClusterNodes :: "'w kube \<Rightarrow> nvmesh \<Rightarrow> 'w stage_run" where
  "uninstallClusterNodes env cr s = do {
     (r, s) \<leftarrow> getAllNVMeshClusterNodes env s;
     case r of
       Inl err \<Rightarrow> Some ((DoNotRequeue,
         Some (WrappedError (''Failed to list all of the nodes in NVMesh Cluster '' @ crName cr) err)), s)
     | Inr nodeSet \<Rightarrow> do {
         (nodeList, s) \<leftarrow> nodeSetToList env nodeSet s;
         (err, s) \<leftarrow> runUninstallJobs env cr nodeList s;
         if err \<noteq> None then Some ((DoNotRequeue, err), s)
         else do {
           ((result, err), s) \<leftarrow> waitForUninstallCompletion env cr nodeList s;
           if err \<noteq> None \<or> Requeue result then Some ((result, err), s)
           else do {
             (err, s) \<leftarrow> deleteUninstallJobs env cr nodeList s;
             if err \<noteq> None then Some ((DoNotRequeue, err), s) else Some ((DoNotRequeue, None), s)
           }
         }
       }
   }"

definition deleteClusterServiceAccount :: "'w kube \<Rightarrow> nvmesh \<Rightarrow> 'w stage_run" where
  "deleteClusterServiceAccount env cr s = do {
     let sa = getClusterServiceAccount cr;
     let (role, rb) = getNVMeshClusterRoleAndRoleBinding cr;
     (err, s) \<leftarrow> makeSureObjectRemoved env cr sa s;
     if err \<noteq> None then Some ((RequeueIn second, err), s)
     else do {
       (err, s) \<leftarrow> makeSureObjectRemoved env cr role s;
       if err \<noteq> None then Some ((RequeueIn second, err), s)
       else do {
         (err, s) \<leftarrow> makeSureObjectRemoved env cr rb s;
         if err \<noteq> None then Some ((RequeueIn second, err), s)
         else Some ((\<lparr>Requeue = False, RequeueAfter = 0\<rparr>, None), s)
       }
     }
   }"

text \<open>Errors of single claims are logged.\<close>

fun removeClaims :: "'w kube \<Rightarrow> nvmesh \<Rightarrow> persistent_volume_claim list \<Rightarrow> 'w st \<Rightarrow> (unit \<times> 'w st) option" where
  "removeClaims env cr [] s = Some ((), s)"
| "removeClaims env cr (pvc # pvcs) s = do {
     (_, s) \<leftarrow> makeSureObjectRemoved env cr (PersistentVolumeClaim pvc) s;
     removeClaims env cr pvcs s
   }"

text \<open>The error of \<open>NewRequirement\<close> is dropped; a nil requirement is dereferenced.\<close>

definition deletePVCs :: "'w kube \<Rightarrow> nvmesh \<Rightarrow> 'w stage_run" where
  "deletePVCs env cr s = do {
     require \<leftarrow> fst (kNewRequirement env deleteOnUninstallLabelKey ''exists'' ['''']);
     ((err, pvcs), s) \<leftarrow> clientListPVCs env require s;
     case err of
       Some e \<Rightarrow> Some ((\<lparr>Requeue = False, RequeueAfter = 0\<rparr>,
         Some (WrappedError ''Failed to list PersistentVolumeClaims to delete'' e)), s)
     | None \<Rightarrow> do {
         (_, s) \<leftarrow> removeClaims env cr pvcs s;
         Some ((\<lparr>Requeue = False, RequeueAfter = 0\<rparr>, None), s)
       }
   }"

fun runStage :: "'w kube \<Rightarrow> uninstall_stage \<Rightarrow> nvmesh \<Rightarrow> 'w stage_run" where
  "runStage env RemoveAllWorkloads cr s = removeAllWorkloadsExceptMongo env cr s"
| "runStage env WaitForWorkloadsToFinish cr s = waitForWorkloadsToFinish env cr s"
| "runStage env ClearDB cr s = do { (err, s) \<leftarrow> runClearDbJob env cr s; Some ((DoNotRequeue, err), s) }"
| "runStage env WaitForClearDBToFinish cr s = waitForClearDBToFinish env cr s"
| "runStage env RemoveMongo cr s = do { (err, s) \<leftarrow> removeMongo env cr s; Some ((DoNotRequeue, err), s) }"
| "runStage env UninstallClusterNodes cr s = uninstallClusterNodes env cr s"
| "runStage env DeletePVCs cr s = deletePVCs env cr s"
| "runStage env DeleteClusterServiceAccount cr s = deleteClusterServiceAccount env cr s"

section \<open>The loop over the stages\<close>

text \<open>The two early returns of the loop: another cycle, without the error; or the error.\<close>

definition stageOutcome :: "ctrl_result \<Rightarrow> goerr option \<Rightarrow> (ctrl_result \<times> goerr option) option" where
  "stageOutcome result err =
     (if Requeue result then Some (result, None)
      else if err \<noteq> None then Some (DoNotRequeue, err)
      else None)"

fun runStages ::
  "'w kube \<Rightarrow> uninstall_stage list \<Rightarrow> nvmesh \<Rightarrow> 'w st \<Rightarrow> (((ctrl_result \<times> goerr option) \<times> nvmesh) \<times> 'w st) option" where
  "runStages env [] cr s =
     (let cr = setActionComplete cr uninstallAction;
          cr = upd_csi (csi_Disabled_update (\<lambda>_. True)) cr;
          cr = upd_mgmt (mgmt_Disabled_update (\<lambda>_. True)) cr;
          cr = upd_core (core_Disabled_update (\<lambda>_. True)) cr
      in Some (((DoNotRequeue, None), cr), s))"
| "runStages env (stage # stages) cr s =
     runTask uninstallAction (stageName stage)
       (\<lambda>cr s. do { ((result, err), s) \<leftarrow> runStage env stage cr s; Some (stageOutcome result err, s) })
       (runStages env stages) cr s"

definition uninstallCluster ::
  "'w kube \<Rightarrow> nvmesh \<Rightarrow> 'w st \<Rightarrow> (((ctrl_result \<times> goerr option) \<times> nvmesh) \<times> 'w st) option" where
  "uninstallCluster env nvmeshCluster s =
     (if op_SkipUninstall (oper nvmeshCluster) then Some (((DoNotRequeue, None), nvmeshCluster), s)
      else runStages env allStages nvmeshCluster s)"

section \<open>What each stage may ask of the API server\<close>

fun deletesKind :: "string list \<Rightarrow> request \<Rightarrow> bool" where
  "deletesKind kinds (ReqDelete x) = (kindOf x \<in> set kinds)"
| "deletesKind kinds _ = False"

fun deletesIn :: "string \<Rightarrow> request \<Rightarrow> bool" where
  "deletesIn ns (ReqDelete x) = (namespaceOf x = ns)"
| "deletesIn ns _ = False"

fun createsJob :: "(string \<Rightarrow> bool) \<Rightarrow> request \<Rightarrow> bool" where
  "createsJob P (ReqCreate (Job j)) = P (om_name (j_meta j))"
| "createsJob P _ = False"

fun stageRequest :: "string \<Rightarrow> uninstall_stage \<Rightarrow> request \<Rightarrow> bool" where
  "stageRequest ns RemoveAllWorkloads q = (isRead q \<or> deletesIn ns q)"
| "stageRequest ns WaitForWorkloadsToFinish q = isRead q"
| "stageRequest ns ClearDB q = createsJob (\<lambda>n. n = clearDbJobName) q"
| "stageRequest ns WaitForClearDBToFinish q = (isRead q \<or> deletesKind [''Job'', ''Pod''] q)"
| "stageRequest ns RemoveMongo q = (isRead q \<or> deletesIn ns q)"
| "stageRequest ns UninstallClusterNodes q =
     (isRead q \<or> createsJob (\<lambda>n. take (length uninstallJobNamePrefix) n = uninstallJobNamePrefix) q \<or> deletesKind [''Job'', ''Pod''] q)"
| "stageRequest ns DeletePVCs q = (isRead q \<or> (deletesKind [''PersistentVolumeClaim''] q \<and> deletesIn ns q))"
| "stageRequest ns DeleteClusterServiceAccount q =
     (isRead q \<or> (deletesKind [''ServiceAccount'', ''Role'', ''RoleBinding''] q \<and> deletesIn ns q))"

lemma emits_removed:
  assumes "\<And>q. isRead q \<Longrightarrow> P q" and "P (ReqDelete (setNamespace (crNamespace cr) x))"
  shows "emits P (makeSureObjectRemoved env cr x)"
  unfolding makeSureObjectRemoved_def Let_def
  by (intro steps_intro allowsReads_grows) (use assms in auto)

lemma emits_removeDir:
  assumes "\<And>q. isRead q \<Longrightarrow> P q" and "\<And>x. namespaceOf x = crNamespace cr \<Longrightarrow> P (ReqDelete x)"
  shows "emits P (removeObjectsFromDir env cr C dir recursive)"
  by (rule steps_removeObjectsFromDir) (use assms in auto)

lemma emits_deletePods:
  assumes "\<And>x. kindOf x \<in> {''Job'', ''Pod''} \<Longrightarrow> P (ReqDelete x)"
  shows "emits P (deletePods env pods)"
proof (induction pods)
  case Nil
  show ?case unfolding deletePods.simps by (intro steps_intro)
next
  case (Cons p pods)
  show ?case unfolding deletePods.simps by (intro steps_intro Cons assms) simp
qed

lemma emits_deleteJob:
  assumes "\<And>q. isRead q \<Longrightarrow> P q" and "\<And>x. kindOf x \<in> {''Job'', ''Pod''} \<Longrightarrow> P (ReqDelete x)"
  shows "emits P (deleteJob env ns j)"
  unfolding deleteJob_def getJobPods_def
  by (intro steps_intro emits_deletePods) (use assms in auto)

lemma emits_deleteNodeJobs:
  assumes "\<And>q. isRead q \<Longrightarrow> P q" and "\<And>x. kindOf x \<in> {''Job'', ''Pod''} \<Longrightarrow> P (ReqDelete x)"
  shows "emits P (deleteNodeJobs env cr f ns)"
proof (induction ns)
  case Nil
  show ?case unfolding deleteNodeJobs.simps by (intro steps_intro)
next
  case (Cons n ns)
  show ?case unfolding deleteNodeJobs.simps by (intro steps_intro Cons emits_deleteJob) (use assms in auto)
qed

lemma emits_waitForUninstallCompletion:
  assumes "\<And>q. isRead q \<Longrightarrow> P q"
  shows "emits P (waitForUninstallCompletion env cr ns)"
proof (induction ns)
  case Nil
  show ?case unfolding waitForUninstallCompletion.simps by (intro steps_intro)
next
  case (Cons n ns)
  show ?case unfolding waitForUninstallCompletion.simps by (intro steps_intro Cons allowsReads_grows) (use assms in auto)
qed

lemma onPodSpec_name: "onPodSpec f j = Some j' \<Longrightarrow> j_meta j' = j_meta j"
  by (auto simp: onPodSpec_def bind_eq_Some)

lemma getUninstallJob_name: "getUninstallJob cr name = Some j \<Longrightarrow> om_name (j_meta j) = getUninstallJobName name"
  unfolding getUninstallJob_def by (drule onPodSpec_name) (simp add: getNewJob_def Let_def newMeta_def)

lemma emits_uninstallNode:
  assumes "\<And>j. om_name (j_meta j) = getUninstallJobName name \<Longrightarrow> P (ReqCreate (Job j))"
  shows "emits P (uninstallNode env cr name)"
  unfolding uninstallNode_def Let_def
  by (intro steps_intro assms) (auto dest!: onPodSpec_name getUninstallJob_name)

lemma emits_runUninstallJobs:
  assumes "\<And>j name. om_name (j_meta j) = getUninstallJobName name \<Longrightarrow> P (ReqCreate (Job j))"
  shows "emits P (runUninstallJobs env cr ns)"
proof (induction ns)
  case Nil
  show ?case unfolding runUninstallJobs.simps by (intro steps_intro)
next
  case (Cons n ns)
  show ?case unfolding runUninstallJobs.simps by (intro steps_intro Cons emits_uninstallNode assms)
qed

lemma emits_removeClaims:
  assumes "\<And>q. isRead q \<Longrightarrow> P q"
    and "\<And>x. kindOf x = ''PersistentVolumeClaim'' \<Longrightarrow> namespaceOf x = crNamespace cr \<Longrightarrow> P (ReqDelete x)"
  shows "emits P (removeClaims env cr pvcs)"
proof (induction pvcs)
  case Nil
  show ?case unfolding removeClaims.simps by (intro steps_intro)
next
  case (Cons p pvcs)
  show ?case unfolding removeClaims.simps by (intro steps_intro Cons emits_removed) (use assms in auto)
qed

lemma emits_runStage: "emits (stageRequest (crNamespace cr) stage) (runStage env stage cr)"
proof (cases stage)
  case RemoveAllWorkloads
  show ?thesis unfolding RemoveAllWorkloads runStage.simps removeAllWorkloadsExceptMongo_def removeCore_def removeCSI_def removeManagement_def
    by (intro steps_intro emits_removeDir) auto
next
  case WaitForWorkloadsToFinish
  have "emits (stageRequest (crNamespace cr) WaitForWorkloadsToFinish) (waitForWorkloadsToFinish env cr)"
    unfolding waitForWorkloadsToFinish_def by (intro steps_intro) auto
  then show ?thesis unfolding WaitForWorkloadsToFinish runStage.simps .
next
  case ClearDB
  have "om_name (j_meta j) = clearDbJobName" if "clearDbJob cr = Some j" for j
    using that by (auto simp: clearDbJob_def Let_def jobContainer_def bind_eq_Some getNewJob_def newMeta_def dest!: onPodSpec_name)
  then show ?thesis unfolding ClearDB runStage.simps runClearDbJob_def createJob_def
    by (intro steps_intro) auto
next
  case WaitForClearDBToFinish
  show ?thesis unfolding WaitForClearDBToFinish runStage.simps waitForClearDBToFinish_def
    by (intro steps_intro emits_deleteJob allowsReads_grows) auto
next
  case RemoveMongo
  show ?thesis unfolding RemoveMongo runStage.simps removeMongo_def removeMongoDB_def
    by (intro steps_intro emits_removeDir) auto
next
  case UninstallClusterNodes
  show ?thesis unfolding UninstallClusterNodes runStage.simps uninstallClusterNodes_def deleteUninstallJobs_def
    by (intro steps_intro emits_runUninstallJobs emits_waitForUninstallCompletion emits_deleteNodeJobs allowsReads_grows)
      (auto simp: getUninstallJobName_def)
next
  case DeletePVCs
  have "emits (stageRequest (crNamespace cr) DeletePVCs) (deletePVCs env cr)"
    unfolding deletePVCs_def by (intro steps_intro emits_removeClaims) auto
  then show ?thesis unfolding DeletePVCs runStage.simps .
next
  case DeleteClusterServiceAccount
  show ?thesis unfolding DeleteClusterServiceAccount runStage.simps deleteClusterServiceAccount_def Let_def getNVMeshClusterRoleAndRoleBinding_def
      getClusterServiceAccount_def prod.case
    by (intro steps_intro emits_removed) auto
qed

section \<open>The stages as a counter\<close>

definition stageNames :: "string list" where
  "stageNames = map stageName allStages"

text \<open>The first \<open>n\<close> stages are finished, and none after them.\<close>

definition stagesDone :: "nat \<Rightarrow> nvmesh \<Rightarrow> bool" where
  "stagesDone n cr \<longleftrightarrow> tasksDone uninstallAction stageNames n cr"

definition allDisabled :: "nvmesh \<Rightarrow> bool" where
  "allDisabled cr \<longleftrightarrow> csi_Disabled (csi cr) \<and> mgmt_Disabled (mgmt cr) \<and> core_Disabled (core cr)"

lemma stageNames_simps [simp]: "distinct stageNames" "length stageNames = 8" "length allStages = 8"
  by (simp_all add: stageNames_def allStages_def)

lemma stagesDone_complete: "stagesDone n (setActionComplete cr uninstallAction) \<longleftrightarrow> stagesDone n cr"
  unfolding stagesDone_def by (rule setActionComplete_done) (simp add: stageNames_def allStages_def actionComplete_def)

lemma stagesDone_status: "cr_Status cr' = cr_Status cr \<Longrightarrow> stagesDone n cr' = stagesDone n cr"
  by (simp add: stagesDone_def tasksDone_def finished_def taskStatus_def actionsStatus_def)

text \<open>
  A run of requests in the order of the stages: each request belongs to one of the stages from the
  \<open>n\<close>-th to the \<open>m\<close>-th, and the stages they belong to never go back.
\<close>

definition inOrder :: "string \<Rightarrow> nat \<Rightarrow> nat \<Rightarrow> request list \<Rightarrow> bool" where
  "inOrder ns n m new \<longleftrightarrow>
     (\<exists>stages. list_all2 (stageRequest ns) stages new \<and> sorted stages \<and>
        list_all (\<lambda>stage. n \<le> stageRank stage \<and> stageRank stage \<le> m) stages)"

lemma inOrder_Nil [simp]: "inOrder ns n m []"
  by (simp add: inOrder_def)

lemma inOrder_one: "list_all (stageRequest ns stage) new \<Longrightarrow> n \<le> stageRank stage \<Longrightarrow> stageRank stage \<le> m \<Longrightarrow> inOrder ns n m new"
  unfolding inOrder_def
  by (intro exI [of _ "replicate (length new) stage"])
    (auto simp: list_all2_conv_all_nth list_all_iff sorted_replicate)

lemma inOrder_append:
  assumes "inOrder ns n k a" "inOrder ns k m b" "n \<le> k" "k \<le> m"
  shows "inOrder ns n m (a @ b)"
proof -
  from assms obtain ss ts where "list_all2 (stageRequest ns) ss a" "sorted ss"
    "\<forall>x\<in>set ss. n \<le> stageRank x \<and> stageRank x \<le> k"
    "list_all2 (stageRequest ns) ts b" "sorted ts" "\<forall>x\<in>set ts. k \<le> stageRank x \<and> stageRank x \<le> m"
    unfolding inOrder_def list_all_iff by blast
  with assms(3,4) show ?thesis unfolding inOrder_def
    by (intro exI [of _ "ss @ ts"])
      (auto simp: sorted_append less_eq_uninstall_stage_def list_all_iff intro: list_all2_appendI order_trans)
qed

lemma inOrder_widen: "inOrder ns k m new \<Longrightarrow> n \<le> k \<Longrightarrow> inOrder ns n m new"
  using inOrder_append [of ns n k "[]" m new] unfolding inOrder_def list_all_iff by fastforce

text \<open>What the rest of the stages does to the counter, to the resource and to the API server.\<close>

definition stageRun :: "nat \<Rightarrow> nvmesh \<Rightarrow> 'w st \<Rightarrow> ctrl_result \<times> goerr option \<Rightarrow> nvmesh \<Rightarrow> 'w st \<Rightarrow> nat \<Rightarrow> bool" where
  "stageRun n cr s r cr' s' m \<longleftrightarrow>
     n \<le> m \<and> stagesDone m cr' \<and> cr_ObjectMeta cr' = cr_ObjectMeta cr \<and> st_Conditions (cr_Status cr') = st_Conditions (cr_Status cr) \<and>
     (if m = 8 then r = (DoNotRequeue, None) \<and> allDisabled cr'
      else (Requeue (fst r) \<and> snd r = None \<or> fst r = DoNotRequeue \<and> snd r \<noteq> None) \<and> cr_Spec cr' = cr_Spec cr) \<and>
     (\<exists>new. reqs s' = reqs s @ new \<and> inOrder (crNamespace cr) n m new)"

lemma stageRank_nth: "i < 8 \<Longrightarrow> stageRank (allStages ! i) = i"
  by (auto simp: allStages_def less_Suc_eq eval_nat_numeral)

text \<open>The three ways the rest goes on from a stage: it ends here, at the end, or after more stages.\<close>

lemma stageRun_here:
  assumes "stagesDone n cr'" "sameButActions cr cr'" "n < 8"
    and "grows (stageRequest (crNamespace cr) (allStages ! n)) s s'"
    and "Requeue (fst r) \<and> snd r = None \<or> fst r = DoNotRequeue \<and> snd r \<noteq> None"
  shows "stageRun n cr s r cr' s' n"
proof -
  from assms(4) obtain new where "reqs s' = reqs s @ new" "list_all (stageRequest (crNamespace cr) (allStages ! n)) new"
    by (rule growsE)
  moreover from this(2) have "inOrder (crNamespace cr) n n new"
    by (rule inOrder_one) (simp_all add: stageRank_nth [OF assms(3)])
  ultimately show ?thesis using assms by (auto simp: stageRun_def sameButActions_def)
qed

lemma stageRun_end: "stagesDone 8 cr \<Longrightarrow> runStages env [] cr s = Some ((r, cr'), s') \<Longrightarrow> stageRun 8 cr s r cr' s' 8"
proof -
  assume all: "stagesDone 8 cr" and "runStages env [] cr s = Some ((r, cr'), s')"
  then have r: "r = (DoNotRequeue, None)" "s' = s" and cr': "cr' = upd_core (core_Disabled_update (\<lambda>_. True))
      (upd_mgmt (mgmt_Disabled_update (\<lambda>_. True)) (upd_csi (csi_Disabled_update (\<lambda>_. True)) (setActionComplete cr uninstallAction)))"
    by (auto simp: Let_def)
  have "stagesDone 8 cr'"
    using all by (subst stagesDone_status [of _ "setActionComplete cr uninstallAction"]) (simp_all add: cr' stagesDone_complete)
  moreover have "sameButActions cr (setActionComplete cr uninstallAction)" by simp
  ultimately show ?thesis using r cr' by (auto simp: stageRun_def sameButActions_def allDisabled_def)
qed

lemma stageRun_next:
  assumes "sameButActions cr c" "n < 8" "grows (stageRequest (crNamespace cr) (allStages ! n)) s t"
    and "stageRun (Suc n) c t r cr' s' m"
  shows "stageRun n cr s r cr' s' m"
proof -
  from assms(3) obtain new where new: "reqs t = reqs s @ new" "list_all (stageRequest (crNamespace cr) (allStages ! n)) new"
    by (rule growsE)
  have first: "inOrder (crNamespace cr) n (Suc n) new"
    by (rule inOrder_one [OF new(2)]) (simp_all add: stageRank_nth [OF assms(2)])
  have "crNamespace c = crNamespace cr" using assms(1) by (simp add: sameButActions_def crNamespace_def)
  with assms(4) obtain new' where new': "reqs s' = reqs t @ new'" "inOrder (crNamespace cr) (Suc n) m new'" "Suc n \<le> m"
    by (auto simp: stageRun_def)
  have "inOrder (crNamespace cr) n m (new @ new')" by (rule inOrder_append [OF first new'(2) _ new'(3)]) simp
  then have "\<exists>new. reqs s' = reqs s @ new \<and> inOrder (crNamespace cr) n m new" using new(1) new'(1) by auto
  with assms(1,4) show ?thesis by (auto simp: stageRun_def sameButActions_def)
qed

lemma stageRun_same: "sameButActions cr c \<Longrightarrow> stageRun n c s r cr' s' m \<Longrightarrow> stageRun n cr s r cr' s' m"
  by (auto simp: stageRun_def sameButActions_def crNamespace_def)

lemma runStages_counter:
  assumes "allStages = pre @ stages" "stagesDone n cr" "length pre \<le> n" "runStages env stages cr s = Some ((r, cr'), s')"
  shows "\<exists>m. stageRun n cr s r cr' s' m"
  using assms
proof (induction stages arbitrary: pre n cr s)
  case Nil
  from Nil.prems(1,3) have "8 \<le> n" using stageNames_simps(3) by (metis append_Nil2)
  with Nil.prems(2) have "n = 8" by (simp add: stagesDone_def tasksDone_def)
  with Nil.prems(2,4) stageRun_end show ?case by blast
next
  case (Cons stage stages)
  let ?k = "length pre"
  have k: "?k < 8" "allStages ! ?k = stage" using Cons.prems(1) stageNames_simps(3) by (metis length_append add_lessD1 length_Cons
      less_add_Suc1 add_Suc_right, metis nth_append_length)
  have name: "stageName stage = stageNames ! ?k" using k by (simp add: stageNames_def)
  have pre: "allStages = (pre @ [stage]) @ stages" using Cons.prems(1) by simp
  let ?run = "\<lambda>cr s. do { ((result, err), s) \<leftarrow> runStage env stage cr s; Some (stageOutcome result err, s) }"
  have req: "grows (stageRequest (crNamespace cr) (allStages ! ?k)) t t'"
    if "?run c t = Some (o', t')" "sameButActions cr c" for c t t' o'
    using that k(2) by (auto simp: bind_eq_Some sameButActions_def crNamespace_def dest: stepsD [OF emits_runStage])
  have rest: "\<exists>m. stageRun n' c t r cr' s' m" if "stagesDone n' c" "?k < n'" "runStages env stages c t = Some ((r, cr'), s')" for n' c t
    using Cons.IH [OF pre that(1) _ that(3)] that(2) by simp
  from Cons.prems(4) have run: "runTask uninstallAction (stageName stage) ?run (runStages env stages) cr s = Some ((r, cr'), s')"
    by simp
  show ?case
  proof (cases rule: runTask_tasksDone [OF stageNames_simps(1) _ name Cons.prems(2) [unfolded stagesDone_def] Cons.prems(3) run])
    case 1
    then show ?case using k by simp
  next
    case (2 c)
    then obtain m where "stageRun n c s r cr' s' m" using rest [of n c s] by (auto simp: stagesDone_def)
    with 2(2) show ?thesis by (blast intro: stageRun_same)
  next
    case (3 c)
    from 3(4) have "Requeue (fst r) \<and> snd r = None \<or> fst r = DoNotRequeue \<and> snd r \<noteq> None"
      by (auto simp: bind_eq_Some stageOutcome_def split: if_splits)
    from stageRun_here [OF _ _ k(1) req [OF 3(4,2)] this] 3 show ?thesis by (auto simp: stagesDone_def)
  next
    case (4 c t c')
    then obtain m where "stageRun (Suc ?k) c' t r cr' s' m" using rest [of "Suc ?k" c' t] by (auto simp: stagesDone_def)
    from stageRun_next [OF 4(4) k(1) req [OF 4(3,2)] this] show ?thesis unfolding 4(1) by blast
  qed
qed

lemma uninstallCluster_run:
  assumes "\<not> op_SkipUninstall (oper cr)" "stagesDone n cr" "uninstallCluster env cr s = Some ((r, cr'), s')"
  obtains m where "stageRun n cr s r cr' s' m"
proof -
  from assms(1,3) have "runStages env allStages cr s = Some ((r, cr'), s')" by (simp add: uninstallCluster_def)
  from runStages_counter [OF _ assms(2) _ this, of "[]"] that show thesis by auto
qed

lemma runStages_meta:
  "runStages env stages cr s = Some ((r, cr'), s') \<Longrightarrow> cr_ObjectMeta cr' = cr_ObjectMeta cr"
proof (induction stages arbitrary: cr s)
  case Nil
  have "sameButActions cr (setActionComplete cr uninstallAction)" by simp
  with Nil show ?case by (auto simp: Let_def sameButActions_def)
next
  case (Cons stage stages)
  have same: "cr_ObjectMeta (snd (isTaskFinished c a k)) = cr_ObjectMeta c" "cr_ObjectMeta (setTaskStarted c a k) = cr_ObjectMeta c"
    "cr_ObjectMeta (setTaskFinished c a k) = cr_ObjectMeta c" for c a k
    using sameButActions_ops [of c] unfolding sameButActions_def by blast+
  let ?t = "snd (isTaskFinished cr uninstallAction (stageName stage))"
  let ?u = "setTaskStarted ?t uninstallAction (stageName stage)"
  show ?case
  proof (cases "finished uninstallAction cr (stageName stage)")
    case True
    with Cons.prems have "runStages env stages ?t s = Some ((r, cr'), s')" by (simp add: runTask_finished)
    from Cons.IH [OF this] show ?thesis by (simp add: same)
  next
    case False
    with Cons.prems obtain y where "(case stageOutcome (fst (fst y)) (snd (fst y)) of Some r \<Rightarrow> Some ((r, ?u), snd y)
        | None \<Rightarrow> runStages env stages (setTaskFinished ?u uninstallAction (stageName stage)) (snd y)) = Some ((r, cr'), s')"
      by (auto simp: runTask_def case_prod_beta bind_eq_Some Let_def)
    then show ?thesis using Cons.IH by (cases "stageOutcome (fst (fst y)) (snd (fst y))") (auto simp: same)
  qed
qed

lemma uninstallCluster_meta: "uninstallCluster env cr s = Some ((r, cr'), s') \<Longrightarrow> cr_ObjectMeta cr' = cr_ObjectMeta cr"
  by (auto simp: uninstallCluster_def runStages_meta split: if_splits)

text \<open>With every stage finished nothing is asked of the API server.\<close>

lemma runStages_all_finished:
  assumes "list_all (finished uninstallAction cr \<circ> stageName) stages"
  shows "\<exists>cr'. runStages env stages cr s = Some (((DoNotRequeue, None), cr'), s) \<and> allDisabled cr' \<and>
    finished uninstallAction cr' actionComplete \<and> cr_ObjectMeta cr' = cr_ObjectMeta cr"
  using assms
proof (induction stages arbitrary: cr)
  case Nil
  have "sameButActions cr (setActionComplete cr uninstallAction)" by simp
  moreover have "finished uninstallAction (setActionComplete cr uninstallAction) actionComplete"
    by (simp add: setActionComplete_def finished_def taskStatus_set)
  moreover have "finished a (cr_Spec_update f c) k = finished a c k" for a f c k
    by (simp add: finished_def taskStatus_def actionsStatus_def)
  ultimately show ?case by (simp add: Let_def allDisabled_def sameButActions_def)
next
  case (Cons stage stages)
  let ?cr = "snd (isTaskFinished cr uninstallAction (stageName stage))"
  have "sameButActions cr ?cr" by simp
  moreover have "list_all (finished uninstallAction ?cr \<circ> stageName) stages" using Cons.prems by (simp add: o_def)
  ultimately show ?case using Cons.IH [of ?cr] Cons.prems by (simp add: runTask_finished sameButActions_def)
qed

lemma getUninstallJob_total:
  "\<exists>job. getUninstallJob cr name = Some job \<and> ps_nodeName (pt_spec (j_template job)) = name"
  by (simp add: getUninstallJob_def onPodSpec_def onContainer0_def getNewJob_def Let_def addHostPathMount_def mountVolume_def)

lemma uninstallNode_creates:
  "\<exists>job err s'. uninstallNode env cr name s = Some (err, s') \<and> reqs s' = reqs s @ [ReqCreate (Job job)] \<and>
     om_name (j_meta job) = getUninstallJobName name \<and> world s' = snd (kCreate env (Job job) (world s)) \<and>
     ps_nodeName (pt_spec (j_template job)) = name \<and>
     ps_nodeSelector (pt_spec (j_template job)) = [(''kubernetes.io/hostname'', name)]"
proof -
  obtain job where job: "getUninstallJob cr name = Some job" "ps_nodeName (pt_spec (j_template job)) = name"
    using getUninstallJob_total by blast
  let ?labels = "Some [(''job-name'', om_name (j_meta job))]"
  let ?j = "job\<lparr>j_selector := ?labels, j_template := (j_template job)\<lparr>pt_labels := ?labels,
    pt_spec := (pt_spec (j_template job))\<lparr>ps_nodeSelector := [(''kubernetes.io/hostname'', name)]\<rparr>\<rparr>\<rparr>"
  obtain err w where k: "kCreate env (Job ?j) (world s) = (err, w)" by (metis surj_pair)
  show ?thesis using job k getUninstallJob_name [OF job(1)]
    by (intro exI [of _ ?j]) (simp add: uninstallNode_def onPodSpec_def Let_def clientCreate_def apiCall_def)
qed

lemma runStages_keepsStatusOk: "keepsStatusOk (runStages env stages)"
proof (induction stages)
  case Nil
  have "statusOk cr' = statusOk (setActionComplete cr uninstallAction)"
    if "runStages env [] cr s = Some ((r, cr'), s')" for cr s r cr' s'
    using that by (auto simp: statusOk_def actionsStatus_def)
  then show ?case unfolding keepsStatusOk_def by simp
next
  case (Cons stage stages)
  then show ?case unfolding runStages.simps(2) [abs_def] by (rule keepsStatusOk_runTask)
qed

lemma uninstallCluster_keepsStatusOk: "keepsStatusOk (uninstallCluster env)"
  using runStages_keepsStatusOk [of env allStages] by (auto simp: keepsStatusOk_def uninstallCluster_def)

section \<open>Many cycles\<close>

text \<open>
  What the cycles of an uninstallation do one after the other, with the requests they sent. Between two
  cycles the world, the package state and the rest of the resource may change in any way; the next
  one is given the task statuses the last one left.
\<close>

inductive uninstallCycles :: "'w kube \<Rightarrow> nvmesh \<Rightarrow> request list \<Rightarrow> nvmesh \<Rightarrow> bool" for env where
  begins: "uninstallCycles env cr0 [] cr0"
| cycle: "uninstallCycles env cr0 history cr \<Longrightarrow> \<not> op_SkipUninstall (oper cr) \<Longrightarrow>
    uninstallCluster env cr s = Some ((r, cr'), s') \<Longrightarrow> reqs s' = reqs s @ new \<Longrightarrow>
    st_ActionsStatus (cr_Status cr'') = st_ActionsStatus (cr_Status cr') \<Longrightarrow> crNamespace cr'' = crNamespace cr' \<Longrightarrow>
    uninstallCycles env cr0 (history @ new) cr''"

lemma uninstallCycles_namespace: "uninstallCycles env cr0 history cr \<Longrightarrow> crNamespace cr = crNamespace cr0"
proof (induction rule: uninstallCycles.induct)
  case (begins cr0)
  show ?case by simp
next
  case (cycle cr0 history cr s r cr' s' new cr'')
  have "cr_ObjectMeta cr' = cr_ObjectMeta cr" by (rule uninstallCluster_meta [OF cycle.hyps(3)])
  with cycle show ?case by (simp add: crNamespace_def)
qed

section \<open>Properties\<close>

text \<open>C3: One cycle of the uninstallation moves the counter of finished stages from \<open>n\<close> to some
  \<open>m\<close> at least as large and loses no finished stage; it reports completion exactly when all eight are
  finished, and then the three components are disabled in the resource it returns; otherwise it asks for
  another cycle or reports an error, never both and never neither.\<close>

theorem uninstallCluster_refines_counter:
  assumes "\<not> op_SkipUninstall (oper cr)" and "stagesDone n cr"
    and "uninstallCluster env cr s = Some (((result, err), cr'), s')"
  shows "\<exists>m\<ge>n. stagesDone m cr' \<and> cr_ObjectMeta cr' = cr_ObjectMeta cr \<and>
    (if m = 8 then result = DoNotRequeue \<and> err = None \<and> allDisabled cr'
     else (Requeue result \<noteq> (err \<noteq> None)) \<and> cr_Spec cr' = cr_Spec cr)"
proof -
  obtain m where "stageRun n cr s (result, err) cr' s' m" by (rule uninstallCluster_run [OF assms])
  then show ?thesis by (intro exI [of _ m]) (auto simp: stageRun_def DoNotRequeue_def)
qed


text \<open>A finished uninstallation, and one the resource says to skip, succeed at once: no request, no
  panic, no error.\<close>

theorem uninstallCluster_done:
  assumes "op_SkipUninstall (oper cr) \<or> stagesDone 8 cr"
  shows "\<exists>cr'. uninstallCluster env cr s = Some (((DoNotRequeue, None), cr'), s) \<and> cr_ObjectMeta cr' = cr_ObjectMeta cr \<and>
    (if op_SkipUninstall (oper cr) then cr' = cr else allDisabled cr')"
proof (cases "op_SkipUninstall (oper cr)")
  case True
  then show ?thesis by (simp add: uninstallCluster_def)
next
  case False
  with assms have "finished uninstallAction cr (stageNames ! i)" if "i < 8" for i
    using that by (simp add: stagesDone_def tasksDone_def)
  then have "list_all (finished uninstallAction cr \<circ> stageName) allStages"
    by (simp add: list_all_length stageNames_def)
  with False runStages_all_finished [of cr allStages env s] show ?thesis by (auto simp: uninstallCluster_def)
qed

text \<open>C29: Uninstalling a list of nodes asks for one job per node, in the order of the list and pinned to
  the node, whatever failed before; and it never reports an error, although it is declared to.\<close>

theorem runUninstallJobs_every_node:
  "case runUninstallJobs env cr nodeList s of
     None \<Rightarrow> False
   | Some (err, s') \<Rightarrow> err = None \<and>
       (\<exists>jobs. reqs s' = reqs s @ map (\<lambda>j. ReqCreate (Job j)) jobs \<and>
          list_all2 (\<lambda>n j. om_name (j_meta j) = getUninstallJobName (nodeName n) \<and>
            ps_nodeName (pt_spec (j_template j)) = nodeName n) nodeList jobs)"
proof (induction nodeList arbitrary: s)
  case Nil
  show ?case by (auto intro: exI [of _ "[]"])
next
  case (Cons n ns)
  obtain job err t where 1: "uninstallNode env cr (nodeName n) s = Some (err, t)" "reqs t = reqs s @ [ReqCreate (Job job)]"
    "om_name (j_meta job) = getUninstallJobName (nodeName n)" "ps_nodeName (pt_spec (j_template job)) = nodeName n"
    using uninstallNode_creates by blast
  from Cons.IH [of t] obtain s' jobs where 2: "runUninstallJobs env cr ns t = Some (None, s')"
    "reqs s' = reqs t @ map (\<lambda>j. ReqCreate (Job j)) jobs"
    "list_all2 (\<lambda>n j. om_name (j_meta j) = getUninstallJobName (nodeName n) \<and> ps_nodeName (pt_spec (j_template j)) = nodeName n) ns jobs"
    by (auto split: option.splits)
  with 1 show ?case by (auto intro!: exI [of _ "job # jobs"])
qed

section \<open>Witnesses\<close>

text \<open>The sample resource after five of the eight stages.\<close>

definition afterStages :: "nat \<Rightarrow> nvmesh" where
  "afterStages n = setActionsStatus [(''uninstall'', map (\<lambda>k. (k, taskFinished)) (take n stageNames))] sampleCR"

lemma afterStages_done: "stagesDone 5 (afterStages 5)" "stagesDone 8 (afterStages 8)"
  "\<not> op_SkipUninstall (oper (afterStages n))"
proof -
  show "stagesDone 5 (afterStages 5)"
    unfolding stagesDone_def tasksDone_def stageNames_simps
    by (simp add: eval_nat_numeral All_less_Suc afterStages_def stageNames_def allStages_def finished_def taskStatus_def
        uninstallAction_def gomap_get_def taskFinished_def)
  show "stagesDone 8 (afterStages 8)"
    unfolding stagesDone_def tasksDone_def stageNames_simps
    by (simp add: eval_nat_numeral All_less_Suc afterStages_def stageNames_def allStages_def finished_def taskStatus_def
        uninstallAction_def gomap_get_def taskFinished_def)
  show "\<not> op_SkipUninstall (oper (afterStages n))"
    by (simp add: afterStages_def sampleCR_def zeroNVMesh_def)
qed

lemma last_stages:
  assumes "world s = emptyMem"
  shows "\<exists>s'. uninstallClusterNodes plainKube cr s = Some ((DoNotRequeue, None), s') \<and> world s' = emptyMem"
    and "\<exists>s'. deletePVCs plainKube cr s = Some ((DoNotRequeue, None), s') \<and> world s' = emptyMem"
    and "\<exists>s'. deleteClusterServiceAccount plainKube cr s = Some ((DoNotRequeue, None), s') \<and> world s' = emptyMem"
proof -
  show "\<exists>s'. uninstallClusterNodes plainKube cr s = Some ((DoNotRequeue, None), s') \<and> world s' = emptyMem"
    using assms by (simp add: uninstallClusterNodes_def getAllNVMeshClusterNodes_def getNodesWithLabel_def clientListNodes_def apiCall_def
        plainKube_def memKube_def nodeSetToList_def localCall_def deleteUninstallJobs_def emptyMem_def)
  show "\<exists>s'. deletePVCs plainKube cr s = Some ((DoNotRequeue, None), s') \<and> world s' = emptyMem"
    using assms by (simp add: deletePVCs_def clientListPVCs_def apiCall_def plainKube_def memKube_def emptyMem_def DoNotRequeue_def)
  show "\<exists>s'. deleteClusterServiceAccount plainKube cr s = Some ((DoNotRequeue, None), s') \<and> world s' = emptyMem"
    using assms by (simp add: deleteClusterServiceAccount_def getNVMeshClusterRoleAndRoleBinding_def makeSureObjectRemoved_def
        getGenericObject_def Let_def clientGet_def apiCall_def plainKube_def memGet_def emptyMem_def DoNotRequeue_def)
qed

lemma runStages_none: "runStages plainKube [] cr s \<noteq> None"
  by (simp add: Let_def)

lemma runTask_runs:
  assumes "\<And>c. \<exists>s'. run c s = Some (None, s') \<and> P s'" "\<And>c t. P t \<Longrightarrow> rest c t \<noteq> None" "P s"
  shows "runTask a k run rest cr s \<noteq> None"
proof -
  obtain s' where "run (setTaskStarted (snd (isTaskFinished cr a k)) a k) s = Some (None, s')" "P s'" using assms(1) by blast
  then show ?thesis using assms(2,3) by (auto simp: runTask_def case_prod_beta)
qed

lemma runStages_last: "world s = emptyMem \<Longrightarrow> runStages plainKube (drop 5 allStages) cr s \<noteq> None"
proof -
  have ok: "\<exists>s'. (do { ((result, err), s) \<leftarrow> runStage plainKube stage c t; Some (stageOutcome result err, s) }) = Some (None, s') \<and> world s' = emptyMem"
    if "world t = emptyMem" "stage \<in> set (drop 5 allStages)" for stage c t
    using last_stages [OF that(1), of c] that(2) by (auto simp: allStages_def stageOutcome_def)
  have 3: "runStages plainKube [DeleteClusterServiceAccount] c t \<noteq> None" if "world t = emptyMem" for c t
    unfolding runStages.simps(2)
    by (rule runTask_runs [where P = "\<lambda>s. world s = emptyMem", OF ok]) (use that runStages_none in \<open>simp_all add: allStages_def\<close>)
  have 2: "runStages plainKube [DeletePVCs, DeleteClusterServiceAccount] c t \<noteq> None" if "world t = emptyMem" for c t
    unfolding runStages.simps(2) [of _ DeletePVCs]
    by (rule runTask_runs [where P = "\<lambda>s. world s = emptyMem", OF ok]) (use that 3 in \<open>simp_all add: allStages_def del: runStages.simps\<close>)
  assume "world s = emptyMem"
  then have "runStages plainKube [UninstallClusterNodes, DeletePVCs, DeleteClusterServiceAccount] cr s \<noteq> None"
    unfolding runStages.simps(2) [of _ UninstallClusterNodes]
    by (intro runTask_runs [where P = "\<lambda>s. world s = emptyMem", OF ok]) (use 2 in \<open>simp_all add: allStages_def del: runStages.simps\<close>)
  then show ?thesis by (simp add: allStages_def del: runStages.simps)
qed

lemma runStages_skip:
  assumes "list_all (finished uninstallAction cr \<circ> stageName) stages1"
  shows "\<exists>cr'. runStages env (stages1 @ stages2) cr s = runStages env stages2 cr' s"
  using assms
proof (induction stages1 arbitrary: cr)
  case Nil
  show ?case by (intro exI [of _ cr]) simp
next
  case (Cons stage stages1)
  let ?cr = "snd (isTaskFinished cr uninstallAction (stageName stage))"
  have "list_all (finished uninstallAction ?cr \<circ> stageName) stages1" using Cons.prems by (simp add: o_def)
  with Cons.IH [of ?cr] Cons.prems show ?case by (simp add: runTask_finished)
qed

lemma sample_run:
  obtains result err cr' s' where
    "uninstallCluster plainKube (afterStages 5) (memState emptyMem) = Some (((result, err), cr'), s')"
proof -
  have "finished uninstallAction (afterStages 5) (stageNames ! i)" if "i < 5" for i
    using afterStages_done(1) that by (simp add: stagesDone_def tasksDone_def)
  then have "list_all (finished uninstallAction (afterStages 5) \<circ> stageName) (take 5 allStages)"
    by (simp add: list_all_length stageNames_def)
  then obtain c where "runStages plainKube (take 5 allStages @ drop 5 allStages) (afterStages 5) (memState emptyMem) =
      runStages plainKube (drop 5 allStages) c (memState emptyMem)"
    using runStages_skip by blast
  moreover have "runStages plainKube (drop 5 allStages) c (memState emptyMem) \<noteq> None"
    by (rule runStages_last) (simp add: memState_def)
  ultimately have "uninstallCluster plainKube (afterStages 5) (memState emptyMem) \<noteq> None"
    using afterStages_done(3) [of 5] by (simp add: uninstallCluster_def)
  then show thesis using that by (metis not_None_eq surj_pair)
qed

theorem uninstallCluster_refines_counter_witness:
  "\<exists>result err cr' s' m. uninstallCluster plainKube (afterStages 5) (memState emptyMem) = Some (((result, err), cr'), s') \<and>
     5 \<le> m \<and> stagesDone m cr'"
proof -
  obtain result err cr' s' where
    r: "uninstallCluster plainKube (afterStages 5) (memState emptyMem) = Some (((result, err), cr'), s')"
    by (rule sample_run)
  from uninstallCluster_refines_counter [OF afterStages_done(3) afterStages_done(1) r] r show ?thesis by blast
qed


theorem uninstallCluster_done_witness:
  "\<exists>cr'. uninstallCluster plainKube (afterStages 8) (memState emptyMem) =
      Some (((DoNotRequeue, None), cr'), memState emptyMem) \<and> allDisabled cr'"
  using uninstallCluster_done [of "afterStages 8" plainKube "memState emptyMem"] afterStages_done(2) afterStages_done(3) [of 8]
  by auto

end
