(* ===== verification/Finalizer.thy ===== *)
theory Finalizer
  imports Uninstall
begin

text \<open>
  pkg/controllers/finalizer.go: the finalizer that keeps the API server from deleting the resource
  before the cluster is uninstalled. The resource is passed in and returned, as the updates replace it
  by the server's answer.
\<close>

definition clusterFinalizerName :: string where
  "clusterFinalizerName = ''cluster.finalizers.nvmesh.excelero.com''"

definition nvmeshCsiDriverName :: string where
  "nvmeshCsiDriverName = ''nvmesh-csi.excelero.com''"

fun containsString :: "string list \<Rightarrow> string \<Rightarrow> bool" where
  "containsString [] s = False"
| "containsString (item # items) s = (if item = s then True else containsString items s)"

fun removeString :: "string list \<Rightarrow> string \<Rightarrow> string list" where
  "removeString [] s = []"
| "removeString (item # items) s = (if item = s then removeString items s else item # removeString items s)"

definition isBeingDeleted :: "nvmesh \<Rightarrow> bool" where
  "isBeingDeleted nvmeshCluster =
     (case crm_DeletionTimestamp (cr_ObjectMeta nvmeshCluster) of None \<Rightarrow> False | Some t \<Rightarrow> t \<noteq> 0)"

definition hasFinalizer :: "nvmesh \<Rightarrow> string \<Rightarrow> bool" where
  "hasFinalizer nvmeshCluster finName = containsString (crm_Finalizers (cr_ObjectMeta nvmeshCluster)) finName"

definition updFinalizers :: "(string list \<Rightarrow> string list) \<Rightarrow> nvmesh \<Rightarrow> nvmesh" where
  "updFinalizers f = cr_ObjectMeta_update (crm_Finalizers_update f)"

text \<open>\<open>r.Update\<close>\<close>

definition writeCR :: "'w kube \<Rightarrow> nvmesh \<Rightarrow> 'w st \<Rightarrow> ((goerr option \<times> nvmesh) \<times> 'w st) option" where
  "writeCR env cr s = do {
     (r, s) \<leftarrow> clientUpdateCR env cr s;
     Some (case r of Inl err \<Rightarrow> (Some err, cr) | Inr cr \<Rightarrow> (None, cr), s)
   }"

definition addFinalizerAndUpdate :: "'w kube \<Rightarrow> nvmesh \<Rightarrow> string \<Rightarrow> 'w st \<Rightarrow> ((goerr option \<times> nvmesh) \<times> 'w st) option" where
  "addFinalizerAndUpdate env nvmeshCluster finName =
     writeCR env (updFinalizers (\<lambda>fs. fs @ [finName]) nvmeshCluster)"

text \<open>It removes the operator's own finalizer, whichever it is given.\<close>

definition removeFinalizerAndUpdate :: "'w kube \<Rightarrow> nvmesh \<Rightarrow> string \<Rightarrow> 'w st \<Rightarrow> ((goerr option \<times> nvmesh) \<times> 'w st) option" where
  "removeFinalizerAndUpdate env nvmeshCluster finName =
     writeCR env (updFinalizers (\<lambda>fs. removeString fs clusterFinalizerName) nvmeshCluster)"

section \<open>Whether the cluster may be deleted\<close>

text \<open>The loop over the attachments; it prints the volume of each one, and dereferences its name.\<close>

fun collectAttachments :: "volume_attachment list \<Rightarrow> volume_attachment list option" where
  "collectAttachments [] = Some []"
| "collectAttachments (a # as) = do {
     _ \<leftarrow> va_persistentVolumeName a;
     rest \<leftarrow> collectAttachments as;
     Some (if va_attached a \<and> va_attacher a = nvmeshCsiDriverName then a # rest else rest)
   }"

fun attachmentsMessage :: "string \<Rightarrow> volume_attachment list \<Rightarrow> string option" where
  "attachmentsMessage errMsg [] = Some errMsg"
| "attachmentsMessage errMsg (a # as) = do {
     name \<leftarrow> va_persistentVolumeName a;
     attachmentsMessage (errMsg @ '' pvc: '' @ name @ '' on node: '' @ va_nodeName a @ '' '') as
   }"

definition verifyNoVolumeAttachments :: "'w kube \<Rightarrow> nvmesh \<Rightarrow> 'w st \<Rightarrow> (goerr option \<times> 'w st) option" where
  "verifyNoVolumeAttachments env cr s = do {
     ((err, items), s) \<leftarrow> clientListVolumeAttachments env s;
     case err of
       Some e \<Rightarrow> Some (Some (WrappedError ''Failed to list VolumeAttachments'' e), s)
     | None \<Rightarrow> do {
         nvmeshAttachments \<leftarrow> collectAttachments items;
         if length nvmeshAttachments > 0 then do {
           errMsg \<leftarrow> attachmentsMessage (''Found '' @ nat_dec (length nvmeshAttachments) @ '' attachments: '') nvmeshAttachments;
           Some (Some (ErrorString errMsg), s)
         }
         else Some (None, s)
       }
   }"

definition verifyNoPersistentVolumes :: "'w kube \<Rightarrow> nvmesh \<Rightarrow> 'w st \<Rightarrow> (goerr option \<times> 'w st) option" where
  "verifyNoPersistentVolumes env cr s = do {
     ((err, items), s) \<leftarrow> clientListPVs env s;
     case err of
       Some e \<Rightarrow> Some (Some (WrappedError ''Failed to list PersistentVolumes'' e), s)
     | None \<Rightarrow>
         let nvmeshPVs = map pv_name (filter (\<lambda>pv. pv_csiDriver pv = Some nvmeshCsiDriverName) items) in
         if length nvmeshPVs > 0
         then Some (Some (ErrorString (''Found '' @ nat_dec (length nvmeshPVs) @ '' NVMesh PersistentVolumes: '' @
           go_join '', '' nvmeshPVs)), s)
         else Some (None, s)
   }"

text \<open>Both checks are waived by the same flag.\<close>

definition isAllowedToDeleteCluster :: "'w kube \<Rightarrow> nvmesh \<Rightarrow> 'w st \<Rightarrow> (goerr option \<times> 'w st) option" where
  "isAllowedToDeleteCluster env cr s = do {
     (err, s) \<leftarrow> verifyNoVolumeAttachments env cr s;
     if err \<noteq> None \<and> \<not> op_IgnoreVolumeAttachmentOnDelete (oper cr)
     then Some (map_option (WrappedError
       ''Cannot delete NVMesh cluster while volumes are attached. The following volumes are still attached: '') err, s)
     else do {
       (err, s) \<leftarrow> verifyNoPersistentVolumes env cr s;
       if err \<noteq> None \<and> \<not> op_IgnoreVolumeAttachmentOnDelete (oper cr)
       then Some (map_option (WrappedError
         ''Cannot delete NVMesh cluster while NVMesh PersistentVolumes are provisioned'') err, s)
       else Some (None, s)
     }
   }"

section \<open>The finalizer\<close>

definition writeStatusOnce :: "'w kube \<Rightarrow> nvmesh \<Rightarrow> 'w st \<Rightarrow> (nvmesh \<times> 'w st) option" where
  "writeStatusOnce env cr s = do {
     (r, s) \<leftarrow> clientUpdateStatus env cr s;
     Some (case r of Inl _ \<Rightarrow> cr | Inr cr \<Rightarrow> cr, s)
   }"

definition doBeforeDeletingNVMesh ::
  "'w kube \<Rightarrow> nvmesh \<Rightarrow> 'w st \<Rightarrow> (((ctrl_result \<times> goerr option) \<times> nvmesh) \<times> 'w st) option" where
  "doBeforeDeletingNVMesh env nvmeshCluster s = do {
     (err, s) \<leftarrow> isAllowedToDeleteCluster env nvmeshCluster s;
     if err \<noteq> None then Some (((DoNotRequeue, err), nvmeshCluster), s)
     else do {
       (((result, err), nvmeshCluster), s) \<leftarrow> uninstallCluster env nvmeshCluster s;
       if err \<noteq> None then Some (((result, err), nvmeshCluster), s)
       else if Requeue result then do {
         (nvmeshCluster, s) \<leftarrow> setCondition env (newCondition Ready '''' ConditionFalse) nvmeshCluster s;
         (nvmeshCluster, s) \<leftarrow> setCondition env (newCondition Uninstalling '''' ConditionTrue) nvmeshCluster s;
         (nvmeshCluster, s) \<leftarrow> writeStatusOnce env nvmeshCluster s;
         Some (((result, None), nvmeshCluster), s)
       }
       else do {
         ((err, nvmeshCluster), s) \<leftarrow> removeFinalizerAndUpdate env nvmeshCluster clusterFinalizerName s;
         Some (((DoNotRequeue, err), nvmeshCluster), s)
       }
     }
   }"

definition handleFinalizer ::
  "'w kube \<Rightarrow> nvmesh \<Rightarrow> 'w st \<Rightarrow> (((ctrl_result \<times> goerr option) \<times> nvmesh) \<times> 'w st) option" where
  "handleFinalizer env nvmeshCluster s =
     (if isBeingDeleted nvmeshCluster then
        if hasFinalizer nvmeshCluster clusterFinalizerName then doBeforeDeletingNVMesh env nvmeshCluster s
        else Some (((DoNotRequeue, None), nvmeshCluster), s)
      else if \<not> hasFinalizer nvmeshCluster clusterFinalizerName then do {
        ((err, nvmeshCluster), s) \<leftarrow> addFinalizerAndUpdate env nvmeshCluster clusterFinalizerName s;
        Some (((DoNotRequeue, err), nvmeshCluster), s)
      }
      else Some (((DoNotRequeue, None), nvmeshCluster), s))"

section \<open>Lemmas\<close>

lemma containsString_iff [simp]: "containsString items s \<longleftrightarrow> s \<in> set items"
  by (induction items) auto

lemma removeString_filter [simp]: "removeString items s = filter (\<lambda>x. x \<noteq> s) items"
  by (induction items) auto

lemma collectAttachments_eq:
  "collectAttachments as =
     (if list_ex (\<lambda>a. va_persistentVolumeName a = None) as then None
      else Some (filter (\<lambda>a. va_attached a \<and> va_attacher a = nvmeshCsiDriverName) as))"
  by (induction as) auto

lemma attachmentsMessage_total:
  "list_all (\<lambda>a. va_persistentVolumeName a \<noteq> None) as \<Longrightarrow> \<exists>m. attachmentsMessage t as = Some m"
  by (induction as arbitrary: t) auto

definition attachedHere :: "volume_attachment list \<Rightarrow> bool" where
  "attachedHere = list_ex (\<lambda>a. va_attached a \<and> va_attacher a = nvmeshCsiDriverName)"

definition provisionedHere :: "persistent_volume list \<Rightarrow> bool" where
  "provisionedHere = list_ex (\<lambda>pv. pv_csiDriver pv = Some nvmeshCsiDriverName)"

lemma verifyNoVolumeAttachments_eq:
  assumes "kListVolumeAttachments env (world s) = ((err, vas), w)"
  shows "if err = None \<and> list_ex (\<lambda>a. va_persistentVolumeName a = None) vas then verifyNoVolumeAttachments env cr s = None
    else \<exists>e. verifyNoVolumeAttachments env cr s = Some (e, s\<lparr>world := w, reqs := reqs s @ [ReqList ''VolumeAttachment'']\<rparr>) \<and>
      (e = None \<longleftrightarrow> err = None \<and> \<not> attachedHere vas)"
proof -
  let ?mine = "filter (\<lambda>a. va_attached a \<and> va_attacher a = nvmeshCsiDriverName) vas"
  let ?t = "''Found '' @ nat_dec (length ?mine) @ '' attachments: ''"
  have mine: "?mine = [] \<longleftrightarrow> \<not> attachedHere vas"
    by (auto simp: attachedHere_def list_ex_iff filter_empty_conv)
  have "\<exists>m. attachmentsMessage ?t ?mine = Some m" if "\<not> list_ex (\<lambda>a. va_persistentVolumeName a = None) vas"
    by (rule attachmentsMessage_total) (use that in \<open>auto simp: list_ex_iff list_all_iff\<close>)
  with assms mine show ?thesis
    by (auto simp: verifyNoVolumeAttachments_def clientListVolumeAttachments_def apiCall_def collectAttachments_eq split: option.splits)
qed

lemma verifyNoPersistentVolumes_eq:
  assumes "kListPVs env (world s) = ((err, pvs), w)"
  shows "\<exists>e. verifyNoPersistentVolumes env cr s = Some (e, s\<lparr>world := w, reqs := reqs s @ [ReqList ''PersistentVolume'']\<rparr>) \<and>
    (e = None \<longleftrightarrow> err = None \<and> \<not> provisionedHere pvs)"
  using assms
  by (auto simp: verifyNoPersistentVolumes_def clientListPVs_def apiCall_def Let_def provisionedHere_def list_ex_iff
      filter_empty_conv split: option.splits)

text \<open>Nothing but the removal of the finalizer updates the resource once it is being deleted.\<close>

definition noUpdateCR :: "request \<Rightarrow> bool" where
  "noUpdateCR q \<longleftrightarrow> (case q of ReqUpdateCR _ \<Rightarrow> False | _ \<Rightarrow> True)"

lemma noUpdateCR_simps [simp]:
  "isRead q \<Longrightarrow> noUpdateCR q" "noUpdateCR (ReqDelete x)" "noUpdateCR (ReqCreate x)" "noUpdateCR (ReqUpdateStatus cr)"
  "noUpdateCR (ReqList k)"
  by (cases q; simp add: noUpdateCR_def)+

lemma noUpdateCR_stage: "stageRequest ns stage q \<Longrightarrow> noUpdateCR q"
  by (cases stage; cases q) (simp_all add: noUpdateCR_def)

lemma emits_isAllowedToDeleteCluster: "emits isRead (isAllowedToDeleteCluster env cr)"
  unfolding isAllowedToDeleteCluster_def verifyNoVolumeAttachments_def verifyNoPersistentVolumes_def Let_def
  by (intro steps_intro) auto

lemma emits_uninstallCluster: "emits noUpdateCR (uninstallCluster env cr)"
proof -
  have "emits noUpdateCR (runStages env stages c)" for stages c
  proof (induction stages arbitrary: c)
    case Nil
    show ?case by (simp add: Let_def steps_def grows_def)
  next
    case (Cons stage stages)
    have "emits noUpdateCR (\<lambda>s. do { ((result, err), s) \<leftarrow> runStage env stage c' s; Some (stageOutcome result err, s) })" for c'
      by (intro steps_intro emits_weaken [OF emits_runStage]) (auto dest: noUpdateCR_stage)
    with Cons.IH show ?case unfolding runStages.simps(2) by (intro steps_runTask preord_grows)
  qed
  then show ?thesis unfolding uninstallCluster_def by (intro steps_intro) auto
qed

lemma writeCR_run:
  "writeCR env cr s = Some ((err, cr'), s') \<longleftrightarrow>
     s' = s\<lparr>world := snd (kUpdateCR env cr (world s)), reqs := reqs s @ [ReqUpdateCR cr]\<rparr> \<and>
     (err, cr') = (case fst (kUpdateCR env cr (world s)) of Inl e \<Rightarrow> (Some e, cr) | Inr c \<Rightarrow> (None, c))"
  by (cases "kUpdateCR env cr (world s)") (auto simp: writeCR_def clientUpdateCR_def apiCall_def)

text \<open>The two ways a permitted deletion ends a cycle.\<close>

lemma doBeforeDeleting_cases:
  assumes "doBeforeDeletingNVMesh env cr s = Some (((result, err), cr'), s')"
  obtains (refused) e where "isAllowedToDeleteCluster env cr s = Some (Some e, s')" "result = DoNotRequeue" "err = Some e" "cr' = cr"
    | (unfinished) t r u c where "isAllowedToDeleteCluster env cr s = Some (None, t)" "uninstallCluster env cr t = Some ((r, c), u)"
        "snd r \<noteq> None \<or> Requeue (fst r)" "grows noUpdateCR s s'"
    | (removed) t r' c u where "isAllowedToDeleteCluster env cr s = Some (None, t)"
        "uninstallCluster env cr t = Some (((r', None), c), u)" "\<not> Requeue r'"
        "removeFinalizerAndUpdate env c clusterFinalizerName u = Some ((err, cr'), s')"
proof -
  from assms obtain e t where a: "isAllowedToDeleteCluster env cr s = Some (e, t)"
    unfolding doBeforeDeletingNVMesh_def bind_case_prod_Some by blast
  have g1: "grows noUpdateCR s t" using stepsD [OF emits_weaken [OF emits_isAllowedToDeleteCluster] a] by simp
  show thesis
  proof (cases e)
    case (Some x)
    have "s' = t \<and> result = DoNotRequeue \<and> err = Some x \<and> cr' = cr"
      using assms a unfolding Some doBeforeDeletingNVMesh_def by simp
    with a show thesis unfolding Some by (intro refused) simp_all
  next
    case None
    with a assms obtain r e' c u where b: "uninstallCluster env cr t = Some (((r, e'), c), u)"
      by (auto simp: doBeforeDeletingNVMesh_def bind_case_prod_Some)
    have g2: "grows noUpdateCR t u" by (rule stepsD [OF emits_uninstallCluster b])
    have g: "grows noUpdateCR s u" by (rule preord_trans [OF preord_grows g1 g2])
    consider "e' \<noteq> None" | "e' = None" "Requeue r" | "e' = None" "\<not> Requeue r" by blast
    then show thesis
    proof cases
      case 1
      with a None b assms have "s' = u" by (simp add: doBeforeDeletingNVMesh_def)
      with 1 g show thesis by (intro unfinished [OF a [unfolded None] b]) simp_all
    next
      case 2
      have "emits noUpdateCR (\<lambda>s. do {
         (nvmeshCluster, s) \<leftarrow> setCondition env (newCondition Ready '''' ConditionFalse) c s;
         (nvmeshCluster, s) \<leftarrow> setCondition env (newCondition Uninstalling '''' ConditionTrue) nvmeshCluster s;
         (nvmeshCluster, s) \<leftarrow> writeStatusOnce env nvmeshCluster s;
         Some (((r, None :: goerr option), nvmeshCluster), s)
       })"
        unfolding setCondition_def writeStatusOnce_def by (intro steps_intro emits_localCall) auto
      moreover from 2 a None b assms have "do {
         (nvmeshCluster, s) \<leftarrow> setCondition env (newCondition Ready '''' ConditionFalse) c u;
         (nvmeshCluster, s) \<leftarrow> setCondition env (newCondition Uninstalling '''' ConditionTrue) nvmeshCluster s;
         (nvmeshCluster, s) \<leftarrow> writeStatusOnce env nvmeshCluster s;
         Some (((r, None :: goerr option), nvmeshCluster), s)
       } = Some (((result, err), cr'), s')"
        by (simp add: doBeforeDeletingNVMesh_def)
      ultimately have "grows noUpdateCR u s'" by (rule stepsD)
      then have "grows noUpdateCR s s'" by (rule preord_trans [OF preord_grows g])
      with 2 show thesis by (intro unfinished [OF a [unfolded None] b]) simp_all
    next
      case 3
      with a None b assms have "removeFinalizerAndUpdate env c clusterFinalizerName u = Some ((err, cr'), s')"
        by (auto simp: doBeforeDeletingNVMesh_def bind_case_prod_Some)
      then show thesis by (rule removed [OF a [unfolded None] b [unfolded 3(1)] 3(2)])
    qed
  qed
qed

lemma uninstallCluster_allDone:
  assumes "stagesDone n cr" "uninstallCluster env cr s = Some (((r, None), c), t)" "\<not> Requeue r"
  shows "op_SkipUninstall (oper cr) \<or> stagesDone 8 (updFinalizers f c)"
proof (cases "op_SkipUninstall (oper cr)")
  case False
  obtain m where m: "stageRun n cr s (r, None) c t m" by (rule uninstallCluster_run [OF False assms(1,2)])
  with assms(3) have "m = 8" by (auto simp: stageRun_def split: if_splits)
  with m have "stagesDone 8 c" by (simp add: stageRun_def)
  then show ?thesis by (simp add: updFinalizers_def stagesDone_def tasksDone_def finished_def taskStatus_def actionsStatus_def)
qed simp

text \<open>Without a deletion to prepare, at most the finalizer is added.\<close>

lemma handleFinalizer_kept:
  assumes "\<not> (isBeingDeleted cr \<and> hasFinalizer cr clusterFinalizerName)" and "handleFinalizer env cr s = Some (r, s')"
  shows "grows (\<lambda>q. \<exists>c. q = ReqUpdateCR (updFinalizers (\<lambda>fs. fs @ [clusterFinalizerName]) c)) s s'"
proof (cases "isBeingDeleted cr \<or> hasFinalizer cr clusterFinalizerName")
  case True
  with assms have "s' = s" by (auto simp: handleFinalizer_def split: if_splits)
  then show ?thesis by (simp add: grows_def)
next
  case False
  with assms(2) obtain e c where "writeCR env (updFinalizers (\<lambda>fs. fs @ [clusterFinalizerName]) cr) s = Some ((e, c), s')"
    by (auto simp: handleFinalizer_def addFinalizerAndUpdate_def bind_case_prod_Some)
  then show ?thesis by (auto simp: writeCR_run grows_def)
qed

section \<open>Properties\<close>

text \<open>C13: The check before a deletion: it passes exactly when no volume of the driver is attached and
  none provisioned, or when the resource says to ignore attachments; that flag waives the second check too,
  and the flag for persistent volumes is never read.\<close>

theorem isAllowedToDeleteCluster_iff:
  assumes "kListVolumeAttachments env (world s) = ((err1, vas), w1)" and "kListPVs env w1 = ((err2, pvs), w2)"
    and "list_all (\<lambda>a. va_persistentVolumeName a \<noteq> None) vas"
  shows "\<exists>err s'. isAllowedToDeleteCluster env cr s = Some (err, s') \<and>
    (err = None \<longleftrightarrow> op_IgnoreVolumeAttachmentOnDelete (oper cr) \<or>
       (err1 = None \<and> \<not> attachedHere vas \<and> err2 = None \<and> \<not> provisionedHere pvs)) \<and>
    (reqs s' = reqs s @ [ReqList ''VolumeAttachment''] \<or>
     reqs s' = reqs s @ [ReqList ''VolumeAttachment'', ReqList ''PersistentVolume''])"
proof -
  let ?t = "s\<lparr>world := w1, reqs := reqs s @ [ReqList ''VolumeAttachment'']\<rparr>"
  let ?u = "?t\<lparr>world := w2, reqs := reqs ?t @ [ReqList ''PersistentVolume'']\<rparr>"
  have "\<not> list_ex (\<lambda>a. va_persistentVolumeName a = None) vas" using assms(3) by (auto simp: list_ex_iff list_all_iff)
  with verifyNoVolumeAttachments_eq [OF assms(1), of cr] obtain e1 where
    1: "verifyNoVolumeAttachments env cr s = Some (e1, ?t)" "e1 = None \<longleftrightarrow> err1 = None \<and> \<not> attachedHere vas"
    by auto
  from verifyNoPersistentVolumes_eq [of env ?t err2 pvs w2 cr] assms(2) obtain e2 where
    2: "verifyNoPersistentVolumes env cr ?t = Some (e2, ?u)" "e2 = None \<longleftrightarrow> err2 = None \<and> \<not> provisionedHere pvs"
    by auto
  show ?thesis
  proof (cases "e1 \<noteq> None \<and> \<not> op_IgnoreVolumeAttachmentOnDelete (oper cr)")
    case True
    with 1 have "isAllowedToDeleteCluster env cr s = Some (map_option (WrappedError
       ''Cannot delete NVMesh cluster while volumes are attached. The following volumes are still attached: '') e1, ?t)"
      by (simp add: isAllowedToDeleteCluster_def)
    with True 1(2) show ?thesis by auto
  next
    case False
    then have "isAllowedToDeleteCluster env cr s = Some (if e2 \<noteq> None \<and> \<not> op_IgnoreVolumeAttachmentOnDelete (oper cr)
        then map_option (WrappedError ''Cannot delete NVMesh cluster while NVMesh PersistentVolumes are provisioned'') e2 else None, ?u)"
      unfolding isAllowedToDeleteCluster_def 1(1) bind_Some_conv prod.case if_not_P [OF False] 2(1) by simp
    with False 1(2) 2(2) show ?thesis by auto
  qed
qed

text \<open>Listing the attachments panics exactly when the list came back with an attachment, of whatever
  driver and attached or not, whose source names no persistent volume.\<close>

theorem verifyNoVolumeAttachments_panics:
  "verifyNoVolumeAttachments env cr s = None \<longleftrightarrow>
     (case fst (kListVolumeAttachments env (world s)) of
        (None, vas) \<Rightarrow> list_ex (\<lambda>a. va_persistentVolumeName a = None) vas
      | (Some _, _) \<Rightarrow> False)"
proof -
  obtain err vas w where "kListVolumeAttachments env (world s) = ((err, vas), w)" by (metis surj_pair)
  with verifyNoVolumeAttachments_eq [OF this, of cr] show ?thesis by (cases err) (auto split: if_splits)
qed

text \<open>C1: The finalizer is the lock on the deletion: whenever the operator sends the resource without it,
  the resource is being deleted, the check for volumes has passed, and all eight stages of the
  uninstallation are finished in what is sent, unless the resource says to skip them.\<close>

theorem handleFinalizer_removes_last:
  assumes "stagesDone n cr" and "handleFinalizer env cr s = Some (((result, err), cr'), s')"
  shows "\<exists>new. reqs s' = reqs s @ new \<and>
    list_all (\<lambda>q. case q of
        ReqUpdateCR c \<Rightarrow> clusterFinalizerName \<in> set (crm_Finalizers (cr_ObjectMeta c)) \<or>
          isBeingDeleted cr \<and> (\<exists>t. isAllowedToDeleteCluster env cr s = Some (None, t)) \<and>
          (op_SkipUninstall (oper cr) \<or> stagesDone 8 c)
      | _ \<Rightarrow> True) new"
    (is "\<exists>new. _ \<and> list_all ?P new")
proof -
  have P: "noUpdateCR q \<Longrightarrow> ?P q" for q by (cases q) (simp_all add: noUpdateCR_def)
  have weak: "grows ?P s t" if "grows noUpdateCR s t" for t
    using that P by (auto simp: grows_def list_all_iff)
  have "grows ?P s s'"
  proof (cases "isBeingDeleted cr \<and> hasFinalizer cr clusterFinalizerName")
    case False
    have "?P q" if "\<exists>c. q = ReqUpdateCR (updFinalizers (\<lambda>fs. fs @ [clusterFinalizerName]) c)" for q
      using that by (auto simp: updFinalizers_def)
    with handleFinalizer_kept [OF False assms(2)] show ?thesis by (rule grows_mono)
  next
    case True
    with assms(2) have "doBeforeDeletingNVMesh env cr s = Some (((result, err), cr'), s')"
      by (simp add: handleFinalizer_def)
    then show ?thesis
    proof (cases rule: doBeforeDeleting_cases)
      case (refused e)
      then show ?thesis
        using stepsD [OF emits_weaken [OF emits_isAllowedToDeleteCluster, of noUpdateCR]] by (intro weak) simp
    next
      case unfinished
      then show ?thesis by (intro weak)
    next
      case (removed t r' c u)
      have g1: "grows noUpdateCR s t" using stepsD [OF emits_weaken [OF emits_isAllowedToDeleteCluster] removed(1)] by simp
      have g: "grows noUpdateCR s u"
        by (rule preord_trans [OF preord_grows g1 stepsD [OF emits_uninstallCluster removed(2)]])
      let ?c = "updFinalizers (\<lambda>fs. removeString fs clusterFinalizerName) c"
      have "op_SkipUninstall (oper cr) \<or> stagesDone 8 ?c" by (rule uninstallCluster_allDone [OF assms(1) removed(2,3)])
      with True removed(1) have "?P (ReqUpdateCR ?c)" by auto
      moreover have "reqs s' = reqs u @ [ReqUpdateCR ?c]"
        using removed(4) unfolding removeFinalizerAndUpdate_def writeCR_run by simp
      ultimately have "grows ?P u s'" by (auto simp: grows_def)
      with weak [OF g] show ?thesis by (rule preord_trans [OF preord_grows])
    qed
  qed
  then show ?thesis by (simp add: grows_def)
qed

text \<open>C14: A permitted deletion with every stage finished ends in one update, of a resource that has lost
  exactly this finalizer and has its three components disabled.\<close>

theorem handleFinalizer_completes:
  assumes "isBeingDeleted cr" and "clusterFinalizerName \<in> set (crm_Finalizers (cr_ObjectMeta cr))"
    and "isAllowedToDeleteCluster env cr s = Some (None, t)"
    and "\<not> op_SkipUninstall (oper cr)" and "stagesDone 8 cr"
  shows "\<exists>c. cr_ObjectMeta c = crm_Finalizers_update (filter (\<lambda>f. f \<noteq> clusterFinalizerName)) (cr_ObjectMeta cr) \<and> allDisabled c \<and>
    handleFinalizer env cr s =
      (case kUpdateCR env c (world t) of
         (Inl e, w) \<Rightarrow> Some (((DoNotRequeue, Some e), c), t\<lparr>world := w, reqs := reqs t @ [ReqUpdateCR c]\<rparr>)
       | (Inr cr', w) \<Rightarrow> Some (((DoNotRequeue, None), cr'), t\<lparr>world := w, reqs := reqs t @ [ReqUpdateCR c]\<rparr>))"
proof -
  have "list_all (finished uninstallAction cr \<circ> stageName) allStages"
    using assms(5) by (simp add: stagesDone_def tasksDone_def list_all_length stageNames_def)
  from runStages_all_finished [OF this, of env t] obtain c where
    c: "uninstallCluster env cr t = Some (((DoNotRequeue, None), c), t)" "allDisabled c" "cr_ObjectMeta c = cr_ObjectMeta cr"
    using assms(4) by (auto simp: uninstallCluster_def)
  let ?c = "updFinalizers (\<lambda>fs. removeString fs clusterFinalizerName) c"
  have "handleFinalizer env cr s = (do {
         ((err, nvmeshCluster), s) \<leftarrow> writeCR env ?c t;
         Some (((DoNotRequeue, err), nvmeshCluster), s) })"
    using assms(1-3) c(1) by (simp add: handleFinalizer_def hasFinalizer_def doBeforeDeletingNVMesh_def removeFinalizerAndUpdate_def)
  then have "handleFinalizer env cr s =
      (case kUpdateCR env ?c (world t) of
         (Inl e, w) \<Rightarrow> Some (((DoNotRequeue, Some e), ?c), t\<lparr>world := w, reqs := reqs t @ [ReqUpdateCR ?c]\<rparr>)
       | (Inr cr', w) \<Rightarrow> Some (((DoNotRequeue, None), cr'), t\<lparr>world := w, reqs := reqs t @ [ReqUpdateCR ?c]\<rparr>))"
    by (auto simp: writeCR_def clientUpdateCR_def apiCall_def split: prod.splits sum.splits)
  then show ?thesis using c by (intro exI [of _ ?c]) (simp add: updFinalizers_def allDisabled_def)
qed

section \<open>Witnesses\<close>

definition deletedCR :: "nat \<Rightarrow> nvmesh" where
  "deletedCR n = cr_ObjectMeta_update (\<lambda>m. m\<lparr>crm_DeletionTimestamp := Some 1, crm_Finalizers := [clusterFinalizerName]\<rparr>) (afterStages n)"

lemma deletedCR_facts:
  "isBeingDeleted (deletedCR n)" "clusterFinalizerName \<in> set (crm_Finalizers (cr_ObjectMeta (deletedCR n)))"
  "\<not> op_SkipUninstall (oper (deletedCR n))" "stagesDone 8 (deletedCR 8)"
  "isAllowedToDeleteCluster plainKube (deletedCR n) (memState emptyMem) =
     Some (None, (memState emptyMem)\<lparr>reqs := [ReqList ''VolumeAttachment'', ReqList ''PersistentVolume'']\<rparr>)"
proof -
  show "isBeingDeleted (deletedCR n)" "clusterFinalizerName \<in> set (crm_Finalizers (cr_ObjectMeta (deletedCR n)))"
    "\<not> op_SkipUninstall (oper (deletedCR n))"
    by (simp_all add: deletedCR_def isBeingDeleted_def afterStages_done(3))
  show "stagesDone 8 (deletedCR 8)"
    using afterStages_done(2) by (subst stagesDone_status [of _ "afterStages 8"]) (simp_all add: deletedCR_def)
  show "isAllowedToDeleteCluster plainKube (deletedCR n) (memState emptyMem) =
     Some (None, (memState emptyMem)\<lparr>reqs := [ReqList ''VolumeAttachment'', ReqList ''PersistentVolume'']\<rparr>)"
    by (simp add: isAllowedToDeleteCluster_def verifyNoVolumeAttachments_def verifyNoPersistentVolumes_def
        clientListVolumeAttachments_def clientListPVs_def apiCall_def plainKube_def memState_def emptyMem_def)
qed

definition attachedMem :: mem where
  "attachedMem = emptyMem\<lparr>m_vas := [\<lparr>va_attached = True, va_attacher = nvmeshCsiDriverName, va_nodeName = ''n'',
     va_persistentVolumeName = Some ''pv''\<rparr>]\<rparr>"

theorem isAllowedToDeleteCluster_iff_witness:
  "\<exists>err s'. isAllowedToDeleteCluster plainKube sampleCR (memState attachedMem) = Some (Some err, s')"
proof -
  have "kListVolumeAttachments plainKube (world (memState attachedMem)) = ((None, m_vas attachedMem), attachedMem)"
    "kListPVs plainKube attachedMem = ((None, []), attachedMem)"
    by (simp_all add: plainKube_def memState_def attachedMem_def emptyMem_def)
  moreover have "list_all (\<lambda>a. va_persistentVolumeName a \<noteq> None) (m_vas attachedMem)" "attachedHere (m_vas attachedMem)"
    by (simp_all add: attachedMem_def attachedHere_def)
  moreover have "\<not> op_IgnoreVolumeAttachmentOnDelete (oper sampleCR)" by (simp add: sampleCR_def zeroNVMesh_def)
  ultimately show ?thesis
    using isAllowedToDeleteCluster_iff [of plainKube "memState attachedMem" None "m_vas attachedMem" attachedMem None "[]" attachedMem sampleCR]
    by auto
qed

theorem handleFinalizer_completes_witness:
  "\<exists>c. cr_ObjectMeta c = crm_Finalizers_update (filter (\<lambda>f. f \<noteq> clusterFinalizerName)) (cr_ObjectMeta (deletedCR 8)) \<and> allDisabled c \<and>
     handleFinalizer plainKube (deletedCR 8) (memState emptyMem) \<noteq> None"
proof -
  have k: "kUpdateCR plainKube c emptyMem = (Inl errNotFound, emptyMem)" for c
    by (simp add: plainKube_def memUpdateCR_def emptyMem_def)
  have w: "world ((memState emptyMem)\<lparr>reqs := l\<rparr>) = emptyMem" for l by (simp add: memState_def)
  show ?thesis
    using handleFinalizer_completes [OF deletedCR_facts(1,2,5,3,4)] unfolding w k by auto
qed

theorem handleFinalizer_removes_last_witness:
  "\<exists>s' result err cr' new. handleFinalizer plainKube (deletedCR 8) (memState emptyMem) = Some (((result, err), cr'), s') \<and>
     reqs s' = new \<and> (\<forall>c. ReqUpdateCR c \<in> set new \<longrightarrow> clusterFinalizerName \<in> set (crm_Finalizers (cr_ObjectMeta c)) \<or> stagesDone 8 c)"
proof -
  have "list_all (finished uninstallAction (deletedCR 8) \<circ> stageName) allStages"
    using deletedCR_facts(4) by (simp add: stagesDone_def tasksDone_def list_all_length stageNames_def)
  let ?t = "(memState emptyMem)\<lparr>reqs := [ReqList ''VolumeAttachment'', ReqList ''PersistentVolume'']\<rparr>"
  from runStages_all_finished [OF \<open>list_all _ _\<close>, of plainKube ?t] obtain c where
    "uninstallCluster plainKube (deletedCR 8) ?t = Some (((DoNotRequeue, None), c), ?t)"
    using deletedCR_facts(3) [of 8] by (auto simp: uninstallCluster_def)
  then obtain result err cr' s' where
    h: "handleFinalizer plainKube (deletedCR 8) (memState emptyMem) = Some (((result, err), cr'), s')"
    using deletedCR_facts(1,2,5) [of 8]
    by (simp add: handleFinalizer_def hasFinalizer_def doBeforeDeletingNVMesh_def removeFinalizerAndUpdate_def writeCR_def
        clientUpdateCR_def apiCall_def plainKube_def memUpdateCR_def memState_def emptyMem_def)
  from handleFinalizer_removes_last [OF deletedCR_facts(4) this] obtain new where "reqs s' = new"
    and new: "list_all (\<lambda>q. case q of ReqUpdateCR c \<Rightarrow> clusterFinalizerName \<in> set (crm_Finalizers (cr_ObjectMeta c)) \<or>
          isBeingDeleted (deletedCR 8) \<and> (\<exists>t. isAllowedToDeleteCluster plainKube (deletedCR 8) (memState emptyMem) = Some (None, t)) \<and>
          (op_SkipUninstall (oper (deletedCR 8)) \<or> stagesDone 8 c) | _ \<Rightarrow> True) new"
    by (auto simp: memState_def)
  have "\<forall>c. ReqUpdateCR c \<in> set new \<longrightarrow> clusterFinalizerName \<in> set (crm_Finalizers (cr_ObjectMeta c)) \<or> stagesDone 8 c"
    using new deletedCR_facts(3) [of 8] unfolding list_all_iff by fastforce
  with h \<open>reqs s' = new\<close> show ?thesis by blast
qed

end
