(* ===== verification/Reconciler.thy ===== *)
theory Reconciler
  imports Actions Finalizer CsiController
begin

text \<open>
  pkg/controllers/nvmesh_controller.go: one cycle of reconciliation. \<open>Reconcile\<close> is cut at its
  hand-overs: \<open>reconcileCR\<close> once the resource is read, \<open>reconcileRest\<close> once the finalizer is
  handled, \<open>reconcileActions\<close> once the components are.
\<close>

definition defaultRegistry :: string where
  "defaultRegistry = ''registry.excelero.com''"

definition initializeEmptyFieldsOnCustomResource :: "'w kube \<Rightarrow> nvmesh \<Rightarrow> nvmesh" where
  "initializeEmptyFieldsOnCustomResource env cr =
     (let cr = (if core_ImageRegistry (core cr) = '''' then upd_core (core_ImageRegistry_update (\<lambda>_. defaultRegistry)) cr else cr);
          cr = (if core_ImageVersionTag (core cr) = '''' then upd_core (core_ImageVersionTag_update (\<lambda>_. optDefaultCoreImageTag env)) cr else cr);
          cr = (if mgmt_ImageRegistry (mgmt cr) = '''' then upd_mgmt (mgmt_ImageRegistry_update (\<lambda>_. defaultRegistry)) cr else cr);
          cr = (if csi_ControllerReplicas (csi cr) = 0 then upd_csi (csi_ControllerReplicas_update (\<lambda>_. 1)) cr else cr);
          cr = (if mgmt_Replicas (mgmt cr) = 0 then upd_mgmt (mgmt_Replicas_update (\<lambda>_. 1)) cr else cr)
      in cr)"

section \<open>The components\<close>

type_synonym 'w component_reconcile = "nvmesh \<Rightarrow> 'w st \<Rightarrow> ((ctrl_result \<times> goerr option) \<times> 'w st) option"

text \<open>The minimum starts at the zero of \<open>DoNotRequeue\<close>.\<close>

definition mergeResult :: "ctrl_result \<Rightarrow> ctrl_result \<Rightarrow> ctrl_result" where
  "mergeResult resultWithMinimalRequeue result =
     (if Requeue result
      then \<lparr>Requeue = True,
            RequeueAfter = (if RequeueAfter result < RequeueAfter resultWithMinimalRequeue
              then RequeueAfter result else RequeueAfter resultWithMinimalRequeue)\<rparr>
      else resultWithMinimalRequeue)"

fun reconcileComponents ::
  "'w component_reconcile list \<Rightarrow> nvmesh \<Rightarrow> ctrl_result \<times> goerr list \<Rightarrow> 'w st \<Rightarrow> ((ctrl_result \<times> goerr list) \<times> 'w st) option" where
  "reconcileComponents [] cr (resultWithMinimalRequeue, errorList) s = Some ((resultWithMinimalRequeue, errorList), s)"
| "reconcileComponents (component # components) cr (resultWithMinimalRequeue, errorList) s = do {
     ((result, err), s) \<leftarrow> component cr s;
     reconcileComponents components cr
       (mergeResult resultWithMinimalRequeue result, case err of None \<Rightarrow> errorList | Some e \<Rightarrow> errorList @ [e]) s
   }"

definition allComponents :: "'w kube \<Rightarrow> 'w component_reconcile list" where
  "allComponents env = [mgmtReconcile env, coreReconcile env, csiReconcile env]"

definition reconcileAllcomponents :: "'w kube \<Rightarrow> 'w component_reconcile" where
  "reconcileAllcomponents env cr s = do {
     ((resultWithMinimalRequeue, errorList), s) \<leftarrow> reconcileComponents (allComponents env) cr (DoNotRequeue, []) s;
     Some ((resultWithMinimalRequeue, firstError errorList), s)
   }"

section \<open>The cycle\<close>

definition reconcileActions :: "'w kube \<Rightarrow> 'w component_reconcile" where
  "reconcileActions env cr s = do {
     ((result, cr), s) \<leftarrow> removeFinishedActionStatuses env cr s;
     if Requeue result then ManageSuccess env (Some cr) result s
     else if hasActions cr then do {
       (((actionResult, err), cr), s) \<leftarrow> handleActions env cr s;
       case err of
         Some e \<Rightarrow> ManageError env cr e actionResult s
       | None \<Rightarrow>
           if Requeue actionResult then ManageSuccess env (Some cr) actionResult s
           else ManageSuccess env (Some cr) DoNotRequeue s
     }
     else ManageSuccess env (Some cr) DoNotRequeue s
   }"

text \<open>The error of the components is looked at only when a component asks for another cycle.\<close>

definition reconcileRest :: "'w kube \<Rightarrow> 'w component_reconcile" where
  "reconcileRest env cr s = do {
     ((result, err), s) \<leftarrow> reconcileAllcomponents env cr s;
     if Requeue result then
       (case err of
          Some e \<Rightarrow> do {
            ((_, err), s) \<leftarrow> ManageError env cr e result s;
            Some ((result, err), s)
          }
        | None \<Rightarrow> Some ((result, None), s))
     else reconcileActions env cr s
   }"

definition reconcileCR :: "'w kube \<Rightarrow> 'w component_reconcile" where
  "reconcileCR env cr s =
     (let cr = initializeEmptyFieldsOnCustomResource env cr in
      case isValid cr of
        Some err \<Rightarrow> ManageError env cr err RequeueWithDefaultBackOff s
      | None \<Rightarrow> do {
          (_, s) \<leftarrow> stopAllUnstructuredWatchers env s;
          (err, s) \<leftarrow> makeSureServiceAccountExists env cr s;
          case err of
            Some err \<Rightarrow> ManageError env cr err RequeueWithDefaultBackOff s
          | None \<Rightarrow> do {
              (((finResult, err), cr), s) \<leftarrow> handleFinalizer env cr s;
              case err of
                Some err \<Rightarrow> ManageError env cr err RequeueWithDefaultBackOff s
              | None \<Rightarrow>
                  if Requeue finResult then ManageSuccess env (Some cr) finResult s
                  else reconcileRest env cr s
            }
        })"

text \<open>A read that fails leaves the resource at its zero value.\<close>

definition Reconcile :: "'w kube \<Rightarrow> string \<Rightarrow> string \<Rightarrow> 'w st \<Rightarrow> ((ctrl_result \<times> goerr option) \<times> 'w st) option" where
  "Reconcile env namespace name s = do {
     let s = s\<lparr>reconcileCycles := reconcileCycles s + 1\<rparr>;
     (r, s) \<leftarrow> clientGetCR env namespace name s;
     case r of
       Inl err \<Rightarrow>
         if isNotFound err then ManageSuccess env None DoNotRequeue s
         else ManageError env zeroNVMesh err RequeueWithDefaultBackOff s
     | Inr cr \<Rightarrow> reconcileCR env cr s
   }"

section \<open>What a computation returns\<close>

text \<open>The counterpart of \<open>steps\<close> for results: one rule per construct.\<close>

named_theorems returns_intro

definition returns :: "('a \<Rightarrow> bool) \<Rightarrow> ('s \<Rightarrow> ('a \<times> 's) option) \<Rightarrow> bool" where
  "returns Q f \<longleftrightarrow> (\<forall>s r s'. f s = Some (r, s') \<longrightarrow> Q r)"

lemma returnsD: "returns Q f \<Longrightarrow> f s = Some (r, s') \<Longrightarrow> Q r"
  unfolding returns_def by blast

lemma returns_simps [simp]: "returns Q (\<lambda>s. Some (x, s)) \<longleftrightarrow> Q x" "returns Q (\<lambda>s. None)"
  unfolding returns_def by auto

lemma returns_bind [returns_intro]: "(\<And>x. returns Q (g x)) \<Longrightarrow> returns Q (\<lambda>s. f s \<bind> (\<lambda>(x, s). g x s))"
  by (auto simp: returns_def bind_case_prod_Some)

lemma returns_if [returns_intro]:
  "(b \<Longrightarrow> returns Q f) \<Longrightarrow> (\<not> b \<Longrightarrow> returns Q g) \<Longrightarrow> returns Q (\<lambda>s. if b then f s else g s)"
  by (cases b) auto

lemma returns_option [returns_intro]:
  "(x = None \<Longrightarrow> returns Q f) \<Longrightarrow> (\<And>y. x = Some y \<Longrightarrow> returns Q (g y)) \<Longrightarrow>
   returns Q (\<lambda>s. case x of None \<Rightarrow> f s | Some y \<Rightarrow> g y s)"
  by (cases x) auto

lemma returns_sum [returns_intro]:
  "(\<And>y. x = Inl y \<Longrightarrow> returns Q (f y)) \<Longrightarrow> (\<And>y. x = Inr y \<Longrightarrow> returns Q (g y)) \<Longrightarrow>
   returns Q (\<lambda>s. case x of Inl y \<Rightarrow> f y s | Inr y \<Rightarrow> g y s)"
  by (cases x) auto

lemma returns_prod [returns_intro]:
  "(\<And>a b. x = (a, b) \<Longrightarrow> returns Q (f a b)) \<Longrightarrow> returns Q (\<lambda>s. (case x of (a, b) \<Rightarrow> f a b) s)"
  "(\<And>a b. x = (a, b) \<Longrightarrow> returns Q (f a b)) \<Longrightarrow> returns Q (\<lambda>s. case x of (a, b) \<Rightarrow> f a b s)"
  "(\<And>a b. x = (a, b) \<Longrightarrow> returns Q (f a b)) \<Longrightarrow> returns Q (case x of (a, b) \<Rightarrow> f a b)"
  by (cases x; auto)+

lemma returns_prod_app [returns_intro]:
  "(\<And>a b. x = (a, b) \<Longrightarrow> returns Q (f a b y)) \<Longrightarrow> returns Q ((case x of (a, b) \<Rightarrow> f a b) y)"
  by (cases x) auto

lemma returns_let [returns_intro]: "returns Q (f m) \<Longrightarrow> returns Q (\<lambda>s. let x = m in f x s)"
  by simp

section \<open>Lemmas\<close>

definition noError :: "ctrl_result \<times> goerr option \<Rightarrow> bool" where
  "noError r \<longleftrightarrow> snd r = None"

lemma returns_manage [returns_intro]:
  assumes "retries (retryDefaultRetry env)"
  shows "returns noError (ManageError env cr e result)" and "returns noError (ManageSuccess env c result)"
proof -
  have w: "returns noError (writeCondition env new cr result)" for new cr
    using writeCondition_run [OF assms] by (fastforce simp: returns_def noError_def)
  show "returns noError (ManageError env cr e result)"
    unfolding ManageError_def by (intro returns_intro w)
  show "returns noError (ManageSuccess env c result)"
    unfolding ManageSuccess_def by (intro returns_intro w) (simp add: noError_def)
qed

lemma reconcileCR_noError:
  assumes "retries (retryDefaultRetry env)"
  shows "returns noError (reconcileCR env cr)"
proof -
  have actions: "returns noError (reconcileActions env cr)" for cr
    unfolding reconcileActions_def by (intro returns_intro assms)
  have report: "returns noError (\<lambda>s. ManageError env cr e result s \<bind> (\<lambda>((_, err), s). Some ((result, err), s)))"
    for cr e and result :: ctrl_result
    using returnsD [OF returns_manage(1) [OF assms]] by (fastforce simp: returns_def noError_def bind_eq_Some)
  have "returns noError (reconcileRest env cr)" for cr
    unfolding reconcileRest_def
    by (rule returns_bind, rule returns_prod(3), rule returns_if, rule returns_option, simp add: noError_def, rule report, rule actions)
  then show ?thesis
    unfolding reconcileCR_def Let_def by (intro returns_intro assms)
qed

section \<open>The delay\<close>

lemma mergeResult_zero: "RequeueAfter r = 0 \<Longrightarrow> 0 \<le> RequeueAfter x \<Longrightarrow> RequeueAfter (mergeResult r x) = 0"
  by (simp add: mergeResult_def)

lemma component_delays:
  "returns (\<lambda>r. 0 \<le> RequeueAfter (fst r)) (mgmtReconcile env cr)"
  "returns (\<lambda>r. 0 \<le> RequeueAfter (fst r)) (coreReconcile env cr)"
  "returns (\<lambda>r. 0 \<le> RequeueAfter (fst r)) (csiReconcile env cr)"
  unfolding mgmtReconcile_def coreReconcile_def csiReconcile_def
  by ((intro returns_intro)?, auto simp: second_def)+

lemma reconcileComponents_zero:
  assumes "\<forall>c\<in>set cs. returns (\<lambda>r. 0 \<le> RequeueAfter (fst r)) (c cr)"
    and "RequeueAfter (fst acc) = 0" and "reconcileComponents cs cr acc s = Some (r, s')"
  shows "RequeueAfter (fst r) = 0"
  using assms
proof (induction cs cr acc s rule: reconcileComponents.induct)
  case (2 component components cr result errors s)
  then obtain x err t where c: "component cr s = Some ((x, err), t)"
    and rest: "reconcileComponents components cr
       (mergeResult result x, case err of None \<Rightarrow> errors | Some e \<Rightarrow> errors @ [e]) t = Some (r, s')"
    by (auto simp: bind_eq_Some)
  from 2(2) c have "0 \<le> RequeueAfter x" by (auto dest: returnsD)
  with 2(3) have "RequeueAfter (mergeResult result x) = 0" by (simp add: mergeResult_zero)
  with 2(2) rest show ?case by (intro 2(1) [OF c refl refl]) auto
qed auto

section \<open>What the components report\<close>

lemma core_csi_result:
  "returns (\<lambda>r. fst r = DoNotRequeue) (coreReconcile env cr)"
  "returns (\<lambda>r. fst r = DoNotRequeue) (csiReconcile env cr)"
  unfolding coreReconcile_def csiReconcile_def by (intro returns_intro; simp)+

lemma mergeResult_DoNotRequeue [simp]: "mergeResult r DoNotRequeue = r"
  by (simp add: mergeResult_def DoNotRequeue_def)

definition errorsOf :: "goerr option list \<Rightarrow> goerr list" where
  "errorsOf errs = concat (map (\<lambda>e. case e of None \<Rightarrow> [] | Some x \<Rightarrow> [x]) errs)"

lemma reconcileAllcomponents_run:
  assumes "mgmtReconcile env cr s = Some ((r1, e1), s1)" and "coreReconcile env cr s1 = Some ((r2, e2), s2)"
    and "csiReconcile env cr s2 = Some ((r3, e3), s3)"
  shows "reconcileAllcomponents env cr s = Some ((mergeResult DoNotRequeue r1, firstError (errorsOf [e1, e2, e3])), s3)"
proof -
  have "r2 = DoNotRequeue" "r3 = DoNotRequeue"
    using returnsD [OF core_csi_result(1) assms(2)] returnsD [OF core_csi_result(2) assms(3)] by simp_all
  with assms show ?thesis
    by (simp add: reconcileAllcomponents_def allComponents_def errorsOf_def split: option.split)
qed

section \<open>Deploying deletes nothing but the database job\<close>

text \<open>What a cycle may ask for while everything is enabled.\<close>

definition deployRequest :: "nvmesh \<Rightarrow> request \<Rightarrow> bool" where
  "deployRequest cr q \<longleftrightarrow>
     (case q of
        ReqCreate x \<Rightarrow> namespaceOf x = crNamespace cr \<and> hasOperatorLabels cr x \<or> map_option Job (mgmtInitDBJob cr) = Some x
      | ReqDelete x \<Rightarrow> x = Job (jobNamed (crNamespace cr) mgmtInitDbJobName) \<or> kindOf x = ''Pod''
      | ReqUpdateCR _ \<Rightarrow> False
      | ReqUpdateStatus _ \<Rightarrow> False
      | ReqEvent _ _ _ _ \<Rightarrow> False
      | _ \<Rightarrow> True)"

lemma deployRequest_simps [simp]:
  "isRead q \<Longrightarrow> deployRequest cr q" "isUpdate q \<Longrightarrow> deployRequest cr q"
  "deployRequest cr (ReqDelete (Job (jobNamed (crNamespace cr) mgmtInitDbJobName)))" "deployRequest cr (ReqDelete (Pod p))"
  "deployRequest cr (ReqMongoConnect u)" "deployRequest cr ReqMongoFind" "deployRequest cr (ReqMongoUpdate a b)"
  "deployRequest cr ReqMongoDisconnect"
  "namespaceOf x = crNamespace cr \<Longrightarrow> hasOperatorLabels cr x \<Longrightarrow> deployRequest cr (ReqCreate x)"
  "mgmtInitDBJob cr = Some j \<Longrightarrow> deployRequest cr (ReqCreate (Job j))"
  by (cases q; simp add: deployRequest_def)+

lemma emits_deployDir:
  assumes "retries (retryDefaultBackoff env)" and "ownerRefOnly env"
  shows "emits (deployRequest cr) (createObjectsFromDir env cr (mgmtComponent env) dir rec)"
    "emits (deployRequest cr) (createObjectsFromDir env cr coreComponent dir rec)"
    "emits (deployRequest cr) (createObjectsFromDir env cr csiComponent dir rec)"
  by (rule mgmtc.steps_createObjectsFromDir corec.steps_createObjectsFromDir csic.steps_createObjectsFromDir;
      use assms in simp)+

lemma emits_initJob_deleted: "emits (deployRequest cr) (deleteJob env (crNamespace cr) mgmtInitDbJobName)"
proof -
  have "emits (deployRequest cr) (deletePods env pods)" for pods
  proof (induction pods)
    case Nil
    show ?case unfolding deletePods.simps by (intro steps_intro)
  next
    case (Cons p pods)
    show ?case unfolding deletePods.simps by (intro steps_intro Cons) simp_all
  qed
  then show ?thesis unfolding deleteJob_def getJobPods_def by (intro steps_intro) simp_all
qed

lemma emits_handleDBManipulations:
  assumes "retries (retryDefaultBackoff env)"
  shows "emits (deployRequest cr) (handleDBManipulations env cr)"
proof -
  have restart: "emits (deployRequest cr) (restartManagement env (crNamespace cr))"
    unfolding restartManagement_def by (rule steps_restartStatefulSet) (use assms in simp_all)
  have "emits (deployRequest cr) (syncSettings env cr)"
    unfolding syncSettings_def FindOne_def UpdateOne_def
    by (intro steps_intro restart emits_initJob_deleted emits_apiCall) simp_all
  then show ?thesis
    unfolding handleDBManipulations_def mongoClose_def Let_def
    by (intro steps_intro emits_apiCall) simp_all
qed

lemma emits_mgmtReconcile:
  assumes "retries (retryDefaultBackoff env)" and "ownerRefOnly env"
    and "\<not> mgmt_Disabled (mgmt cr)" and "\<not> mongo_External (mgmt_MongoDB (mgmt cr))"
  shows "emits (deployRequest cr) (mgmtReconcile env cr)"
proof -
  have "emits (deployRequest cr) (runMgmtInitDBJob env cr)"
    unfolding runMgmtInitDBJob_def by (intro steps_intro) simp_all
  then show ?thesis
    unfolding mgmtReconcile_def deployMongoDB_def removeMongoDB_def
    using assms(3,4) by (simp only: not_False_eq_True if_True if_False conj_absorb simp_thms)
      (intro steps_intro emits_deployDir emits_handleDBManipulations assms)
qed

lemma emits_reconcileComponents:
  assumes "\<forall>c\<in>set cs. emits P (c cr)"
  shows "emits P (reconcileComponents cs cr acc)"
  using assms
proof (induction cs arbitrary: acc)
  case Nil
  show ?case by (cases acc) (simp add: steps_def grows_def)
next
  case (Cons c cs)
  obtain result errors where acc: "acc = (result, errors)" by (cases acc)
  show ?case unfolding acc reconcileComponents.simps
    by (intro steps_intro) (use Cons in auto)
qed

text \<open>A resource that is gone ends the cycle: one look-up, nothing else, no further cycle.\<close>

lemma Reconcile_not_found:
  assumes "kGetCR env namespace name (world s) = (Inl e, w)" and "isNotFound e"
  shows "Reconcile env namespace name s = Some ((DoNotRequeue, None),
    s\<lparr>world := w, reqs := reqs s @ [ReqGetCR namespace name], reconcileCycles := reconcileCycles s + 1\<rparr>)"
  using assms by (simp add: Reconcile_def Let_def clientGetCR_def apiCall_def ManageSuccess_def)

section \<open>Properties\<close>


text \<open>An invalid resource stops the cycle before anything is touched: it reads the resource, emits
  one kind of event and writes only statuses that say the resource is not ready.\<close>

theorem Reconcile_invalid:
  assumes "retries (retryDefaultRetry env)" and "kGetCR env namespace name (world s) = (Inr cr, w)"
    and "isValid (initializeEmptyFieldsOnCustomResource env cr) = Some e"
    and "Reconcile env namespace name s = Some ((result, err), s')"
  shows "err = None \<and> Requeue result \<and>
    grows (\<lambda>q. isRead q \<or> q = ReqEvent (initializeEmptyFieldsOnCustomResource env cr) ''Warning'' ''ProcessingError'' (errorText e) \<or>
      (\<exists>c. q = ReqUpdateStatus c \<and> IsStatusConditionFalse (st_Conditions (cr_Status c)) Ready)) s s'"
proof -
  let ?cr = "initializeEmptyFieldsOnCustomResource env cr"
  let ?t = "s\<lparr>reconcileCycles := reconcileCycles s + 1, world := w, reqs := reqs s @ [ReqGetCR namespace name]\<rparr>"
  have "ManageError env ?cr e RequeueWithDefaultBackOff ?t = Some ((result, err), s')"
    using assms(2-4) by (simp add: Reconcile_def reconcileCR_def Let_def clientGetCR_def apiCall_def)
  note run = ManageError_run [OF assms(1) this]
  then have "grows (\<lambda>q. isRead q \<or> q = ReqEvent ?cr ''Warning'' ''ProcessingError'' (errorText e) \<or>
      (\<exists>c. q = ReqUpdateStatus c \<and> IsStatusConditionFalse (st_Conditions (cr_Status c)) Ready)) ?t s'"
    by (blast intro: grows_mono)
  then obtain l where "reqs s' = reqs ?t @ l" "list_all (\<lambda>q. isRead q \<or> q = ReqEvent ?cr ''Warning'' ''ProcessingError'' (errorText e) \<or>
      (\<exists>c. q = ReqUpdateStatus c \<and> IsStatusConditionFalse (st_Conditions (cr_Status c)) Ready)) l"
    by (rule growsE)
  with run show ?thesis
    by (auto simp: grows_def RequeueWithDefaultBackOff_def requeueSoon_def intro!: exI [of _ "ReqGetCR namespace name # l"])
qed

text \<open>C40: The delay of the components' results never reaches the caller: whatever the components ask
  for, the merged delay is zero.\<close>

theorem reconcileAllcomponents_no_delay:
  assumes "reconcileAllcomponents env cr s = Some ((result, err), s')"
  shows "RequeueAfter result = 0"
proof -
  from assms obtain errs where run: "reconcileComponents (allComponents env) cr (DoNotRequeue, []) s = Some ((result, errs), s')"
    by (auto simp: reconcileAllcomponents_def bind_eq_Some)
  have "\<forall>c\<in>set (allComponents env). returns (\<lambda>r. 0 \<le> RequeueAfter (fst r)) (c cr)"
    by (simp add: allComponents_def component_delays)
  from reconcileComponents_zero [OF this _ run] show ?thesis by (simp add: DoNotRequeue_def)
qed

text \<open>C17: On a resource without actions, the management component alone decides whether errors of the
  components are reported: when it asks for no other cycle the cycle ends as a success, with the
  condition Ready written, even if deploying the core or the CSI component failed.\<close>

theorem reconcileRest_outcome:
  assumes "mgmtReconcile env cr s = Some ((r1, e1), s1)" and "coreReconcile env cr s1 = Some ((r2, e2), s2)"
    and "csiReconcile env cr s2 = Some ((r3, e3), s3)"
    and "spec_Actions (cr_Spec cr) = []" and "st_ActionsStatus (cr_Status cr) = None"
  shows "reconcileRest env cr s =
    (if Requeue r1
     then (case firstError (errorsOf [e1, e2, e3]) of
             None \<Rightarrow> Some ((\<lparr>Requeue = True, RequeueAfter = min (RequeueAfter r1) 0\<rparr>, None), s3)
           | Some e \<Rightarrow> do {
               ((_, err), s) \<leftarrow> ManageError env cr e \<lparr>Requeue = True, RequeueAfter = min (RequeueAfter r1) 0\<rparr> s3;
               Some ((\<lparr>Requeue = True, RequeueAfter = min (RequeueAfter r1) 0\<rparr>, err), s)
             })
     else writeCondition env (newCondition Ready '''' ConditionTrue) cr DoNotRequeue s3)"
proof -
  have m: "mergeResult DoNotRequeue r1 =
      (if Requeue r1 then \<lparr>Requeue = True, RequeueAfter = min (RequeueAfter r1) 0\<rparr> else DoNotRequeue)"
    by (simp add: mergeResult_def DoNotRequeue_def min_def)
  have a: "reconcileActions env cr s3 = writeCondition env (newCondition Ready '''' ConditionTrue) cr DoNotRequeue s3"
    using assms(4,5) by (simp add: reconcileActions_def removeFinishedActionStatuses_def hasActions_def ManageSuccess_def DoNotRequeue_def)
  show ?thesis
    unfolding reconcileRest_def reconcileAllcomponents_run [OF assms(1-3)] m
    by (cases "Requeue r1"; cases "firstError (errorsOf [e1, e2, e3])") (simp_all add: a DoNotRequeue_def)
qed


section \<open>Witnesses\<close>

definition invalidCR :: nvmesh where
  "invalidCR = upd_mgmt (mgmt_MongoDB_update (mongo_External_update (\<lambda>_. True))) sampleCR"

definition invalidMem :: mem where
  "invalidMem = emptyMem\<lparr>m_cr := Some invalidCR\<rparr>"

lemma invalid_run:
  obtains s' where "Reconcile plainKube ''ns'' ''cluster'' (memState invalidMem) = Some ((RequeueWithDefaultBackOff, None), s')"
proof -
  have "map_option fst (Reconcile plainKube ''ns'' ''cluster'' (memState invalidMem)) = Some (RequeueWithDefaultBackOff, None)"
    by code_simp
  with that show thesis by auto
qed


theorem Reconcile_invalid_witness:
  "\<exists>e s'. isValid (initializeEmptyFieldsOnCustomResource plainKube invalidCR) = Some e \<and>
     Reconcile plainKube ''ns'' ''cluster'' (memState invalidMem) = Some ((RequeueWithDefaultBackOff, None), s') \<and>
     grows (\<lambda>q. isRead q \<or> q = ReqEvent (initializeEmptyFieldsOnCustomResource plainKube invalidCR) ''Warning'' ''ProcessingError'' (errorText e) \<or>
      (\<exists>c. q = ReqUpdateStatus c \<and> IsStatusConditionFalse (st_Conditions (cr_Status c)) Ready)) (memState invalidMem) s'"
proof -
  obtain s' where r: "Reconcile plainKube ''ns'' ''cluster'' (memState invalidMem) = Some ((RequeueWithDefaultBackOff, None), s')"
    by (rule invalid_run)
  have "isValid (initializeEmptyFieldsOnCustomResource plainKube invalidCR) \<noteq> None" by code_simp
  then obtain e where e: "isValid (initializeEmptyFieldsOnCustomResource plainKube invalidCR) = Some e" by blast
  have g: "kGetCR plainKube ''ns'' ''cluster'' (world (memState invalidMem)) = (Inr invalidCR, invalidMem)"
    by (simp add: plainKube_def memKube_def memState_def invalidMem_def)
  have "retries (retryDefaultRetry plainKube)" by (simp add: plainKube_def)
  from Reconcile_invalid [OF this g e r] r e show ?thesis by blast
qed

theorem reconcileAllcomponents_no_delay_witness:
  "\<exists>result s'. reconcileAllcomponents plainKube sampleCR (memState emptyMem) = Some ((result, None), s') \<and>
     Requeue result \<and> RequeueAfter result = 0"
proof -
  have "map_option (\<lambda>((r, e), s). (Requeue r, e)) (reconcileAllcomponents plainKube sampleCR (memState emptyMem)) = Some (True, None)"
    by code_simp
  then obtain result s' where "reconcileAllcomponents plainKube sampleCR (memState emptyMem) = Some ((result, None), s')" "Requeue result"
    by auto
  with reconcileAllcomponents_no_delay show ?thesis by blast
qed

text \<open>A server that refuses every object, with no assets for MongoDB, and a resource whose management is disabled.\<close>

definition refusingKube :: "mem kube" where
  "refusingKube = (memKube sampleFiles sampleDec)\<lparr>kCreate := (\<lambda>x w. (Some (ErrorString ''no''), w)),
     fsReadDir := (\<lambda>d w. (Inr [], w))\<rparr>"

definition noMgmtCR :: nvmesh where
  "noMgmtCR = upd_mgmt (mgmt_Disabled_update (\<lambda>_. True)) sampleCR"

theorem reconcileRest_outcome_witness:
  "\<exists>e s1 s2 s3. coreReconcile refusingKube noMgmtCR s1 = Some ((DoNotRequeue, Some e), s2) \<and>
     reconcileRest refusingKube noMgmtCR (memState sampleMem) =
       writeCondition refusingKube (newCondition Ready '''' ConditionTrue) noMgmtCR DoNotRequeue s3"
proof -
  let ?m = "mgmtReconcile refusingKube noMgmtCR (memState sampleMem)"
  have "map_option fst ?m = Some (DoNotRequeue, None)" by code_simp
  then obtain s1 where m: "?m = Some ((DoNotRequeue, None), s1)" by auto
  have "map_option fst (?m \<bind> (\<lambda>(_, s). coreReconcile refusingKube noMgmtCR s)) = Some (DoNotRequeue, Some (ErrorString ''no''))"
    by code_simp
  with m obtain s2 where c: "coreReconcile refusingKube noMgmtCR s1 = Some ((DoNotRequeue, Some (ErrorString ''no'')), s2)" by auto
  have "?m \<bind> (\<lambda>(_, s). coreReconcile refusingKube noMgmtCR s \<bind> (\<lambda>(_, s). csiReconcile refusingKube noMgmtCR s)) \<noteq> None"
    by code_simp
  with m c obtain r3 e3 s3 where k: "csiReconcile refusingKube noMgmtCR s2 = Some ((r3, e3), s3)" by auto
  have "spec_Actions (cr_Spec noMgmtCR) = []" "st_ActionsStatus (cr_Status noMgmtCR) = None"
    by (simp_all add: noMgmtCR_def sampleCR_def zeroNVMesh_def)
  from reconcileRest_outcome [OF m c k this] c show ?thesis by (auto simp: DoNotRequeue_def)
qed


end
