(* ===== verification/Deployment.thy ===== *)
theory Deployment
  imports Reconciler
begin

text \<open>
  What the three components achieve together, in a call of \<open>reconcileAllcomponents\<close>
  (controllers/nvmesh_controller.go): that everything the operator is to deploy is on the server when the
  call reports neither an error nor a wish to come back, and that nothing is written when it was there already.
  Both are about the loop of ComponentLoop over four directories, with the work on the database in between.
\<close>

section \<open>A directory without subdirectories\<close>

text \<open>The database's assets are listed with \<open>ioutil.ReadDir\<close>, as \<open>staticAssets\<close> is about \<open>filepath.Walk\<close>.\<close>

definition staticDir :: "'w kube \<Rightarrow> string \<Rightarrow> (string \<times> string) list \<Rightarrow> bool" where
  "staticDir env dir assets \<longleftrightarrow>
     (\<forall>w. fsReadDir env dir w = (Inr (map (\<lambda>f. (f, False)) (map fst assets)), w)) \<and>
     (\<forall>(f, t)\<in>set assets. \<forall>w. fsReadFile env (pathJoin dir f) w = (Inr t, w))"

text \<open>The files a directory is read as, by either way of listing.\<close>

definition listsAssets :: "'w kube \<Rightarrow> string \<Rightarrow> bool \<Rightarrow> (string \<times> string) list \<Rightarrow> bool" where
  "listsAssets env dir recursive files \<longleftrightarrow>
     (\<forall>s. listFilesInDir env dir recursive s = Some (Inr (map fst files), s)) \<and>
     (\<forall>(f, t)\<in>set files. \<forall>w. fsReadFile env f w = (Inr t, w))"

lemma staticAssets_lists: "staticAssets env dir assets \<Longrightarrow> listsAssets env dir True assets"
  by (auto simp: staticAssets_def listsAssets_def listFilesInDir_def listFilesInSubDirs_def localCall_def walkedFiles_plain
      simp del: map_map)

lemma staticDir_lists: "staticDir env dir assets \<Longrightarrow> listsAssets env dir False (map (\<lambda>(f, t). (pathJoin dir f, t)) assets)"
  by (auto simp: staticDir_def listsAssets_def listFilesInDir_def localCall_def comp_def split_def)

text \<open>The objects of a directory.\<close>

definition objectsOf :: "'w kube \<Rightarrow> (string \<times> string) list \<Rightarrow> kobj list" where
  "objectsOf env assets = concat (map (\<lambda>(f, t). assetObjects env t) assets)"

lemma objectsOf_Cons: "objectsOf env ((f, t) # assets) = assetObjects env t @ objectsOf env assets"
  by (simp add: objectsOf_def)

lemma objectsOf_append [simp]: "objectsOf env (a @ b) = objectsOf env a @ objectsOf env b"
  by (simp add: objectsOf_def)

lemma objectsOf_joined [simp]: "objectsOf env (map (\<lambda>(f, t). (pathJoin dir f, t)) assets) = objectsOf env assets"
  by (simp add: objectsOf_def comp_def split_def)

section \<open>Everything is on the server\<close>

context nvmesh_component
begin

lemma create_listed:
  assumes srv: "serves env st" "retries (retryDefaultBackoff env)" "ownerRefOnly env"
    and files: "listsAssets env dir recursive files"
    and run: "createObjectsFromDir env cr C dir recursive s = Some (None, s')"
  shows "keyIn cr ` set (objectsOf env files) \<subseteq> st (world s')"
proof -
  from files run have "reconcileFiles env cr C False (map fst files) s = Some (None, s')"
    by (simp add: listsAssets_def createObjectsFromDir_def reconcileYamlObjectsFromDir_def)
  from reconcileFiles_exist [OF srv _ this] files show ?thesis
    by (fastforce simp: listsAssets_def objectsOf_def)
qed

text \<open>Creating objects loses none.\<close>

lemma create_keeps:
  assumes "serves env st" "retries (retryDefaultBackoff env)" "ownerRefOnly env"
    and "createObjectsFromDir env cr C dir recursive s = Some (r, s')"
  shows "st (world s) \<subseteq> st (world s')"
  using assms(4)
  by (rule serves_keep [OF assms(1), rotated])
    (intro steps_createObjectsFromDir, simp_all add: assms(1-3) servesD [OF assms(1)] allowsCreatesFor_def)

end

text \<open>
  A server on which a deletion removes the object deleted and no other, and whose objects the database's
  calls do not touch.
\<close>

definition losesOnlyDeleted :: "'w kube \<Rightarrow> ('w \<Rightarrow> okey set) \<Rightarrow> bool" where
  "losesOnlyDeleted env st \<longleftrightarrow>
     (\<forall>x w. st w - {keyOf x} \<subseteq> st (snd (kDelete env x w))) \<and>
     (\<forall>uri w. st w \<subseteq> st (snd (mongoConnect env uri w))) \<and>
     (\<forall>w. st w \<subseteq> st (snd (mongoFindOne env w))) \<and>
     (\<forall>a b w. st w \<subseteq> st (snd (mongoUpdateOne env a b w))) \<and>
     (\<forall>w. st w \<subseteq> st (mongoDisconnect env w))"

text \<open>Keys of jobs and pods, which the work on the database may delete.\<close>

definition jobOrPod :: "okey \<Rightarrow> bool" where
  "jobOrPod k \<longleftrightarrow> fst k \<in> {''Job'', ''Pod''}"

lemma keepsI: "(\<And>w. st w \<subseteq> st (snd (f w))) \<Longrightarrow> steps (keeps (\<lambda>w. K \<subseteq> st w)) (apiCall q f)"
  by (rule keeps_apiCall) blast

lemma steps_handleDBManipulations:
  assumes srv: "serves env st" "retries (retryDefaultBackoff env)" and lose: "losesOnlyDeleted env st"
    and K: "\<And>k. k \<in> K \<Longrightarrow> \<not> jobOrPod k"
  shows "steps (keeps (\<lambda>w. K \<subseteq> st w)) (handleDBManipulations env cr)"
proof -
  let ?R = "keeps (\<lambda>w. K \<subseteq> st w)"
  have del: "steps ?R (clientDelete env x)" if "kindOf x \<in> {''Job'', ''Pod''}" for x
    unfolding clientDelete_def
  proof (rule keeps_apiCall)
    fix w assume "K \<subseteq> st w"
    moreover have "keyOf x \<notin> K" using K [of "keyOf x"] that by (auto simp: jobOrPod_def keyOf_def)
    moreover have "st w - {keyOf x} \<subseteq> st (snd (kDelete env x w))" using lose unfolding losesOnlyDeleted_def by blast
    ultimately show "K \<subseteq> st (snd (kDelete env x w))" by blast
  qed
  have pods: "steps ?R (deletePods env pods)" for pods
  proof (induction pods)
    case Nil
    show ?case unfolding deletePods.simps by (intro steps_intro)
  next
    case (Cons p pods)
    show ?case unfolding deletePods.simps by (intro steps_intro Cons del) simp
  qed
  have job: "steps ?R (deleteJob env ns j)" for ns j
    unfolding deleteJob_def getJobPods_def
    by (intro steps_intro pods del allowsReadsD [OF servesD(3) [OF srv(1)]]) simp
  have find: "steps ?R (FindOne env)" and upd: "steps ?R (UpdateOne env a b)" and close: "steps ?R (mongoClose env)"
    and conn: "steps ?R (apiCall q (mongoConnect env uri))" for a b q uri
    unfolding FindOne_def UpdateOne_def mongoClose_def
    using lose unfolding losesOnlyDeleted_def by (intro steps_intro keepsI; simp add: unitCall_def)+
  have restart: "steps ?R (restartManagement env ns)" for ns
    unfolding restartManagement_def by (intro steps_restartStatefulSet servesD(3,4) [OF srv(1)] srv(2) preord_keeps)
  show ?thesis
    unfolding handleDBManipulations_def syncSettings_def Let_def
    by (intro steps_intro job find upd close conn restart)
qed

section \<open>The components in turn\<close>

definition allEnabled :: "nvmesh \<Rightarrow> bool" where
  "allEnabled cr \<longleftrightarrow> \<not> mgmt_Disabled (mgmt cr) \<and> \<not> mongo_External (mgmt_MongoDB (mgmt cr)) \<and>
     \<not> core_Disabled (core cr) \<and> \<not> csi_Disabled (csi cr)"

lemma firstError_None [simp]: "firstError errs = None \<longleftrightarrow> errs = []"
  by (simp add: firstError_def split: list.split)

lemma errorsOf_Nil: "errorsOf errs = [] \<longleftrightarrow> list_all (\<lambda>e. e = None) errs"
  by (induction errs) (auto simp: errorsOf_def split: option.splits)

lemma reconcileAllcomponents_runs:
  assumes "reconcileAllcomponents env cr s = Some ((result, err), s')"
  obtains r1 e1 s1 r2 e2 s2 r3 e3 where "mgmtReconcile env cr s = Some ((r1, e1), s1)" "coreReconcile env cr s1 = Some ((r2, e2), s2)"
    "csiReconcile env cr s2 = Some ((r3, e3), s')" "result = mergeResult DoNotRequeue r1" "err = firstError (errorsOf [e1, e2, e3])"
proof -
  from assms obtain r1 e1 s1 r2 e2 s2 r3 e3 where c: "mgmtReconcile env cr s = Some ((r1, e1), s1)"
    "coreReconcile env cr s1 = Some ((r2, e2), s2)" "csiReconcile env cr s2 = Some ((r3, e3), s')"
    by (auto simp: reconcileAllcomponents_def allComponents_def bind_eq_Some)
  from reconcileAllcomponents_run [OF c] assms c show thesis by (intro that) simp_all
qed

text \<open>The way of the management component to its end.\<close>

lemma mgmtReconcile_completed:
  assumes "\<not> mgmt_Disabled (mgmt cr)" "\<not> mongo_External (mgmt_MongoDB (mgmt cr))"
    and "mgmtReconcile env cr s = Some ((result, None), s')" and "\<not> Requeue result"
  obtains s1 s2 where "createObjectsFromDir env cr (mgmtComponent env) mongoDBAssetsLocation False s = Some (None, s1)"
    "handleDBManipulations env cr s1 = Some (None, s2)"
    "createObjectsFromDir env cr (mgmtComponent env) mgmtAssetsLocation True s2 = Some (None, s')"
  using assms
proof -
  from assms(1-3) obtain err s1 where 1: "createObjectsFromDir env cr (mgmtComponent env) mongoDBAssetsLocation False s = Some (err, s1)"
    by (cases "createObjectsFromDir env cr (mgmtComponent env) mongoDBAssetsLocation False s") (auto simp: mgmtReconcile_def deployMongoDB_def)
  with assms have err: "err = None" by (cases err) (simp_all add: mgmtReconcile_def deployMongoDB_def)
  with assms 1 obtain e s2 where 2: "handleDBManipulations env cr s1 = Some (e, s2)"
    by (cases "handleDBManipulations env cr s1") (auto simp: mgmtReconcile_def deployMongoDB_def)
  with assms 1 err have "e = None"
    by (cases e) (auto simp: mgmtReconcile_def deployMongoDB_def bind_case_prod_Some split: if_splits)
  with assms 1 2 err have "createObjectsFromDir env cr (mgmtComponent env) mgmtAssetsLocation True s2 = Some (None, s')"
    by (auto simp: mgmtReconcile_def deployMongoDB_def bind_case_prod_Some)
  with 1 2 err \<open>e = None\<close> show thesis by (intro that) simp_all
qed

text \<open>The four directories the components are deployed from.\<close>

definition shippedAssets ::
  "'w kube \<Rightarrow> (string \<times> string) list \<Rightarrow> (string \<times> string) list \<Rightarrow> (string \<times> string) list \<Rightarrow> (string \<times> string) list \<Rightarrow> bool" where
  "shippedAssets env mongo management coreFiles csiFiles \<longleftrightarrow>
     staticDir env mongoDBAssetsLocation mongo \<and> staticAssets env mgmtAssetsLocation management \<and>
     staticAssets env nvmeshCoreAssestLocation coreFiles \<and> staticAssets env csiAssetsLocation csiFiles"

lemma shippedAssets_lists:
  assumes "shippedAssets env mongo management coreFiles csiFiles"
  shows "listsAssets env mongoDBAssetsLocation False (map (\<lambda>(f, t). (pathJoin mongoDBAssetsLocation f, t)) mongo)"
    and "listsAssets env mgmtAssetsLocation True management"
    and "listsAssets env nvmeshCoreAssestLocation True coreFiles" and "listsAssets env csiAssetsLocation True csiFiles"
  using assms by (auto simp: shippedAssets_def intro: staticAssets_lists staticDir_lists)

lemma components_create_all:
  assumes srv: "serves env st" "retries (retryDefaultBackoff env)" "ownerRefOnly env" and lose: "losesOnlyDeleted env st"
    and ship: "shippedAssets env mongo management coreFiles csiFiles" and on: "allEnabled cr"
    and run: "reconcileAllcomponents env cr s = Some ((result, None), s')" "\<not> Requeue result"
  shows "keyIn cr ` set (objectsOf env (management @ coreFiles @ csiFiles)) \<subseteq> st (world s')"
    and "x \<in> set (objectsOf env mongo) \<Longrightarrow> kindOf x \<notin> {''Job'', ''Pod''} \<Longrightarrow> keyIn cr x \<in> st (world s')"
proof -
  note lists = shippedAssets_lists [OF ship]
  from reconcileAllcomponents_runs [OF run(1)] obtain r1 e1 s1 r2 e2 s2 r3 e3
    where m: "mgmtReconcile env cr s = Some ((r1, e1), s1)" and c: "coreReconcile env cr s1 = Some ((r2, e2), s2)"
      and i: "csiReconcile env cr s2 = Some ((r3, e3), s')" and r: "result = mergeResult DoNotRequeue r1"
      and e: "None = firstError (errorsOf [e1, e2, e3])" .
  from e [symmetric] have e: "e1 = None" "e2 = None" "e3 = None" by (simp_all add: errorsOf_Nil)
  from r run(2) have "\<not> Requeue r1" by (auto simp: mergeResult_def split: if_splits)
  with mgmtReconcile_completed [OF _ _ m [unfolded e]] on obtain t1 t2
    where m1: "createObjectsFromDir env cr (mgmtComponent env) mongoDBAssetsLocation False s = Some (None, t1)"
      and m2: "handleDBManipulations env cr t1 = Some (None, t2)"
      and m3: "createObjectsFromDir env cr (mgmtComponent env) mgmtAssetsLocation True t2 = Some (None, s1)"
    by (auto simp: allEnabled_def)
  from c e on have c: "createObjectsFromDir env cr coreComponent nvmeshCoreAssestLocation True s1 = Some (None, s2)"
    by (auto simp: allEnabled_def coreReconcile_def deployCore_def bind_case_prod_Some)
  from i e on have i: "createObjectsFromDir env cr csiComponent csiAssetsLocation True s2 = Some (None, s')"
    by (auto simp: allEnabled_def csiReconcile_def deployCSI_def bind_case_prod_Some)
  have keep: "st (world t2) \<subseteq> st (world s1)" "st (world s1) \<subseteq> st (world s2)" "st (world s2) \<subseteq> st (world s')"
    by (rule mgmtc.create_keeps [OF srv m3] corec.create_keeps [OF srv c] csic.create_keeps [OF srv i])+
  have "keyIn cr ` set (objectsOf env management) \<subseteq> st (world s')"
    using mgmtc.create_listed [OF srv lists(2) m3] keep(2,3) by (meson order_trans)
  moreover have "keyIn cr ` set (objectsOf env coreFiles) \<subseteq> st (world s')"
    using corec.create_listed [OF srv lists(3) c] keep(3) by (meson order_trans)
  moreover have "keyIn cr ` set (objectsOf env csiFiles) \<subseteq> st (world s')" by (rule csic.create_listed [OF srv lists(4) i])
  ultimately show "keyIn cr ` set (objectsOf env (management @ coreFiles @ csiFiles)) \<subseteq> st (world s')"
    by (simp add: image_Un)
  assume x: "x \<in> set (objectsOf env mongo)" "kindOf x \<notin> {''Job'', ''Pod''}"
  from mgmtc.create_listed [OF srv lists(1) m1] x(1) have "keyIn cr x \<in> st (world t1)" by auto
  moreover have "steps (keeps (\<lambda>w. {keyIn cr x} \<subseteq> st w)) (handleDBManipulations env cr)"
    by (rule steps_handleDBManipulations [OF srv(1,2) lose]) (use x(2) in \<open>simp add: jobOrPod_def keyIn_def\<close>)
  from stepsD [OF this m2] have "keyIn cr x \<in> st (world t1) \<longrightarrow> keyIn cr x \<in> st (world t2)" by (simp add: keeps_def)
  ultimately have "keyIn cr x \<in> st (world t2)" by blast
  with keep show "keyIn cr x \<in> st (world s')" by blast
qed

section \<open>Nothing is written twice\<close>

text \<open>
  The server answers the look-up of each of the objects with the object the operator would create now,
  metadata of its own aside, and looking changes nothing.
\<close>

definition upToDate :: "'w kube \<Rightarrow> 'w component \<Rightarrow> nvmesh \<Rightarrow> 'w \<Rightarrow> kobj \<Rightarrow> bool" where
  "upToDate env C cr w x \<longleftrightarrow>
     (\<exists>y. InitObject C cr (addOperatorLabels cr (setNamespace (crNamespace cr) x)) = Some (None, y) \<and>
        kGet env (kindOf x) (getNamespaceForObject cr (kindOf x)) (nameOf x) w = (Inr (snd (kSetControllerReference env cr y)), w))"

definition lookUp :: "nvmesh \<Rightarrow> kobj \<Rightarrow> request" where
  "lookUp cr x = ReqGet (kindOf x) (getNamespaceForObject cr (kindOf x)) (nameOf x)"

text \<open>Adding requests and changing nothing else.\<close>

definition asks :: "request list \<Rightarrow> 'w st \<Rightarrow> 'w st" where
  "asks l s = s\<lparr>reqs := reqs s @ l\<rparr>"

lemma asks_simps [simp]:
  "world (asks l s) = world s" "asks l' (asks l s) = asks (l @ l') s" "asks [] s = s"
  by (simp_all add: asks_def)

lemma apiCall_asks: "f (world s) = (r, world s) \<Longrightarrow> apiCall q f s = Some (r, asks [q] s)"
  by (simp add: apiCall_def asks_def)

text \<open>The assets are free of YAML errors.\<close>

definition cleanAssets :: "'w kube \<Rightarrow> (string \<times> string) list \<Rightarrow> bool" where
  "cleanAssets env files \<longleftrightarrow>
     (\<forall>(f, t)\<in>set files. \<forall>doc\<in>set (go_split yamlSeparator t). \<exists>x. kDecode env doc = (Some x, None))"

lemma cleanAssets_read:
  assumes "cleanAssets env ((f, t) # files)" and "\<And>w. fsReadFile env f w = (Inr t, w)"
  shows "YamlFileToObjects env f s = Some ((assetObjects env t, None), s)"
proof -
  from assms(1) have ok: "\<forall>doc\<in>set (go_split yamlSeparator t). \<exists>x. kDecode env doc = (Some x, None)" by (simp add: cleanAssets_def)
  then have "decodesAll (kDecode env) (go_split yamlSeparator t)" by (force simp: decodesAll_def)
  from yamlDocsToObjects_Some [OF this, of 0] obtain r where "yamlStringToObjects t (kDecode env) = Some r"
    by (force simp: yamlStringToObjects_def)
  moreover obtain objs err where "r = (objs, err)" by (cases r)
  ultimately have r: "yamlStringToObjects t (kDecode env) = Some (objs, err)" by simp
  have "err = None" using yamlStringToObjects_Some(3) [OF r] ok by force
  with r yamlStringToObjects_Some(2) [OF r] show ?thesis
    by (simp add: YamlFileToObjects_def YamlFileToString_def localCall_def assms(2) assetObjects_def)
qed

context steady_component
begin

lemma steady_objects:
  assumes "ownerRefOnly env" and "list_all (upToDate env C cr (world s)) xs"
  shows "reconcileObjects env cr C False xs s = Some ([], asks (map (lookUp cr) xs) s)"
  using assms(2)
proof (induction xs arbitrary: s)
  case Nil
  then show ?case by simp
next
  case (Cons x xs)
  then obtain y where y: "InitObject C cr (addOperatorLabels cr (setNamespace (crNamespace cr) x)) = Some (None, y)"
    "kGet env (kindOf x) (getNamespaceForObject cr (kindOf x)) (nameOf x) (world s) = (Inr (snd (kSetControllerReference env cr y)), world s)"
    by (auto simp: upToDate_def)
  from steady_state [OF assms(1) y(1) refl y(2)]
  have "makeSureObjectExists env cr x (Some C) s = Some (None, asks [lookUp cr x] s)" by (simp add: asks_def lookUp_def)
  moreover have "reconcileObjects env cr C False xs (asks [lookUp cr x] s) = Some ([], asks (map (lookUp cr) xs) (asks [lookUp cr x] s))"
    by (rule Cons.IH) (use Cons.prems in simp)
  ultimately show ?case by simp
qed

lemma steady_files:
  assumes "ownerRefOnly env" and "list_all (upToDate env C cr (world s)) (objectsOf env files)" and "cleanAssets env files"
    and "\<forall>(f, t)\<in>set files. \<forall>w. fsReadFile env f w = (Inr t, w)"
  shows "reconcileFiles env cr C False (map fst files) s = Some (None, asks (map (lookUp cr) (objectsOf env files)) s)"
  using assms(2-4)
proof (induction files arbitrary: s)
  case Nil
  then show ?case by (simp add: objectsOf_def)
next
  case (Cons a files)
  obtain f t where a: "a = (f, t)" by (cases a)
  have read: "YamlFileToObjects env f s = Some ((assetObjects env t, None), s)"
    by (rule cleanAssets_read) (use Cons.prems a in auto)
  have "list_all (upToDate env C cr (world s)) (assetObjects env t)" using Cons.prems(1) by (simp add: a objectsOf_Cons)
  from read steady_objects [OF assms(1) this]
  have "reconcileYamlObjectsFromFile env cr f C False s = Some (None, asks (map (lookUp cr) (assetObjects env t)) s)"
    by (simp add: reconcileYamlObjectsFromFile_def)
  moreover have "reconcileFiles env cr C False (map fst files) (asks (map (lookUp cr) (assetObjects env t)) s) =
      Some (None, asks (map (lookUp cr) (objectsOf env files)) (asks (map (lookUp cr) (assetObjects env t)) s))"
    by (rule Cons.IH) (use Cons.prems in \<open>auto simp: a objectsOf_Cons cleanAssets_def\<close>)
  ultimately show ?case by (simp add: a objectsOf_Cons)
qed

lemma steady_directory:
  assumes "ownerRefOnly env" and "list_all (upToDate env C cr (world s)) (objectsOf env files)" and "cleanAssets env files"
    and "listsAssets env dir recursive files"
  shows "createObjectsFromDir env cr C dir recursive s = Some (None, asks (map (lookUp cr) (objectsOf env files)) s)"
  using steady_files [OF assms(1-3)] assms(4)
  by (simp add: createObjectsFromDir_def reconcileYamlObjectsFromDir_def listsAssets_def)

end

text \<open>The settings in the database are those of the resource, and the job that wrote them is gone.\<close>

definition mongoURI :: "'w kube \<Rightarrow> nvmesh \<Rightarrow> string" where
  "mongoURI env cr = (if optDevelopment env then ''mongodb://localhost:27017'' else getMongoURI cr)"

definition quietDatabase :: "'w kube \<Rightarrow> nvmesh \<Rightarrow> 'w \<Rightarrow> bool" where
  "quietDatabase env cr w \<longleftrightarrow>
     mongoConnect env (mongoURI env cr) w = (None, w) \<and> mongoDisconnect env w = w \<and>
     (\<exists>elect. mongoFindOne env w = (Inr \<lparr>hs_AutoEvictMissingDrive = \<not> mgmt_DisableAutoEvictMissingDrives (mgmt cr),
        hs_AutoFormatDrive = \<not> mgmt_DisableAutoFormatDrives (mgmt cr), hs_IsElectDisabled = elect\<rparr>, w)) \<and>
     (\<exists>e. kDelete env (Job (jobNamed (crNamespace cr) mgmtInitDbJobName)) w = (Some e, w) \<and> isNotFound e) \<and>
     kListPods env (PodsMatching [(''job-name'', mgmtInitDbJobName)]) w = ((None, []), w)"

definition databaseRequests :: "'w kube \<Rightarrow> nvmesh \<Rightarrow> request list" where
  "databaseRequests env cr = [ReqMongoConnect (mongoURI env cr), ReqMongoFind,
     ReqDelete (Job (jobNamed (crNamespace cr) mgmtInitDbJobName)), ReqList ''Pod'', ReqMongoDisconnect]"

lemma quiet_handleDBManipulations:
  assumes "quietDatabase env cr (world s)"
  shows "handleDBManipulations env cr s = Some (None, asks (databaseRequests env cr) s)"
proof -
  from assms obtain elect e where q: "mongoConnect env (mongoURI env cr) (world s) = (None, world s)" "mongoDisconnect env (world s) = world s"
    "mongoFindOne env (world s) = (Inr \<lparr>hs_AutoEvictMissingDrive = \<not> mgmt_DisableAutoEvictMissingDrives (mgmt cr),
        hs_AutoFormatDrive = \<not> mgmt_DisableAutoFormatDrives (mgmt cr), hs_IsElectDisabled = elect\<rparr>, world s)"
    "kDelete env (Job (jobNamed (crNamespace cr) mgmtInitDbJobName)) (world s) = (Some e, world s)" "isNotFound e"
    "kListPods env (PodsMatching [(''job-name'', mgmtInitDbJobName)]) (world s) = ((None, []), world s)"
    unfolding quietDatabase_def by blast
  have job: "deleteJob env (crNamespace cr) mgmtInitDbJobName t =
      Some (None, asks [ReqDelete (Job (jobNamed (crNamespace cr) mgmtInitDbJobName)), ReqList ''Pod''] t)" if "world t = world s" for t
    using q(4-6) that by (simp add: deleteJob_def getJobPods_def clientDelete_def clientListPods_def apiCall_asks)
  show ?thesis
    using q(1-3) by (simp add: handleDBManipulations_def syncSettings_def FindOne_def mongoClose_def unitCall_def
        mongoURI_def [symmetric] databaseRequests_def apiCall_asks job Let_def)
qed

section \<open>Properties\<close>


text \<open>The steady state of all components: when every object of the four directories is on the server as the
  operator would create it now and the settings in the database are those of the resource, \<open>reconcileAllcomponents\<close>
  looks each object up once, in the order of the files, asks the database for its settings in between, tries to
  delete the job that wrote them, and ends without an error and without asking for another cycle: it
  creates nothing and updates nothing.\<close>

theorem reconcileAllcomponents_steady:
  assumes "ownerRefOnly env" and "shippedAssets env mongo management coreFiles csiFiles" and "allEnabled cr"
    and "cleanAssets env (map (\<lambda>(f, t). (pathJoin mongoDBAssetsLocation f, t)) mongo)" and "cleanAssets env management"
    and "cleanAssets env coreFiles" and "cleanAssets env csiFiles"
    and "list_all (upToDate env (mgmtComponent env) cr (world s)) (objectsOf env (mongo @ management))"
    and "list_all (upToDate env coreComponent cr (world s)) (objectsOf env coreFiles)"
    and "list_all (upToDate env csiComponent cr (world s)) (objectsOf env csiFiles)"
    and "quietDatabase env cr (world s)"
  shows "reconcileAllcomponents env cr s = Some ((DoNotRequeue, None),
    s\<lparr>reqs := reqs s @ map (lookUp cr) (objectsOf env mongo) @ databaseRequests env cr @
      map (lookUp cr) (objectsOf env (management @ coreFiles @ csiFiles))\<rparr>)"
proof -
  note lists = shippedAssets_lists [OF assms(2)]
  let ?m = "asks (map (lookUp cr) (objectsOf env mongo)) s"
  let ?d = "asks (map (lookUp cr) (objectsOf env mongo) @ databaseRequests env cr) s"
  let ?g = "asks (map (lookUp cr) (objectsOf env mongo) @ databaseRequests env cr @ map (lookUp cr) (objectsOf env management)) s"
  let ?c = "asks (map (lookUp cr) (objectsOf env mongo) @ databaseRequests env cr @ map (lookUp cr) (objectsOf env (management @ coreFiles))) s"
  have "createObjectsFromDir env cr (mgmtComponent env) mongoDBAssetsLocation False s = Some (None, ?m)"
    using mgmtc.steady_directory [OF assms(1) _ assms(4) lists(1), of cr s] assms(8) by simp
  moreover have "handleDBManipulations env cr ?m = Some (None, ?d)"
    using quiet_handleDBManipulations [of env cr ?m] assms(11) by simp
  moreover have "createObjectsFromDir env cr (mgmtComponent env) mgmtAssetsLocation True ?d = Some (None, ?g)"
    using mgmtc.steady_directory [OF assms(1) _ assms(5) lists(2), of cr ?d] assms(8) by simp
  ultimately have 1: "mgmtReconcile env cr s = Some ((DoNotRequeue, None), ?g)"
    using assms(3) by (simp add: mgmtReconcile_def deployMongoDB_def allEnabled_def)
  have "createObjectsFromDir env cr coreComponent nvmeshCoreAssestLocation True ?g = Some (None, ?c)"
    using corec.steady_directory [OF assms(1) _ assms(6) lists(3), of cr ?g] assms(9) by simp
  then have 2: "coreReconcile env cr ?g = Some ((DoNotRequeue, None), ?c)"
    using assms(3) by (simp add: coreReconcile_def deployCore_def allEnabled_def)
  have "createObjectsFromDir env cr csiComponent csiAssetsLocation True ?c = Some (None, asks (map (lookUp cr) (objectsOf env csiFiles)) ?c)"
    using csic.steady_directory [OF assms(1) _ assms(7) lists(4), of cr ?c] assms(10) by simp
  then have 3: "csiReconcile env cr ?c = Some ((DoNotRequeue, None), asks (map (lookUp cr) (objectsOf env csiFiles)) ?c)"
    using assms(3) by (simp add: csiReconcile_def deployCSI_def allEnabled_def)
  from reconcileAllcomponents_run [OF 1 2 3] show ?thesis by (simp add: errorsOf_def asks_def)
qed

section \<open>Witnesses\<close>

text \<open>
  A server whose every asset file holds the one sample object, and a database with the default settings. A write of
  the status changes the status only.
\<close>

definition memUpdateStatus :: "nvmesh \<Rightarrow> mem \<Rightarrow> (goerr + nvmesh) \<times> mem" where
  "memUpdateStatus cr w =
     (case m_cr w of
        None \<Rightarrow> (Inl errNotFound, w)
      | Some read \<Rightarrow> (Inr (read\<lparr>cr_Status := cr_Status cr\<rparr>), w\<lparr>m_cr := Some (read\<lparr>cr_Status := cr_Status cr\<rparr>)\<rparr>))"

definition deployKube :: "mem kube" where
  "deployKube = (memKube sampleFiles sampleDec)\<lparr>fsReadFile := (\<lambda>f w. (Inr ''sa'', w)), kUpdateStatus := memUpdateStatus\<rparr>"

definition deployMem :: mem where
  "deployMem = sampleMem\<lparr>m_settings := Some \<lparr>hs_AutoEvictMissingDrive = True, hs_AutoFormatDrive = True, hs_IsElectDisabled = False\<rparr>\<rparr>"

abbreviation memKeys :: "mem \<Rightarrow> okey set" where
  "memKeys w \<equiv> keyOf ` set (m_objs w)"

lemma deployKube_simps [simp]:
  "kGet deployKube = memGet" "kDelete deployKube = memDelete" "kDecode deployKube = sampleDec"
  "optDevelopment deployKube = False"
  "kSetControllerReference deployKube = kSetControllerReference (memKube sampleFiles sampleDec)"
  by (simp_all add: deployKube_def)

lemma deployKube_env [simp]: "retries (retryDefaultBackoff deployKube)" "ownerRefOnly deployKube"
  using memKube_retries(2) [of sampleFiles sampleDec] memKube_ownerRefOnly [of sampleFiles sampleDec]
  by (simp_all add: deployKube_def ownerRefOnly_def)

lemma deployKube_serves: "serves deployKube memKeys"
proof -
  note m = servesD [OF memKube_serves [of sampleFiles sampleDec]]
  have reads: "allowsReads deployKube (keeps (\<lambda>w. K \<subseteq> memKeys w))" for K
    using m(3) [of K] unfolding allowsReads_def client_defs deployKube_def by (simp add: keeps_localCall)
  have updates: "allowsUpdates deployKube (keeps (\<lambda>w. K \<subseteq> memKeys w))" for K
    using m(4) [of K] unfolding allowsUpdates_def client_defs deployKube_def by simp
  have creates: "steps (keeps (\<lambda>w. K \<subseteq> memKeys w)) (clientCreate deployKube x)" for K x
    using m(5) [of K x] unfolding client_defs deployKube_def by simp
  show ?thesis
    using m(1,2) reads updates creates unfolding serves_def by (simp add: deployKube_def)
qed

lemma deployKube_loses: "losesOnlyDeleted deployKube memKeys"
  by (auto simp: losesOnlyDeleted_def memDelete_def deployKube_def memKube_def split: option.splits)

lemma deployKube_assets:
  "shippedAssets deployKube [(''f'', ''sa'')] [(''f'', ''sa'')] [(''f'', ''sa'')] [(''f'', ''sa'')]"
  by (simp add: shippedAssets_def staticDir_def staticAssets_def deployKube_def memKube_def sampleFiles_def)

lemma sampleCR_enabled: "allEnabled sampleCR"
  by (simp add: allEnabled_def sampleCR_def zeroNVMesh_def)

lemma deploy_objects:
  "objectsOf deployKube [] = []" "objectsOf deployKube ((f, ''sa'') # files) = sampleObj # objectsOf deployKube files"
proof -
  have "decodedObjects sampleDec (go_split yamlSeparator ''sa'') = [sampleObj]" by code_simp
  then show "objectsOf deployKube ((f, ''sa'') # files) = sampleObj # objectsOf deployKube files"
    by (simp add: objectsOf_def assetObjects_def)
qed (simp add: objectsOf_def)


end
