(* ===== verification/SteadyCycle.thy ===== *)
theory SteadyCycle
  imports Deployment
begin

text \<open>
  Whole cycles of \<open>Reconcile\<close> (controllers/nvmesh_controller.go) on a cluster that is as the resource asks:
  what is sent to the API server from the read of the resource to the write of its status, and that it is the same in every
  cycle from then on. The parts of the cycle
  are those of Deployment (the three components), the cluster's own service account (ctrl_utils.go), the finalizer
  and the statuses of the actions.
\<close>

section \<open>The cluster's service account\<close>

definition accountObjects :: "nvmesh \<Rightarrow> kobj list" where
  "accountObjects cr = getClusterServiceAccount cr #
     [fst (getNVMeshClusterRoleAndRoleBinding cr), snd (getNVMeshClusterRoleAndRoleBinding cr)]"

lemma steady_account:
  assumes "ownerRefOnly env" and "list_all (upToDate env nilComponent cr (world s)) (accountObjects cr)"
  shows "makeSureServiceAccountExists env cr s = Some (None, asks (map (lookUp cr) (accountObjects cr)) s)"
proof -
  have one: "makeSureObjectExists env cr x None t = Some (None, asks [lookUp cr x] t)"
    if "upToDate env nilComponent cr (world t) x" for x t
    using nil.steady_objects [OF assms(1), of cr t "[x]"] that
    by (simp add: makeSureObjectExists_None bind_case_prod_Some split: option.splits)
  show ?thesis
    using assms(2) by (simp add: makeSureServiceAccountExists_def accountObjects_def one split_def Let_def)
qed

section \<open>The end of a cycle\<close>

text \<open>The resource as a cycle that succeeded writes it.\<close>

definition succeeded :: "gotime \<Rightarrow> nvmesh \<Rightarrow> nvmesh" where
  "succeeded now cr = populateStatusFields
     (upd_status (st_Conditions_update (\<lambda>cs. setConditionIn now cs (newCondition Ready '''' ConditionTrue))) cr)"

lemma succeeded_keeps [simp]:
  "cr_ObjectMeta (succeeded now cr) = cr_ObjectMeta cr" "cr_Spec (succeeded now cr) = cr_Spec cr"
  "actionsStatus (succeeded now cr) = actionsStatus cr" "cr\<lparr>cr_Status := cr_Status (succeeded now cr)\<rparr> = succeeded now cr"
  by (simp_all add: succeeded_def populateStatusFields_def actionsStatus_def)

lemma succeeded_ready: "IsStatusConditionTrue (st_Conditions (cr_Status (succeeded now cr))) Ready"
  using IsStatus_setConditionIn [of now "st_Conditions (cr_Status cr)" "newCondition Ready '''' ConditionTrue" Ready]
  by (simp add: succeeded_def populateStatusFields_def IsStatusConditionTrue_def newCondition_def)

text \<open>A second success writes nothing new.\<close>

lemma succeeded_again: "succeeded later (succeeded now cr) = succeeded now cr"
  by (simp add: succeeded_def populateStatusFields_def setConditionIn_idempotent comp_def)

lemma ManageSuccess_accepted:
  assumes "retries (retryDefaultRetry env)" and now: "timeNow env (world s) = (now, v)"
    and u: "kUpdateStatus env (succeeded now cr) v = (Inr c', w)"
  shows "ManageSuccess env (Some cr) result s =
    Some ((result, None), s\<lparr>world := w, reqs := reqs s @ [ReqUpdateStatus (succeeded now cr)]\<rparr>)"
proof -
  let ?c = "succeeded now cr"
  from assms(1) obtain n where n: "\<forall>f s. retryDefaultRetry env f s = attempts n f 0 s" unfolding retries_def ..
  have "statusAttempt env (cr_Status ?c) 0 ?c (s\<lparr>world := v\<rparr>) =
      Some ((None, c'), s\<lparr>world := w, reqs := reqs s @ [ReqUpdateStatus ?c]\<rparr>)"
    using u by (simp add: statusAttempt_def clientUpdateStatus_def apiCall_def)
  then have "UpdateStatus env ?c (s\<lparr>world := v\<rparr>) = Some ((None, c'), s\<lparr>world := w, reqs := reqs s @ [ReqUpdateStatus ?c]\<rparr>)"
    by (cases n) (simp_all add: UpdateStatus_def n asAttempt_def)
  with now show ?thesis
    by (simp add: ManageSuccess_def writeCondition_def setCondition_def localCall_def realError_def succeeded_def Let_def)
qed

section \<open>A cluster at rest\<close>

text \<open>The assets are well formed, every object they list is on the server as the resource asks for it, and so are the settings.\<close>

definition deployedAsIs ::
  "'w kube \<Rightarrow> nvmesh \<Rightarrow> 'w \<Rightarrow> (string \<times> string) list \<Rightarrow> (string \<times> string) list \<Rightarrow> (string \<times> string) list \<Rightarrow> (string \<times> string) list \<Rightarrow> bool" where
  "deployedAsIs env cr w mongo management coreFiles csiFiles \<longleftrightarrow>
     shippedAssets env mongo management coreFiles csiFiles \<and>
     cleanAssets env (map (\<lambda>(f, t). (pathJoin mongoDBAssetsLocation f, t)) mongo) \<and>
     cleanAssets env management \<and> cleanAssets env coreFiles \<and> cleanAssets env csiFiles \<and>
     list_all (upToDate env (mgmtComponent env) cr w) (objectsOf env (mongo @ management)) \<and>
     list_all (upToDate env coreComponent cr w) (objectsOf env coreFiles) \<and>
     list_all (upToDate env csiComponent cr w) (objectsOf env csiFiles) \<and>
     quietDatabase env cr w"

text \<open>The resource asks for every component, is not being deleted, carries the finalizer and no action, new or finished.\<close>

definition nothingPending :: "nvmesh \<Rightarrow> bool" where
  "nothingPending cr \<longleftrightarrow> allEnabled cr \<and> \<not> isBeingDeleted cr \<and> hasFinalizer cr clusterFinalizerName \<and>
     \<not> hasActions cr \<and> actionsStatus cr = []"

lemma noActionStatuses:
  assumes "hasActions cr = False" and "actionsStatus cr = []"
  shows "removeFinishedActionStatuses env cr s = Some ((DoNotRequeue, cr), s)"
proof -
  have "setActionsStatus [] cr = cr" if "st_ActionsStatus (cr_Status cr) = Some []"
    using that by (simp add: setActionsStatus_def)
  with assms(2) show ?thesis
    by (auto simp: removeFinishedActionStatuses_def actionsStatus_def split: option.splits)
qed

text \<open>The resource as the server has it, its empty fields filled in, and everything as it asks.\<close>

definition atRest ::
  "'w kube \<Rightarrow> string \<Rightarrow> string \<Rightarrow> (string \<times> string) list \<Rightarrow> (string \<times> string) list \<Rightarrow> (string \<times> string) list \<Rightarrow> (string \<times> string) list \<Rightarrow>
    nvmesh \<Rightarrow> 'w \<Rightarrow> bool" where
  "atRest env ns name mongo management coreFiles csiFiles read w \<longleftrightarrow>
     kGetCR env ns name w = (Inr read, w) \<and>
     (let cr = initializeEmptyFieldsOnCustomResource env read in
        nothingPending cr \<and> list_all (upToDate env nilComponent cr w) (accountObjects cr) \<and>
        deployedAsIs env cr w mongo management coreFiles csiFiles)"

definition cycleRequests ::
  "'w kube \<Rightarrow> string \<Rightarrow> string \<Rightarrow> (string \<times> string) list \<Rightarrow> (string \<times> string) list \<Rightarrow> (string \<times> string) list \<Rightarrow> (string \<times> string) list \<Rightarrow>
    nvmesh \<Rightarrow> request list" where
  "cycleRequests env ns name mongo management coreFiles csiFiles cr =
     [ReqGetCR ns name] @ map (lookUp cr) (accountObjects cr) @
     map (lookUp cr) (objectsOf env mongo) @ databaseRequests env cr @
     map (lookUp cr) (objectsOf env (management @ coreFiles @ csiFiles))"

lemma cycle_run:
  assumes env: "ownerRefOnly env" "retries (retryDefaultRetry env)" and "watchers s = []"
    and rest: "atRest env ns name mongo management coreFiles csiFiles read (world s)"
    and cr: "cr = initializeEmptyFieldsOnCustomResource env read"
    and status: "timeNow env (world s) = (now, v)" "kUpdateStatus env (succeeded now cr) v = (Inr c', w)"
  shows "Reconcile env ns name s = Some ((DoNotRequeue, None),
    s\<lparr>world := w, reqs := reqs s @ cycleRequests env ns name mongo management coreFiles csiFiles cr @ [ReqUpdateStatus (succeeded now cr)],
      reconcileCycles := reconcileCycles s + 1\<rparr>)"
proof -
  let ?t = "asks [ReqGetCR ns name] (s\<lparr>reconcileCycles := reconcileCycles s + 1\<rparr>)"
  let ?u = "asks (map (lookUp cr) (accountObjects cr)) ?t"
  let ?l = "map (lookUp cr) (objectsOf env mongo) @ databaseRequests env cr @ map (lookUp cr) (objectsOf env (management @ coreFiles @ csiFiles))"
  from rest have r: "kGetCR env ns name (world s) = (Inr read, world s)" "nothingPending cr"
    "list_all (upToDate env nilComponent cr (world s)) (accountObjects cr)" "deployedAsIs env cr (world s) mongo management coreFiles csiFiles"
    by (simp_all add: atRest_def cr Let_def)
  have "Reconcile env ns name s = reconcileCR env read ?t"
    using r(1) by (simp add: Reconcile_def clientGetCR_def apiCall_asks)
  moreover have "stopAllUnstructuredWatchers env ?t = Some ((), ?t)" by (simp add: stopAllUnstructuredWatchers_def asks_def assms(3))
  moreover have "makeSureServiceAccountExists env cr ?t = Some (None, ?u)"
    by (rule steady_account) (use env(1) r(3) in simp_all)
  moreover have "handleFinalizer env cr ?u = Some (((DoNotRequeue, None), cr), ?u)" and "isValid cr = None"
    using r(2) by (simp_all add: handleFinalizer_def nothingPending_def isValid_def allEnabled_def)
  moreover have "reconcileAllcomponents env cr ?u = Some ((DoNotRequeue, None), asks ?l ?u)"
    using reconcileAllcomponents_steady [OF env(1), of mongo management coreFiles csiFiles cr ?u] r(2,4)
    unfolding deployedAsIs_def nothingPending_def by (simp add: asks_def)
  moreover have "ManageSuccess env (Some cr) DoNotRequeue (asks ?l ?u) = Some ((DoNotRequeue, None),
      (asks ?l ?u)\<lparr>world := w, reqs := reqs (asks ?l ?u) @ [ReqUpdateStatus (succeeded now cr)]\<rparr>)"
    by (rule ManageSuccess_accepted [OF env(2) _ status(2)]) (use status(1) in simp)
  ultimately have "Reconcile env ns name s = Some ((DoNotRequeue, None),
      (asks ?l ?u)\<lparr>world := w, reqs := reqs (asks ?l ?u) @ [ReqUpdateStatus (succeeded now cr)]\<rparr>)"
    using r(2) by (simp add: reconcileCR_def cr [symmetric] reconcileRest_def reconcileActions_def noActionStatuses nothingPending_def del: asks_simps)
  then show ?thesis by (simp add: cycleRequests_def asks_def)
qed

section \<open>What a cycle asks for does not depend on the status\<close>

text \<open>\<open>SetControllerReference\<close> takes the owner's name, identifier and kind.\<close>

definition refersByMeta :: "'w kube \<Rightarrow> bool" where
  "refersByMeta env \<longleftrightarrow>
     (\<forall>cr cr'. cr_ObjectMeta cr = cr_ObjectMeta cr' \<longrightarrow> kSetControllerReference env cr = kSetControllerReference env cr')"

lemma labels_status [simp]: "addOperatorLabels (cr\<lparr>cr_Status := st\<rparr>) = addOperatorLabels cr"
  by (rule ext) (simp add: addOperatorLabels_def getOperatorLabels_def crName_def)

lemma namespace_status [simp]:
  "crNamespace (cr\<lparr>cr_Status := st\<rparr>) = crNamespace cr" "crName (cr\<lparr>cr_Status := st\<rparr>) = crName cr"
  "getNamespaceForObject (cr\<lparr>cr_Status := st\<rparr>) = getNamespaceForObject cr"
  by (simp_all add: crNamespace_def crName_def getNamespaceForObject_def fun_eq_iff)

lemma selects_status: "cr_Spec (cr\<lparr>cr_Status := st\<rparr>) = cr_Spec cr" "cr_ObjectMeta (cr\<lparr>cr_Status := st\<rparr>) = cr_ObjectMeta cr"
  by simp_all

lemma spec_status:
  "getCoreFullImageName (cr\<lparr>cr_Status := st\<rparr>) = getCoreFullImageName cr"
  "getImagePullPolicy (cr\<lparr>cr_Status := st\<rparr>) = getImagePullPolicy cr"
  "addKeepRunningAfterFailureEnvVar (cr\<lparr>cr_Status := st\<rparr>) = addKeepRunningAfterFailureEnvVar cr"
  "setEnvVariableValues (cr\<lparr>cr_Status := st\<rparr>) = setEnvVariableValues cr"
  by (simp_all add: getCoreFullImageName_def getImagePullPolicy_def addKeepRunningAfterFailureEnvVar_def setEnvVariableValues_def fun_eq_iff)

lemma initContainers_status:
  "initContainers (cr\<lparr>cr_Status := st\<rparr>) imageName cs volumes = initContainers cr imageName cs volumes"
  by (induction cs arbitrary: imageName volumes) (simp_all only: initContainers.simps selects_status spec_status)

lemmas ignores_status = selects_status spec_status initContainers_status labels_status namespace_status

lemma core_init_status: "coreInitObject (cr\<lparr>cr_Status := st\<rparr>) x = coreInitObject cr x"
  unfolding coreInitObject_def initDaemonSets_def initCoreConfigMap_def coreConfDict_def getMgmtServersConnectionString_def ignores_status ..

lemma csi_init_status: "csiInitObject (cr\<lparr>cr_Status := st\<rparr>) x = csiInitObject cr x"
  unfolding csiInitObject_def initCSIControllerStatefulSet_def initCSINodeDriverDaemonSet_def initCSIConfigMap_def initRoleBinding_def
    initClusterRoleBinding_def initCSITemplate_def getCSIFullImageName_def getCSIServiceAccountName_def ignores_status ..

lemma mgmt_init_status: "mgmtInitObject (cr\<lparr>cr_Status := st\<rparr>) x = mgmtInitObject cr x"
  unfolding mgmtInitObject_def initMgmtStatefulSet_def initMongoStatefulSet_def initConfigMap_def initMgmtGuiService_def
    initClaim_def addDeleteOnUninstallLabel_def getMgmtImageFromResource_def getMongoConnectionString_def ignores_status ..

lemma upToDate_status:
  assumes "refersByMeta env" and "InitObject C (cr\<lparr>cr_Status := st\<rparr>) = InitObject C cr"
  shows "upToDate env C (cr\<lparr>cr_Status := st\<rparr>) w x = upToDate env C cr w x"
proof -
  from assms(1) have "kSetControllerReference env (cr\<lparr>cr_Status := st\<rparr>) = kSetControllerReference env cr"
    unfolding refersByMeta_def using selects_status(2) by blast
  then show ?thesis by (simp add: upToDate_def assms(2))
qed

lemma upToDate_nil_status: "refersByMeta env \<Longrightarrow> upToDate env nilComponent (cr\<lparr>cr_Status := st\<rparr>) w = upToDate env nilComponent cr w"
  by (rule ext, rule upToDate_status) (simp_all add: nilComponent_def)

lemma lookUp_status [simp]: "lookUp (cr\<lparr>cr_Status := st\<rparr>) = lookUp cr"
  by (rule ext) (simp only: lookUp_def ignores_status)

lemma requests_status [simp]:
  "accountObjects (cr\<lparr>cr_Status := st\<rparr>) = accountObjects cr"
  "mongoURI env (cr\<lparr>cr_Status := st\<rparr>) = mongoURI env cr" "databaseRequests env (cr\<lparr>cr_Status := st\<rparr>) = databaseRequests env cr"
  "quietDatabase env (cr\<lparr>cr_Status := st\<rparr>) w = quietDatabase env cr w"
  unfolding accountObjects_def getClusterServiceAccount_def getNVMeshClusterRoleAndRoleBinding_def getClusterServiceAccountName_def
    mongoURI_def databaseRequests_def getMongoURI_def getMongoConnectionString_def quietDatabase_def ignores_status
  by (rule refl)+

lemma cycleRequests_status [simp]:
  "cycleRequests env ns name mongo management coreFiles csiFiles (cr\<lparr>cr_Status := st\<rparr>) =
   cycleRequests env ns name mongo management coreFiles csiFiles cr"
  by (simp add: cycleRequests_def)

lemma fields_status: "initializeEmptyFieldsOnCustomResource env (cr\<lparr>cr_Status := st\<rparr>) = (initializeEmptyFieldsOnCustomResource env cr)\<lparr>cr_Status := st\<rparr>"
  by (simp add: initializeEmptyFieldsOnCustomResource_def Let_def)

lemma fields_cr_Status: "cr_Status (initializeEmptyFieldsOnCustomResource env cr) = cr_Status cr"
  by (simp add: initializeEmptyFieldsOnCustomResource_def Let_def)

lemma nothingPending_status:
  "nothingPending cr \<Longrightarrow> actionsStatus (cr\<lparr>cr_Status := st\<rparr>) = [] \<Longrightarrow> nothingPending (cr\<lparr>cr_Status := st\<rparr>)"
  by (simp add: nothingPending_def allEnabled_def isBeingDeleted_def hasFinalizer_def hasActions_def)

lemma deployedAsIs_status:
  "refersByMeta env \<Longrightarrow>
   deployedAsIs env (cr\<lparr>cr_Status := st\<rparr>) w mongo management coreFiles csiFiles = deployedAsIs env cr w mongo management coreFiles csiFiles"
  unfolding deployedAsIs_def
  by (simp add: upToDate_status mgmtComponent_def coreComponent_def csiComponent_def mgmt_init_status core_init_status csi_init_status
      fun_eq_iff list_all_iff)

section \<open>Writing the status moves nothing else\<close>

text \<open>What one world answered without changing, the other answers alike.\<close>

definition answersAlike :: "'w kube \<Rightarrow> 'w \<Rightarrow> 'w \<Rightarrow> bool" where
  "answersAlike env w w' \<longleftrightarrow>
     (\<forall>k n m r. kGet env k n m w = (r, w) \<longrightarrow> kGet env k n m w' = (r, w')) \<and>
     (\<forall>x r. kDelete env x w = (Some r, w) \<longrightarrow> kDelete env x w' = (Some r, w')) \<and>
     (\<forall>q r. kListPods env q w = (r, w) \<longrightarrow> kListPods env q w' = (r, w')) \<and>
     (\<forall>uri r. mongoConnect env uri w = (r, w) \<longrightarrow> mongoConnect env uri w' = (r, w')) \<and>
     (\<forall>r. mongoFindOne env w = (r, w) \<longrightarrow> mongoFindOne env w' = (r, w')) \<and>
     (mongoDisconnect env w = w \<longrightarrow> mongoDisconnect env w' = w')"

text \<open>
  The status as a subresource: a write of it is accepted when it is about the resource as it was last read, it changes
  the status of that resource and nothing else, and only the clock has gone on.
\<close>

definition statusSubresource :: "'w kube \<Rightarrow> string \<Rightarrow> string \<Rightarrow> bool" where
  "statusSubresource env ns name \<longleftrightarrow>
     (\<forall>w read c. kGetCR env ns name w = (Inr read, w) \<and> cr_ObjectMeta c = cr_ObjectMeta read \<longrightarrow>
        (\<exists>c' w'. kUpdateStatus env c (snd (timeNow env w)) = (Inr c', w') \<and>
           kGetCR env ns name w' = (Inr (read\<lparr>cr_Status := cr_Status c\<rparr>), w') \<and> answersAlike env w w'))"

lemma upToDate_alike: "answersAlike env w w' \<Longrightarrow> upToDate env C cr w x \<Longrightarrow> upToDate env C cr w' x"
  unfolding upToDate_def answersAlike_def by blast

lemma list_upToDate_alike: "answersAlike env w w' \<Longrightarrow> list_all (upToDate env C cr w) xs \<Longrightarrow> list_all (upToDate env C cr w') xs"
  by (auto simp: list_all_iff intro: upToDate_alike)

lemma quietDatabase_alike: "answersAlike env w w' \<Longrightarrow> quietDatabase env cr w \<Longrightarrow> quietDatabase env cr w'"
  unfolding quietDatabase_def answersAlike_def by blast

lemma deployedAsIs_alike:
  "answersAlike env w w' \<Longrightarrow> deployedAsIs env cr w mongo management coreFiles csiFiles \<Longrightarrow>
   deployedAsIs env cr w' mongo management coreFiles csiFiles"
  unfolding deployedAsIs_def by (simp add: list_upToDate_alike quietDatabase_alike)

section \<open>One cycle after another\<close>

fun repeatReconcile :: "'w kube \<Rightarrow> string \<Rightarrow> string \<Rightarrow> nat \<Rightarrow> 'w st \<Rightarrow> ((ctrl_result \<times> goerr option) list \<times> 'w st) option" where
  "repeatReconcile env ns name 0 s = Some ([], s)"
| "repeatReconcile env ns name (Suc n) s = do {
     (r, s) \<leftarrow> Reconcile env ns name s;
     (rs, s) \<leftarrow> repeatReconcile env ns name n s;
     Some (r # rs, s)
   }"

lemma cycle_keeps_rest:
  assumes env: "ownerRefOnly env" "retries (retryDefaultRetry env)" "refersByMeta env" "statusSubresource env ns name"
    and "watchers s = []" and rest: "atRest env ns name mongo management coreFiles csiFiles read (world s)"
    and cr: "cr = initializeEmptyFieldsOnCustomResource env read"
  obtains now w where "Reconcile env ns name s = Some ((DoNotRequeue, None),
      s\<lparr>world := w, reqs := reqs s @ cycleRequests env ns name mongo management coreFiles csiFiles cr @ [ReqUpdateStatus (succeeded now cr)],
        reconcileCycles := reconcileCycles s + 1\<rparr>)"
    and "atRest env ns name mongo management coreFiles csiFiles (read\<lparr>cr_Status := cr_Status (succeeded now cr)\<rparr>) w"
proof -
  obtain now v where now: "timeNow env (world s) = (now, v)" by (metis surj_pair)
  let ?c = "succeeded now cr"
  from rest have r: "kGetCR env ns name (world s) = (Inr read, world s)" "nothingPending cr"
    "list_all (upToDate env nilComponent cr (world s)) (accountObjects cr)" "deployedAsIs env cr (world s) mongo management coreFiles csiFiles"
    by (simp_all add: atRest_def cr Let_def)
  have "cr_ObjectMeta ?c = cr_ObjectMeta read" by (simp add: cr initializeEmptyFieldsOnCustomResource_def Let_def)
  with env(4) r(1) now obtain c' w where u: "kUpdateStatus env ?c v = (Inr c', w)"
    and got: "kGetCR env ns name w = (Inr (read\<lparr>cr_Status := cr_Status ?c\<rparr>), w)" and same: "answersAlike env (world s) w"
    unfolding statusSubresource_def by (metis snd_conv)
  have "nothingPending (cr\<lparr>cr_Status := cr_Status ?c\<rparr>)"
    by (rule nothingPending_status [OF r(2)]) (use r(2) in \<open>simp add: nothingPending_def\<close>)
  moreover have "list_all (upToDate env nilComponent (cr\<lparr>cr_Status := cr_Status ?c\<rparr>) w) (accountObjects cr)"
    using list_upToDate_alike [OF same r(3)] by (simp only: list_all_iff upToDate_nil_status [OF env(3)])
  moreover have "deployedAsIs env (cr\<lparr>cr_Status := cr_Status ?c\<rparr>) w mongo management coreFiles csiFiles"
    using deployedAsIs_alike [OF same r(4)] by (simp only: deployedAsIs_status [OF env(3)])
  ultimately have "atRest env ns name mongo management coreFiles csiFiles (read\<lparr>cr_Status := cr_Status ?c\<rparr>) w"
    by (simp only: atRest_def got fields_status cr [symmetric] requests_status Let_def simp_thms)
  with cycle_run [OF env(1,2) assms(5) rest cr now u] show thesis by (rule that)
qed

text \<open>Once the status says so, nothing changes any more.\<close>

lemma settled:
  assumes env: "ownerRefOnly env" "retries (retryDefaultRetry env)" "refersByMeta env" "statusSubresource env ns name"
    and c: "\<And>now. succeeded now c = c"
  shows "atRest env ns name mongo management coreFiles csiFiles read (world s) \<Longrightarrow>
    initializeEmptyFieldsOnCustomResource env read = c \<Longrightarrow> watchers s = [] \<Longrightarrow>
    \<exists>read' s'. repeatReconcile env ns name n s = Some (replicate n (DoNotRequeue, None), s') \<and>
      reqs s' = reqs s @ concat (replicate n (cycleRequests env ns name mongo management coreFiles csiFiles c @ [ReqUpdateStatus c])) \<and>
      atRest env ns name mongo management coreFiles csiFiles read' (world s')"
proof (induction n arbitrary: read s)
  case 0
  then show ?case by auto
next
  case (Suc n)
  from cycle_keeps_rest [OF env Suc.prems(3,1) Suc.prems(2) [symmetric]] obtain now w
    where r: "Reconcile env ns name s = Some ((DoNotRequeue, None), s\<lparr>world := w,
        reqs := reqs s @ cycleRequests env ns name mongo management coreFiles csiFiles c @ [ReqUpdateStatus (succeeded now c)],
        reconcileCycles := reconcileCycles s + 1\<rparr>)" (is "_ = Some (_, ?t)")
      and rest: "atRest env ns name mongo management coreFiles csiFiles (read\<lparr>cr_Status := cr_Status (succeeded now c)\<rparr>) w" .
  have "initializeEmptyFieldsOnCustomResource env (read\<lparr>cr_Status := cr_Status (succeeded now c)\<rparr>) = c"
    by (simp add: fields_status Suc.prems(2) c)
  from Suc.IH [OF _ this, of ?t] rest Suc.prems(3) r c show ?case by auto
qed

section \<open>Property\<close>


section \<open>Witness\<close>

text \<open>A resource with the finalizer, and the server after it was deployed.\<close>

definition restCR :: nvmesh where
  "restCR = updFinalizers (\<lambda>_. [clusterFinalizerName]) (initializeEmptyFieldsOnCustomResource deployKube sampleCR)"

definition restObj :: "kobj \<Rightarrow> kobj" where
  "restObj x = snd (kSetControllerReference deployKube restCR (addOperatorLabels restCR (setNamespace (crNamespace restCR) x)))"

definition restMem :: mem where
  "restMem = deployMem\<lparr>m_cr := Some restCR, m_objs := map restObj (sampleObj # accountObjects restCR)\<rparr>"

lemma rest_found:
  "list_all (\<lambda>x. memGet (kindOf x) (getNamespaceForObject restCR (kindOf x)) (nameOf x) restMem = (Inr (restObj x), restMem)) (sampleObj # accountObjects restCR)"
  by code_simp

lemma rest_facts: "initializeEmptyFieldsOnCustomResource deployKube restCR = restCR" "nothingPending restCR"
  by code_simp+

lemma rest_upToDate:
  assumes "x \<in> set (sampleObj # accountObjects restCR)"
    and "InitObject C restCR (addOperatorLabels restCR (setNamespace (crNamespace restCR) x)) =
      Some (None, addOperatorLabels restCR (setNamespace (crNamespace restCR) x))"
  shows "upToDate deployKube C restCR restMem x"
  using rest_found assms unfolding list_all_iff upToDate_def
  by (intro exI [of _ "addOperatorLabels restCR (setNamespace (crNamespace restCR) x)"] conjI) (simp_all only: deployKube_simps restObj_def)

lemma rest_clean: "cleanAssets deployKube [(f, ''sa'')]"
proof -
  have "go_split yamlSeparator ''sa'' = [''sa'']" by code_simp
  then show ?thesis by (simp add: cleanAssets_def sampleDec_def)
qed

lemma rest_quiet: "quietDatabase deployKube restCR restMem"
  unfolding quietDatabase_def
proof (intro conjI exI [of _ False] exI [of _ errNotFound])
  show "kDelete deployKube (Job (jobNamed (crNamespace restCR) mgmtInitDbJobName)) restMem = (Some errNotFound, restMem)"
    unfolding deployKube_simps by code_simp
  show "mongoFindOne deployKube restMem = (Inr \<lparr>hs_AutoEvictMissingDrive = \<not> mgmt_DisableAutoEvictMissingDrives (mgmt restCR),
      hs_AutoFormatDrive = \<not> mgmt_DisableAutoFormatDrives (mgmt restCR), hs_IsElectDisabled = False\<rparr>, restMem)"
    by code_simp
qed (simp_all add: deployKube_def memKube_def restMem_def deployMem_def sampleMem_def emptyMem_def)

lemma rest_deployed:
  "deployedAsIs deployKube restCR restMem [(''f'', ''sa'')] [(''f'', ''sa'')] [(''f'', ''sa'')] [(''f'', ''sa'')]"
proof -
  have init: "InitObject (mgmtComponent deployKube) restCR x = Some (None, x)" "InitObject coreComponent restCR x = Some (None, x)"
    "InitObject csiComponent restCR x = Some (None, x)" if "x = addOperatorLabels restCR (setNamespace (crNamespace restCR) sampleObj)" for x
    by (simp_all add: that mgmtComponent_def coreComponent_def csiComponent_def mgmtInitObject_def coreInitObject_def csiInitObject_def
        sampleObj_def setNamespace_def addOperatorLabels_def Let_def setLabels_def)
  then have "upToDate deployKube (mgmtComponent deployKube) restCR restMem sampleObj"
    "upToDate deployKube coreComponent restCR restMem sampleObj" "upToDate deployKube csiComponent restCR restMem sampleObj"
    by (intro rest_upToDate; simp)+
  then show ?thesis
    using rest_clean rest_quiet deployKube_assets by (simp add: deployedAsIs_def objectsOf_append deploy_objects)
qed

lemma rest_env: "retries (retryDefaultRetry deployKube)" "refersByMeta deployKube"
  by (auto simp: deployKube_def memKube_def retries_attempts refersByMeta_def crName_def fun_eq_iff)

lemma rest_status: "statusSubresource deployKube ns name"
proof -
  have "answersAlike deployKube w (w\<lparr>m_clock := t, m_cr := r\<rparr>)" for w t r
    unfolding answersAlike_def deployKube_simps
    by (auto simp: deployKube_def memKube_def memGet_def memDelete_def memHas_def split: option.splits)
  then show ?thesis
    unfolding statusSubresource_def
    by (auto simp: deployKube_def memKube_def memUpdateStatus_def split: option.splits)
qed

lemma rest_atRest:
  "atRest deployKube ''ns'' ''cluster'' [(''f'', ''sa'')] [(''f'', ''sa'')] [(''f'', ''sa'')] [(''f'', ''sa'')] restCR restMem"
proof -
  have "list_all (upToDate deployKube nilComponent restCR restMem) (accountObjects restCR)"
    unfolding list_all_iff by (intro ballI rest_upToDate) (simp_all add: nilComponent_def)
  moreover have "kGetCR deployKube ''ns'' ''cluster'' restMem = (Inr restCR, restMem)"
    by (simp add: deployKube_def memKube_def restMem_def)
  ultimately show ?thesis by (simp only: atRest_def rest_facts rest_deployed Let_def simp_thms)
qed


end
