(* ===== verification/Teardown.thy ===== *)
theory Teardown
  imports Finalizer
begin

text \<open>
  The deletion of a cluster over many cycles (controllers/finalizer.go with uninstall.go): what Uninstall and
  Finalizer say of one cycle, put together under a fairness hypothesis on the cluster, that the work of a stage
  that is tried again succeeds within a number of cycles.
\<close>

section \<open>A stage that succeeds is left\<close>

text \<open>The work of a stage, done on the resource as it is but for the statuses of its actions, asks for no other cycle.\<close>

definition stageSucceeds :: "'w kube \<Rightarrow> uninstall_stage \<Rightarrow> nvmesh \<Rightarrow> 'w st \<Rightarrow> bool" where
  "stageSucceeds env stage cr s \<longleftrightarrow>
     (\<forall>c. sameButActions cr c \<longrightarrow> (\<exists>result t. runStage env stage c s = Some ((result, None), t) \<and> \<not> Requeue result))"

lemma stageSucceeds_same: "sameButActions cr c \<Longrightarrow> stageSucceeds env stage cr s \<Longrightarrow> stageSucceeds env stage c s"
  unfolding stageSucceeds_def using sameButActions_trans by blast

lemma stageRun_le: "stageRun n cr s r cr' s' m \<Longrightarrow> n \<le> m"
  by (simp add: stageRun_def)

lemma runStages_progress:
  assumes "allStages = pre @ stages" "stagesDone n cr" "length pre \<le> n" "n < 8" "stageSucceeds env (allStages ! n) cr s"
    and "runStages env stages cr s = Some ((r, cr'), s')"
  shows "\<exists>m>n. stageRun n cr s r cr' s' m"
  using assms
proof (induction stages arbitrary: pre cr)
  case Nil
  then have "8 \<le> length pre" using stageNames_simps(3) by simp
  with Nil.prems(3,4) show ?case by simp
next
  case (Cons stage stages)
  let ?k = "length pre"
  have k: "?k < 8" "allStages ! ?k = stage" using Cons.prems(3,4) unfolding Cons.prems(1) by simp_all
  have name: "stageName stage = stageNames ! ?k" using k by (simp add: stageNames_def)
  have pre: "allStages = (pre @ [stage]) @ stages" using Cons.prems(1) by simp
  let ?run = "\<lambda>cr s. do { ((result, err), s) \<leftarrow> runStage env stage cr s; Some (stageOutcome result err, s) }"
  have req: "grows (stageRequest (crNamespace cr) (allStages ! ?k)) t t'"
    if "?run c t = Some (o', t')" "sameButActions cr c" for c t t' o'
    using that k(2) by (auto simp: bind_eq_Some sameButActions_def crNamespace_def dest: stepsD [OF emits_runStage])
  from Cons.prems(6) have run: "runTask uninstallAction (stageName stage) ?run (runStages env stages) cr s = Some ((r, cr'), s')"
    by simp
  show ?case
  proof (cases rule: runTask_tasksDone [OF stageNames_simps(1) _ name Cons.prems(2) [unfolded stagesDone_def] Cons.prems(3) run])
    case 1
    then show ?case using k by simp
  next
    case (2 c)
    from Cons.IH [OF pre _ _ Cons.prems(4) stageSucceeds_same [OF 2(2) Cons.prems(5)] 2(4)] 2(1,3)
    obtain m where "m > n" "stageRun n c s r cr' s' m" by (auto simp: stagesDone_def)
    with 2(2) show ?thesis by (blast intro: stageRun_same)
  next
    case (3 c)
    with Cons.prems(5) k(2) obtain result t where "runStage env stage c s = Some ((result, None), t)" "\<not> Requeue result"
      unfolding stageSucceeds_def by blast
    with 3(4) show ?thesis by (simp add: stageOutcome_def)
  next
    case (4 c t c')
    from 4(5,6) runStages_counter [OF pre, of "Suc ?k" c' env t r cr' s'] obtain m where m: "stageRun (Suc ?k) c' t r cr' s' m"
      by (auto simp: stagesDone_def)
    from stageRun_next [OF 4(4) k(1) req [OF 4(3,2)] m] stageRun_le [OF m] show ?thesis unfolding 4(1)
      by (intro exI [of _ m]) simp
  qed
qed

section \<open>One cycle of a deletion\<close>

text \<open>The server answers a write of the status with the status written.\<close>

definition echoesStatus :: "'w kube \<Rightarrow> bool" where
  "echoesStatus env \<longleftrightarrow> (\<forall>c w c' w'. kUpdateStatus env c w = (Inr c', w') \<longrightarrow> cr_Status c' = cr_Status c)"

text \<open>A cycle on a resource that is being deleted, whose uninstallation is wanted and permitted; \<open>t\<close> is the state after the check.\<close>

definition deletionCycle :: "'w kube \<Rightarrow> nvmesh \<Rightarrow> 'w st \<Rightarrow> 'w st \<Rightarrow> nvmesh \<Rightarrow> 'w st \<Rightarrow> bool" where
  "deletionCycle env cr s t cr' s' \<longleftrightarrow>
     isBeingDeleted cr \<and> hasFinalizer cr clusterFinalizerName \<and> \<not> op_SkipUninstall (oper cr) \<and>
     isAllowedToDeleteCluster env cr s = Some (None, t) \<and> (\<exists>r. handleFinalizer env cr s = Some ((r, cr'), s'))"

text \<open>The cycle asks for the resource to be written without the finalizer.\<close>

definition asksRemoval :: "'w st \<Rightarrow> 'w st \<Rightarrow> bool" where
  "asksRemoval s s' \<longleftrightarrow>
     (\<exists>c new. reqs s' = reqs s @ new \<and> ReqUpdateCR c \<in> set new \<and> \<not> hasFinalizer c clusterFinalizerName \<and> allDisabled c)"

lemma stagesDone_cong: "st_ActionsStatus (cr_Status cr') = st_ActionsStatus (cr_Status cr) \<Longrightarrow> stagesDone n cr' = stagesDone n cr"
  by (simp add: stagesDone_def tasksDone_def finished_def taskStatus_def actionsStatus_def)

text \<open>What is left of the cycle once the stages were run, when they are not all finished and when they are.\<close>

lemma deletion_unfinished:
  assumes "isAllowedToDeleteCluster env cr s = Some (None, t)" "uninstallCluster env cr t = Some ((q, c), u)"
    and "Requeue (fst q) \<or> snd q \<noteq> None" and "echoesStatus env" and "doBeforeDeletingNVMesh env cr s = Some ((r, cr'), s')"
  shows "st_ActionsStatus (cr_Status cr') = st_ActionsStatus (cr_Status c)"
proof -
  have wrote: "cr_Status cr'' = cr_Status d" if "writeStatusOnce env d v = Some (cr'', v')" for d cr'' v v'
    using that assms(4) by (cases "kUpdateStatus env d (world v)")
      (auto simp: writeStatusOnce_def clientUpdateStatus_def apiCall_def echoesStatus_def split: sum.splits)
  have cond: "st_ActionsStatus (cr_Status cr'') = st_ActionsStatus (cr_Status d)" if "setCondition env new d v = Some (cr'', v')" for new d cr'' v v'
    using that by (auto simp: setCondition_def bind_case_prod_Some)
  show ?thesis
    using assms(1,2,3,5) by (cases q) (auto simp: doBeforeDeletingNVMesh_def bind_case_prod_Some split: if_splits dest!: wrote cond)
qed

lemma deletion_finished:
  assumes "isAllowedToDeleteCluster env cr s = Some (None, t)" "uninstallCluster env cr t = Some (((DoNotRequeue, None), c), u)"
    and "doBeforeDeletingNVMesh env cr s = Some ((r, cr'), s')" and "allDisabled c" and "reqs u = reqs s @ new"
  shows "asksRemoval s s'"
proof -
  let ?c = "updFinalizers (\<lambda>fs. removeString fs clusterFinalizerName) c"
  from assms(1-3) have "reqs s' = reqs u @ [ReqUpdateCR ?c]"
    by (auto simp: doBeforeDeletingNVMesh_def removeFinalizerAndUpdate_def writeCR_run bind_case_prod_Some DoNotRequeue_def)
  moreover have "\<not> hasFinalizer ?c clusterFinalizerName" "allDisabled ?c"
    using assms(4) by (simp_all add: hasFinalizer_def updFinalizers_def allDisabled_def)
  ultimately show ?thesis unfolding asksRemoval_def
    by (intro exI [of _ ?c] exI [of _ "new @ [ReqUpdateCR ?c]"]) (simp add: assms(5))
qed

lemma deletionCycle_step:
  assumes "deletionCycle env cr s t cr' s'" and "stagesDone n cr" and "echoesStatus env"
  shows "asksRemoval s s' \<or>
    (\<exists>m\<ge>n. m < 8 \<and> stagesDone m cr' \<and> (stageSucceeds env (allStages ! n) cr t \<longrightarrow> n < m))"
proof -
  from assms(1) obtain r where skip: "\<not> op_SkipUninstall (oper cr)" and a: "isAllowedToDeleteCluster env cr s = Some (None, t)"
    and run: "doBeforeDeletingNVMesh env cr s = Some ((r, cr'), s')"
    by (auto simp: deletionCycle_def handleFinalizer_def)
  from a run obtain q c u where un: "uninstallCluster env cr t = Some ((q, c), u)"
    by (auto simp: doBeforeDeletingNVMesh_def bind_case_prod_Some)
  have "\<exists>m\<ge>n. stageRun n cr t q c u m \<and> (n < 8 \<and> stageSucceeds env (allStages ! n) cr t \<longrightarrow> n < m)"
  proof (cases "n < 8 \<and> stageSucceeds env (allStages ! n) cr t")
    case True
    with runStages_progress [OF _ assms(2), of "[]" allStages env t q c u] un skip show ?thesis
      by (auto simp: uninstallCluster_def intro: less_imp_le)
  next
    case False
    from uninstallCluster_run [OF skip assms(2) un] obtain m where "stageRun n cr t q c u m" .
    with False stageRun_le [OF this] show ?thesis by blast
  qed
  then obtain m where m: "stageRun n cr t q c u m" "n \<le> m" "n < 8 \<and> stageSucceeds env (allStages ! n) cr t \<longrightarrow> n < m" by blast
  have "m \<le> 8" using m(1) by (simp add: stageRun_def stagesDone_def tasksDone_def)
  show ?thesis
  proof (cases "m = 8")
    case True
    have "grows isRead s t" by (rule stepsD [OF emits_isAllowedToDeleteCluster a])
    with m(1) obtain new where new: "reqs u = reqs s @ new" by (auto simp: stageRun_def grows_def)
    from m(1) have "m = 8 \<longrightarrow> q = (DoNotRequeue, None) \<and> allDisabled c" unfolding stageRun_def by presburger
    with True have q: "q = (DoNotRequeue, None)" "allDisabled c" by blast+
    from deletion_finished [OF a un [unfolded q(1)] run q(2) new] show ?thesis ..
  next
    case False
    with m(1) have "Requeue (fst q) \<or> snd q \<noteq> None" by (auto simp: stageRun_def)
    from stagesDone_cong [OF deletion_unfinished [OF a un this assms(3) run]] have "stagesDone m cr' = stagesDone m c" .
    moreover have "stagesDone m c" using m(1) unfolding stageRun_def by blast
    ultimately have "stagesDone m cr'" by blast
    with False m \<open>m \<le> 8\<close> show ?thesis by auto
  qed
qed

section \<open>All of them\<close>

text \<open>
  A deletion up to the write without the finalizer: each cycle is a \<open>deletionCycle\<close>, and finds the statuses of the
  actions as the one before left them.
\<close>

definition deletionRun ::
  "'w kube \<Rightarrow> (nat \<Rightarrow> nvmesh) \<Rightarrow> (nat \<Rightarrow> 'w st) \<Rightarrow> (nat \<Rightarrow> 'w st) \<Rightarrow> (nat \<Rightarrow> nvmesh) \<Rightarrow> (nat \<Rightarrow> 'w st) \<Rightarrow> bool" where
  "deletionRun env cr s t cr' s' \<longleftrightarrow>
     (\<forall>i. (\<forall>j<i. \<not> asksRemoval (s j) (s' j)) \<longrightarrow> deletionCycle env (cr i) (s i) (t i) (cr' i) (s' i)) \<and>
     (\<forall>i. (\<forall>j\<le>i. \<not> asksRemoval (s j) (s' j)) \<longrightarrow>
        st_ActionsStatus (cr_Status (cr (Suc i))) = st_ActionsStatus (cr_Status (cr' i)))"

lemma deletionRun_step:
  assumes "deletionRun env cr s t cr' s'" "echoesStatus env" "\<forall>j\<le>i. \<not> asksRemoval (s j) (s' j)" "stagesDone n (cr i)"
  shows "\<exists>m\<ge>n. m < 8 \<and> stagesDone m (cr (Suc i)) \<and> (stageSucceeds env (allStages ! n) (cr i) (t i) \<longrightarrow> n < m)"
proof -
  from assms(1,3) have "deletionCycle env (cr i) (s i) (t i) (cr' i) (s' i)"
    and "st_ActionsStatus (cr_Status (cr (Suc i))) = st_ActionsStatus (cr_Status (cr' i))"
    by (simp_all add: deletionRun_def)
  with deletionCycle_step [OF _ assms(4,2)] assms(3) show ?thesis by (metis order_refl stagesDone_cong)
qed

lemma deletionRun_later:
  assumes "deletionRun env cr s t cr' s'" "echoesStatus env" "\<forall>j<i + d. \<not> asksRemoval (s j) (s' j)" "stagesDone n (cr i)"
  shows "\<exists>m\<ge>n. stagesDone m (cr (i + d))"
  using assms(3)
proof (induction d)
  case 0
  with assms(4) show ?case by auto
next
  case (Suc d)
  then obtain m where m: "m \<ge> n" "stagesDone m (cr (i + d))" by auto
  from Suc.prems have "\<forall>j\<le>i + d. \<not> asksRemoval (s j) (s' j)" by simp
  from deletionRun_step [OF assms(1,2) this m(2)] m(1) show ?case by (metis add_Suc_right order_trans)
qed

text \<open>A stage is left within the number of cycles in which its work succeeds once.\<close>

lemma deletionRun_round:
  assumes "deletionRun env cr s t cr' s'" "echoesStatus env" "\<forall>j<i + K. \<not> asksRemoval (s j) (s' j)" "stagesDone n (cr i)"
    and "\<exists>j<K. stagesDone n (cr (i + j)) \<longrightarrow> stageSucceeds env (allStages ! n) (cr (i + j)) (t (i + j))"
  shows "\<exists>m>n. stagesDone m (cr (i + K))"
proof -
  from assms(5) obtain j where j: "j < K" "stagesDone n (cr (i + j)) \<longrightarrow> stageSucceeds env (allStages ! n) (cr (i + j)) (t (i + j))"
    by blast
  from assms(3) j(1) have "\<forall>x<i + j. \<not> asksRemoval (s x) (s' x)" by simp
  from deletionRun_later [OF assms(1,2) this assms(4)] obtain k where k: "k \<ge> n" "stagesDone k (cr (i + j))" by blast
  from assms(3) j(1) have "\<forall>x\<le>i + j. \<not> asksRemoval (s x) (s' x)" by auto
  from deletionRun_step [OF assms(1,2) this k(2)] k j(2) obtain m where m: "m > n" "stagesDone m (cr (Suc (i + j)))"
    by (metis le_neq_implies_less less_le_trans)
  have "i + K = Suc (i + j) + (K - Suc j)" using j(1) by simp
  with deletionRun_later [OF assms(1,2) _ m(2), of "K - Suc j"] assms(3) m(1) show ?thesis by (metis less_le_trans)
qed

lemma deletionRun_rounds:
  assumes "deletionRun env cr s t cr' s'" "echoesStatus env" "\<forall>j<k * K. \<not> asksRemoval (s j) (s' j)" "stagesDone n (cr 0)"
    and "\<And>i m. m < 8 \<Longrightarrow> stagesDone m (cr i) \<Longrightarrow>
      \<exists>j<K. stagesDone m (cr (i + j)) \<longrightarrow> stageSucceeds env (allStages ! m) (cr (i + j)) (t (i + j))"
  shows "n + k \<le> 8 \<longrightarrow> (\<exists>m\<ge>n + k. stagesDone m (cr (k * K)))"
  using assms(3)
proof (induction k)
  case 0
  with assms(4) show ?case by auto
next
  case (Suc k)
  show ?case
  proof
    assume le: "n + Suc k \<le> 8"
    from Suc.prems have "\<forall>j<k * K. \<not> asksRemoval (s j) (s' j)" by simp
    with Suc.IH le obtain m where m: "m \<ge> n + k" "stagesDone m (cr (k * K))" by auto
    have all: "\<forall>j<k * K + K. \<not> asksRemoval (s j) (s' j)" using Suc.prems by (simp add: add.commute)
    show "\<exists>m\<ge>n + Suc k. stagesDone m (cr (Suc k * K))"
    proof (cases "m < 8")
      case True
      from deletionRun_round [OF assms(1,2) all m(2) assms(5) [OF True m(2)]] m(1) show ?thesis
        by (metis Suc_leI add_Suc_right le_trans le_less_trans mult_Suc add.commute)
    next
      case False
      from deletionRun_later [OF assms(1,2) all m(2)] False le show ?thesis
        by (metis add.commute le_trans mult_Suc not_less)
    qed
  qed
qed

section \<open>Property\<close>

text \<open>C4: A deletion comes to its end. Take cycles of a resource that is being deleted, whose uninstallation is wanted and
  permitted, each with the task statuses the last one left, on a server that stores the status it is sent. If the work of the
  stage that is next succeeds at least once in any \<open>K\<close> cycles that try it, then within \<open>(8 - n) * K\<close> cycles from one in which
  \<open>n\<close> of the eight stages are finished the operator sends the resource without its finalizer, and with the
  three components disabled.\<close>

theorem deletion_completes:
  assumes "deletionRun env cr s t cr' s'" and "echoesStatus env" and "stagesDone n (cr 0)"
    and "\<And>i m. m < 8 \<Longrightarrow> stagesDone m (cr i) \<Longrightarrow>
      \<exists>j<K. stagesDone m (cr (i + j)) \<longrightarrow> stageSucceeds env (allStages ! m) (cr (i + j)) (t (i + j))"
  shows "\<exists>i\<le>(8 - n) * K. asksRemoval (s i) (s' i)"
proof (rule ccontr)
  assume "\<not> (\<exists>i\<le>(8 - n) * K. asksRemoval (s i) (s' i))"
  then have none: "\<forall>i\<le>(8 - n) * K. \<not> asksRemoval (s i) (s' i)" by blast
  have "n \<le> 8" using assms(3) by (simp add: stagesDone_def tasksDone_def)
  with none deletionRun_rounds [OF assms(1,2) _ assms(3,4), of "8 - n"] obtain m where "m \<ge> 8" "stagesDone m (cr ((8 - n) * K))"
    by (auto simp: less_imp_le)
  with deletionRun_step [OF assms(1,2) none] show False by (metis le_less_trans not_less)
qed

section \<open>Witness\<close>

text \<open>On a server without nodes and claims the last three stages take one cycle.\<close>

definition endsWithRemoval :: "'w st \<Rightarrow> bool" where
  "endsWithRemoval s \<longleftrightarrow> reqs s \<noteq> [] \<and>
     (case last (reqs s) of ReqUpdateCR c \<Rightarrow> \<not> hasFinalizer c clusterFinalizerName \<and> allDisabled c | _ \<Rightarrow> False)"

lemma sample_removal: "map_option (\<lambda>(_, s'). endsWithRemoval s') (handleFinalizer plainKube (deletedCR 5) (memState emptyMem)) = Some True"
  by code_simp

lemma endsWithRemoval_asks:
  assumes "endsWithRemoval s'" and "reqs s = []"
  shows "asksRemoval s s'"
proof -
  from assms(1) obtain c where c: "last (reqs s') = ReqUpdateCR c" "\<not> hasFinalizer c clusterFinalizerName" "allDisabled c"
    and "reqs s' \<noteq> []"
    unfolding endsWithRemoval_def by (cases "last (reqs s')") simp_all
  then have "ReqUpdateCR c \<in> set (reqs s')" by (metis last_in_set)
  with c assms(2) show ?thesis by (auto simp: asksRemoval_def)
qed

lemma sample_succeeds:
  assumes "world s = emptyMem" and "stagesDone m (deletedCR 5)" and "m < 8"
  shows "stageSucceeds plainKube (allStages ! m) (deletedCR 5) s"
proof -
  have "stagesDone 5 (deletedCR 5)"
    using afterStages_done(1) by (subst stagesDone_status [of _ "afterStages 5"]) (simp_all add: deletedCR_def)
  then have f: "finished uninstallAction (deletedCR 5) (stageNames ! i) \<longleftrightarrow> i < 5" if "i < 8" for i
    using that by (simp add: stagesDone_def tasksDone_def)
  moreover have "finished uninstallAction (deletedCR 5) (stageNames ! i) \<longleftrightarrow> i < m" if "i < 8" for i
    using assms(2) that by (simp add: stagesDone_def tasksDone_def)
  ultimately have same: "i < m \<longleftrightarrow> i < 5" if "i < 8" for i using that by blast
  have "m = 5" using same [of 5] same [of m] assms(3) by (simp add: not_less)
  then have "allStages ! m = UninstallClusterNodes" by (simp add: allStages_def eval_nat_numeral)
  with last_stages(1) [OF assms(1)] show ?thesis
    unfolding stageSucceeds_def by (metis DoNotRequeue_def ctrl_result.select_convs(1) runStage.simps(6))
qed

theorem deletion_completes_witness:
  "\<exists>r cr' s'. handleFinalizer plainKube (deletedCR 5) (memState emptyMem) = Some ((r, cr'), s') \<and> asksRemoval (memState emptyMem) s'"
proof -
  let ?s = "memState emptyMem" and ?t = "(memState emptyMem)\<lparr>reqs := [ReqList ''VolumeAttachment'', ReqList ''PersistentVolume'']\<rparr>"
  from sample_removal obtain r cr' s' where h: "handleFinalizer plainKube (deletedCR 5) ?s = Some ((r, cr'), s')"
    and ends: "endsWithRemoval s'" by auto
  have "asksRemoval ?s s'" by (rule endsWithRemoval_asks [OF ends]) (simp add: memState_def)
  moreover have "deletionCycle plainKube (deletedCR 5) ?s ?t cr' s'"
    using deletedCR_facts(1-3,5) h by (simp add: deletionCycle_def hasFinalizer_def)
  ultimately have run: "deletionRun plainKube (\<lambda>_. deletedCR 5) (\<lambda>_. ?s) (\<lambda>_. ?t) (\<lambda>_. cr') (\<lambda>_. s')"
    by (auto simp: deletionRun_def)
  have echo: "echoesStatus plainKube"
    by (auto simp: echoesStatus_def plainKube_def memUpdateCR_def split: option.splits)
  have five: "stagesDone 5 (deletedCR 5)"
    using afterStages_done(1) by (subst stagesDone_status [of _ "afterStages 5"]) (simp_all add: deletedCR_def)
  have "\<exists>i\<le>(8 - 5 :: nat) * 1. asksRemoval ?s s'"
    by (rule deletion_completes [OF run echo five]) (use sample_succeeds [of ?t] in \<open>simp add: memState_def\<close>)
  with h show ?thesis by blast
qed

end
