(* ===== verification/Startup.thy ===== *)
theory Startup
  imports Prelude
begin

text \<open>
  src/main.go, controllers/operator_options.go and \<open>NewEventManager\<close> of controllers/events.go: the
  command line, and what the process sets up before the manager runs. The flags are parsed as Go's
  package flag parses them, with its default \<open>ExitOnError\<close>; flags the linked libraries register in
  the same set are a parameter. The library calls of the set-up are a parameter too, each by the error
  it returns; what \<open>main\<close> does is the list of the calls it made and the way it ended.
\<close>

section \<open>The command line\<close>

record operator_options =
  IsOpenShift :: bool
  DefaultCoreImageTag :: string
  Development :: bool

text \<open>The variables the flags of \<open>main\<close> are bound to.\<close>

record flag_vars =
  metricsAddr :: string
  enableLeaderElection :: bool
  operatorOptions :: operator_options

text \<open>A flag of \<open>BoolVar\<close> or of \<open>StringVar\<close>, with the assignment to its variable.\<close>

datatype flag = BoolFlag "bool \<Rightarrow> flag_vars \<Rightarrow> flag_vars" | StringFlag "string \<Rightarrow> flag_vars \<Rightarrow> flag_vars"

definition mainFlags :: "(string \<times> flag) list" where
  "mainFlags =
    [(''metrics-addr'', StringFlag (\<lambda>v. metricsAddr_update (\<lambda>_. v))),
     (''enable-leader-election'', BoolFlag (\<lambda>v. enableLeaderElection_update (\<lambda>_. v))),
     (''openshift'', BoolFlag (\<lambda>v. operatorOptions_update (IsOpenShift_update (\<lambda>_. v)))),
     (''core-image-tag'', StringFlag (\<lambda>v. operatorOptions_update (DefaultCoreImageTag_update (\<lambda>_. v)))),
     (''development'', BoolFlag (\<lambda>v. operatorOptions_update (Development_update (\<lambda>_. v))))]"

definition defaultFlags :: flag_vars where
  "defaultFlags = \<lparr>metricsAddr = ''0'', enableLeaderElection = False,
     operatorOptions = \<lparr>IsOpenShift = False, DefaultCoreImageTag = ''tag-not-set'', Development = False\<rparr>\<rparr>"

text \<open>\<open>strconv.ParseBool\<close>\<close>

definition parseBool :: "string \<Rightarrow> bool option" where
  "parseBool s =
     (if s \<in> set [''1'', ''t'', ''T'', ''true'', ''TRUE'', ''True''] then Some True
      else if s \<in> set [''0'', ''f'', ''F'', ''false'', ''FALSE'', ''False''] then Some False
      else None)"

datatype parsed =
    Parsed flag_vars "string list"   \<comment> \<open>the variables, and the arguments left over\<close>
  | ParseError string
  | HelpRequested

text \<open>The name of a flag and, after an equals sign, its value.\<close>

definition splitFlag :: "string \<Rightarrow> string \<times> string option" where
  "splitFlag name =
     (takeWhile (\<lambda>c. c \<noteq> CHR ''='') name,
      case dropWhile (\<lambda>c. c \<noteq> CHR ''='') name of [] \<Rightarrow> None | _ # value \<Rightarrow> Some value)"

text \<open>
  A flag of another package in the same set: whether it goes without a value, and which values it takes.
\<close>

type_synonym lib_flags = "string \<Rightarrow> (bool \<times> (string \<Rightarrow> bool)) option"

text \<open>Whether the flag \<open>name\<close> is boolean, and what setting it does.\<close>

definition lookupFlag :: "lib_flags \<Rightarrow> string \<Rightarrow> (bool \<times> (string \<Rightarrow> flag_vars \<Rightarrow> flag_vars option)) option" where
  "lookupFlag lib name =
     (case map_of mainFlags name of
        Some (BoolFlag f) \<Rightarrow> Some (True, \<lambda>v vars. map_option (\<lambda>b. f b vars) (parseBool v))
      | Some (StringFlag f) \<Rightarrow> Some (False, \<lambda>v vars. Some (f v vars))
      | None \<Rightarrow> map_option (\<lambda>(isBool, accepts). (isBool, \<lambda>v vars. if accepts v then Some vars else None)) (lib name))"

text \<open>\<open>flag.Parse\<close>: one flag after the other, up to the first argument that is none.\<close>

fun parseFlags :: "lib_flags \<Rightarrow> flag_vars \<Rightarrow> string list \<Rightarrow> parsed" where
  "parseFlags lib vars [] = Parsed vars []"
| "parseFlags lib vars (s # args) =
     (if length s < 2 \<or> hd s \<noteq> CHR ''-'' then Parsed vars (s # args)
      else if s = ''--'' then Parsed vars args
      else let name = (if s ! 1 = CHR ''-'' then drop 2 s else drop 1 s) in
        if hd name = CHR ''-'' \<or> hd name = CHR ''='' then ParseError (''bad flag syntax: '' @ s)
        else let (name, value) = splitFlag name in
          case lookupFlag lib name of
            None \<Rightarrow>
              if name = ''help'' \<or> name = ''h'' then HelpRequested
              else ParseError (''flag provided but not defined: -'' @ name)
          | Some (isBool, setFlag) \<Rightarrow>
              if isBool \<or> value \<noteq> None then
                (case setFlag (case value of None \<Rightarrow> ''true'' | Some v \<Rightarrow> v) vars of
                   None \<Rightarrow> ParseError (''invalid value for flag -'' @ name)
                 | Some vars \<Rightarrow> parseFlags lib vars args)
              else
                (case args of
                   [] \<Rightarrow> ParseError (''flag needs an argument: -'' @ name)
                 | v # args \<Rightarrow>
                     (case setFlag v vars of
                        None \<Rightarrow> ParseError (''invalid value for flag -'' @ name)
                      | Some vars \<Rightarrow> parseFlags lib vars args)))"

section \<open>The set-up\<close>

record manager_options =
  mo_MetricsBindAddress :: string
  mo_Port :: int
  mo_LeaderElection :: bool
  mo_LeaderElectionID :: string

definition leaderElectionConfigMapName :: string where
  "leaderElectionConfigMapName = ''nvmesh-operator-leader-lock''"

text \<open>The calls into the libraries, in the order of the source.\<close>

datatype setup_call =
    AddClientGoScheme
  | AddNVMeshScheme
  | AddApiExtensions
  | GetConfig
  | NewManager manager_options
  | NewEventClient
  | NewDynamicClient
  | SetupController operator_options
  | NewNodeClient
  | RunNodeInformer
  | StartManager

text \<open>
  The error of each. \<open>RunNodeInformer\<close> is a \<open>go\<close> statement and has none.
\<close>

type_synonym setup_lib = "setup_call \<Rightarrow> goerr option"

datatype process_end = Exits nat | Panics | Returns

type_synonym process_run = "setup_call list \<times> process_end"

text \<open>A call whose error ends the process, before the rest.\<close>

definition orElse :: "process_end \<Rightarrow> setup_lib \<Rightarrow> setup_call \<Rightarrow> process_run \<Rightarrow> process_run" where
  "orElse how lib c rest =
     (case lib c of
        Some _ \<Rightarrow> ([c], how)
      | None \<Rightarrow> (case rest of (calls, e) \<Rightarrow> (c # calls, e)))"

text \<open>\<open>init\<close>, where \<open>utilruntime.Must\<close> panics on an error, before \<open>main\<close>\<close>

definition initSchemes :: "setup_lib \<Rightarrow> process_run \<Rightarrow> process_run" where
  "initSchemes lib rest = orElse Panics lib AddClientGoScheme (orElse Panics lib AddNVMeshScheme rest)"

definition addToScheme :: "setup_lib \<Rightarrow> process_run \<Rightarrow> process_run" where
  "addToScheme lib = orElse (Exits 1) lib AddApiExtensions"

text \<open>\<open>getEventRecorder\<close> fails where its client cannot be made; \<open>NewEventManager\<close> returns that error.\<close>

definition getEventRecorder :: "setup_lib \<Rightarrow> goerr option" where
  "getEventRecorder lib = lib NewEventClient"

definition NewEventManager :: "setup_lib \<Rightarrow> goerr option" where
  "NewEventManager lib = (case getEventRecorder lib of Some err \<Rightarrow> Some err | None \<Rightarrow> None)"

definition GetDynamicClientOrDie :: "setup_lib \<Rightarrow> process_run \<Rightarrow> process_run" where
  "GetDynamicClientOrDie lib = orElse (Exits 1) lib NewDynamicClient"

text \<open>
  \<open>ListenToNodeLabels\<close> starts the informer on the nodes at once, in a goroutine.
\<close>

definition ListenToNodeLabels :: "setup_lib \<Rightarrow> process_run \<Rightarrow> process_run" where
  "ListenToNodeLabels lib rest =
     orElse (Exits 1) lib NewNodeClient (case rest of (calls, e) \<Rightarrow> (RunNodeInformer # calls, e))"

definition managerOptions :: "flag_vars \<Rightarrow> manager_options" where
  "managerOptions vars = \<lparr>mo_MetricsBindAddress = metricsAddr vars, mo_Port = 9443,
     mo_LeaderElection = enableLeaderElection vars, mo_LeaderElectionID = leaderElectionConfigMapName\<rparr>"

definition mainBody :: "setup_lib \<Rightarrow> flag_vars \<Rightarrow> process_run" where
  "mainBody lib vars =
     addToScheme lib
       (orElse (Exits 1) lib GetConfig
         (orElse (Exits 1) lib (NewManager (managerOptions vars))
           (case NewEventManager lib of
              Some _ \<Rightarrow> ([NewEventClient], Exits 1)
            | None \<Rightarrow>
                (case GetDynamicClientOrDie lib
                        (orElse (Exits 1) lib (SetupController (operatorOptions vars))
                          (ListenToNodeLabels lib
                            (orElse (Exits 1) lib StartManager ([], Returns)))) of
                   (calls, e) \<Rightarrow> (NewEventClient # calls, e)))))"

text \<open>The whole process, started with the arguments \<open>args\<close>.\<close>

definition main :: "lib_flags \<Rightarrow> setup_lib \<Rightarrow> string list \<Rightarrow> process_run" where
  "main libFlags lib args =
     initSchemes lib
       (case parseFlags libFlags defaultFlags args of
          HelpRequested \<Rightarrow> ([], Exits 0)
        | ParseError _ \<Rightarrow> ([], Exits 2)
        | Parsed vars _ \<Rightarrow> mainBody lib vars)"

section \<open>Command lines\<close>

text \<open>A setting of a flag on the command line, with its value after an equals sign or as the next argument.\<close>

datatype setting = Joined string string | Apart string string

fun settingName :: "setting \<Rightarrow> string" where
  "settingName (Joined name v) = name"
| "settingName (Apart name v) = name"

fun renderSetting :: "setting \<Rightarrow> string list" where
  "renderSetting (Joined name v) = [''--'' @ name @ ''='' @ v]"
| "renderSetting (Apart name v) = [''--'' @ name, v]"

text \<open>What it does to the variables; a boolean flag takes no next argument.\<close>

fun applySetting :: "setting \<Rightarrow> flag_vars \<Rightarrow> flag_vars option" where
  "applySetting (Joined name v) vars =
     (case map_of mainFlags name of
        Some (BoolFlag f) \<Rightarrow> map_option (\<lambda>b. f b vars) (parseBool v)
      | Some (StringFlag f) \<Rightarrow> Some (f v vars)
      | None \<Rightarrow> None)"
| "applySetting (Apart name v) vars =
     (case map_of mainFlags name of Some (StringFlag f) \<Rightarrow> Some (f v vars) | _ \<Rightarrow> None)"

fun applySettings :: "setting list \<Rightarrow> flag_vars \<Rightarrow> flag_vars option" where
  "applySettings [] vars = Some vars"
| "applySettings (x # xs) vars = applySetting x vars \<bind> applySettings xs"

lemma mainFlags_names:
  "map_of mainFlags name = Some f \<Longrightarrow> name \<noteq> [] \<and> CHR ''='' \<notin> set name \<and> hd name \<noteq> CHR ''-''"
  by (auto simp: mainFlags_def split: if_splits)

lemma takeWhile_absent: "c \<notin> set xs \<Longrightarrow> takeWhile (\<lambda>x. x \<noteq> c) (xs @ c # ys) = xs"
  by (induction xs) auto

lemma dropWhile_absent: "c \<notin> set xs \<Longrightarrow> dropWhile (\<lambda>x. x \<noteq> c) (xs @ c # ys) = c # ys"
  by (induction xs) auto

lemma splitFlag_simps:
  "CHR ''='' \<notin> set name \<Longrightarrow> splitFlag (name @ CHR ''='' # v) = (name, Some v)"
  "CHR ''='' \<notin> set name \<Longrightarrow> splitFlag name = (name, None)"
proof -
  assume *: "CHR ''='' \<notin> set name"
  then show "splitFlag (name @ CHR ''='' # v) = (name, Some v)"
    by (simp add: splitFlag_def takeWhile_absent dropWhile_absent)
  from * have "\<forall>c\<in>set name. c \<noteq> CHR ''=''" by auto
  then have dt: "takeWhile (\<lambda>c. c \<noteq> CHR ''='') name = name" "dropWhile (\<lambda>c. c \<noteq> CHR ''='') name = []"
    by (simp_all add: takeWhile_eq_all_conv dropWhile_eq_Nil_conv)
  show "splitFlag name = (name, None)" unfolding splitFlag_def dt by simp
qed

lemma hd_not_eq: "name \<noteq> [] \<Longrightarrow> CHR ''='' \<notin> set name \<Longrightarrow> hd name \<noteq> CHR ''=''"
  by (cases name) auto

lemma parseFlags_setting:
  assumes "applySetting x vars = Some vars'"
  shows "parseFlags lib vars (renderSetting x @ args) = parseFlags lib vars' args"
proof (cases x)
  case (Joined name v)
  with assms obtain f where f: "map_of mainFlags name = Some f" by (auto split: option.splits)
  from mainFlags_names [OF f] assms Joined f hd_not_eq [of name] show ?thesis
    by (auto simp: splitFlag_simps lookupFlag_def split: flag.splits)
next
  case (Apart name v)
  with assms obtain f where f: "map_of mainFlags name = Some (StringFlag f)" by (auto split: option.splits flag.splits)
  from mainFlags_names [OF f] assms Apart f hd_not_eq [of name] show ?thesis
    by (auto simp: splitFlag_simps lookupFlag_def)
qed

lemma parseFlags_settings:
  "applySettings xs vars = Some vars' \<Longrightarrow>
   parseFlags lib vars (concat (map renderSetting xs) @ args) = parseFlags lib vars' args"
proof (induction xs arbitrary: vars)
  case Nil
  then show ?case by simp
next
  case (Cons x xs)
  then obtain v where "applySetting x vars = Some v" "applySettings xs v = Some vars'" by (auto simp: bind_eq_Some)
  with Cons.IH parseFlags_setting [of x vars v lib "concat (map renderSetting xs) @ args"] show ?case by simp
qed

text \<open>The command line that sets every variable.\<close>

definition settingsOf :: "flag_vars \<Rightarrow> setting list" where
  "settingsOf vars =
     [Apart ''metrics-addr'' (metricsAddr vars),
      Joined ''enable-leader-election'' (formatBool (enableLeaderElection vars)),
      Joined ''openshift'' (formatBool (IsOpenShift (operatorOptions vars))),
      Apart ''core-image-tag'' (DefaultCoreImageTag (operatorOptions vars)),
      Joined ''development'' (formatBool (Development (operatorOptions vars)))]"

definition commandLine :: "flag_vars \<Rightarrow> string list" where
  "commandLine vars = concat (map renderSetting (settingsOf vars))"

lemma parseBool_formatBool [simp]: "parseBool (formatBool b) = Some b"
  by (cases b) (simp_all add: parseBool_def formatBool_def)

section \<open>The calls in a row\<close>

definition setupOrder :: "flag_vars \<Rightarrow> setup_call list" where
  "setupOrder vars =
     [AddClientGoScheme, AddNVMeshScheme, AddApiExtensions, GetConfig, NewManager (managerOptions vars), NewEventClient,
      NewDynamicClient, SetupController (operatorOptions vars), NewNodeClient, RunNodeInformer, StartManager]"

definition succeeds :: "setup_lib \<Rightarrow> setup_call \<Rightarrow> bool" where
  "succeeds lib c \<longleftrightarrow> c = RunNodeInformer \<or> lib c = None"

definition failureEnd :: "setup_call \<Rightarrow> process_end" where
  "failureEnd c = (if c = AddClientGoScheme \<or> c = AddNVMeshScheme then Panics else Exits 1)"

fun runCalls :: "setup_lib \<Rightarrow> setup_call list \<Rightarrow> process_run" where
  "runCalls lib [] = ([], Returns)"
| "runCalls lib (c # cs) =
     (if succeeds lib c then (case runCalls lib cs of (calls, e) \<Rightarrow> (c # calls, e)) else ([c], failureEnd c))"

text \<open>What is called is the row up to the first failure.\<close>

lemma runCalls_prefix: "\<exists>rest. cs = fst (runCalls lib cs) @ rest"
  by (induction cs) (auto split: prod.splits)

lemma runCalls_Returns_iff: "snd (runCalls lib cs) = Returns \<longleftrightarrow> list_all (succeeds lib) cs"
  by (induction cs) (auto simp: failureEnd_def split: prod.splits)

section \<open>Properties\<close>

text \<open>C24: Every setting of the operator can be given on the command line: parsing the rendered flags from
  the defaults gives exactly the variables they were rendered from, whatever the strings are, and leaves
  no argument over.\<close>

theorem commandLine_roundtrip: "parseFlags lib defaultFlags (commandLine vars) = Parsed vars []"
proof -
  have "applySettings (settingsOf vars) defaultFlags = Some vars"
    by (simp add: settingsOf_def mainFlags_def defaultFlags_def)
  from parseFlags_settings [OF this, of lib "[]"] show ?thesis by (simp add: commandLine_def)
qed

text \<open>C23: Once the flags are parsed, the process makes its set-up calls in a fixed order and stops at the
  first that fails, with a panic for the two of \<open>init\<close> and status 1 for the others; it returns only after
  the manager has run. The node informer is started before the manager is.\<close>

theorem main_refines_calls:
  assumes "parseFlags libFlags defaultFlags args = Parsed vars rest"
  shows "main libFlags lib args = runCalls lib (setupOrder vars)"
  by (simp add: assms main_def initSchemes_def mainBody_def addToScheme_def GetDynamicClientOrDie_def NewEventManager_def
      getEventRecorder_def ListenToNodeLabels_def setupOrder_def orElse_def succeeds_def failureEnd_def split: option.split)

theorem main_refines_calls_witness:
  "main (\<lambda>_. None) (\<lambda>c. if c = StartManager then Some (ErrorString ''port in use'') else None)
     [''--enable-leader-election'', ''--core-image-tag'', ''0.8.0''] =
   (setupOrder (defaultFlags\<lparr>enableLeaderElection := True,
      operatorOptions := \<lparr>IsOpenShift = False, DefaultCoreImageTag = ''0.8.0'', Development = False\<rparr>\<rparr>), Exits 1)"
proof -
  have "parseFlags (\<lambda>_. None) defaultFlags [''--enable-leader-election'', ''--core-image-tag'', ''0.8.0''] =
    Parsed (defaultFlags\<lparr>enableLeaderElection := True,
      operatorOptions := \<lparr>IsOpenShift = False, DefaultCoreImageTag = ''0.8.0'', Development = False\<rparr>\<rparr>) []"
    by code_simp
  note main_refines_calls [OF this, of "\<lambda>c. if c = StartManager then Some (ErrorString ''port in use'') else None"]
  then show ?thesis by (simp add: setupOrder_def succeeds_def failureEnd_def)
qed

end
