(* ===== verification/NodeLabels.thy ===== *)
theory NodeLabels
  imports Uninstall
begin

text \<open>
  pkg/controllers/node_labels.go: the reaction to a change of a node's labels, and the goroutine it
  starts, which uninstalls the node and polls the job until it is finished. The poll is a
  \<open>partial_function\<close>: it need not end. \<open>polls\<close> counts the polls that did not end it.
\<close>

definition hasLabel :: "string \<Rightarrow> node \<Rightarrow> bool" where
  "hasLabel key n = (case om_labels (node_meta n) of None \<Rightarrow> False | Some ls \<Rightarrow> gomap_has ls key)"

text \<open>The node for which the goroutine is started, if it is.\<close>

definition onNodeUpdate :: "node \<Rightarrow> node \<Rightarrow> string option" where
  "onNodeUpdate oldNode newNode =
     (let clientInNew = hasLabel nvmeshClientLabelKey newNode;
          clientInOld = hasLabel nvmeshClientLabelKey oldNode;
          clientRemoved = (clientInOld \<and> \<not> clientInNew);
          targetInNew = hasLabel nvmeshTargetLabelKey newNode;
          targetInOld = hasLabel nvmeshTargetLabelKey oldNode;
          targetRemoved = (targetInOld \<and> \<not> targetInNew)
      in if \<not> targetInNew \<and> \<not> clientInNew \<and> (clientRemoved \<or> targetRemoved) then Some (nodeName newNode) else None)"

text \<open>\<open>&nvmeshv1.NVMesh{}\<close> with a name: no namespace, no registry, no image tag.\<close>

definition fakeCR :: nvmesh where
  "fakeCR = cr_ObjectMeta_update (crm_Name_update (\<lambda>_. ''uninstall-node-from-event'')) zeroNVMesh"

partial_function (option) waitUninstalled :: "'w kube \<Rightarrow> string \<Rightarrow> string \<Rightarrow> 'w st \<Rightarrow> (unit \<times> 'w st) option" where
  "waitUninstalled env namespace jobName s = do {
     ((result, err), s) \<leftarrow> waitForJobToFinishWithoutCR env namespace jobName False s;
     if \<not> Requeue result \<and> err = None then Some ((), s)
     else do {
       (_, s) \<leftarrow> localCall (unitCall (timeSleep env)) s;
       waitUninstalled env namespace jobName s
     }
   }"

definition eventJobName :: "string \<Rightarrow> string" where
  "eventJobName name = uninstallJobNamePrefix @ name"

definition uninstallAndWaitToFinish :: "'w kube \<Rightarrow> string \<Rightarrow> 'w st \<Rightarrow> (unit \<times> 'w st) option" where
  "uninstallAndWaitToFinish env name s = do {
     let namespace = ''default'';
     let jobName = eventJobName name;
     (_, s) \<leftarrow> uninstallNode env fakeCR name s;
     (_, s) \<leftarrow> waitUninstalled env namespace jobName s;
     (_, s) \<leftarrow> deleteJob env namespace jobName s;
     Some ((), s)
   }"

section \<open>Counting the polls\<close>

text \<open>The state after \<open>n\<close> polls none of which ended the loop.\<close>

fun polls :: "'w kube \<Rightarrow> string \<Rightarrow> string \<Rightarrow> nat \<Rightarrow> 'w st \<Rightarrow> 'w st option" where
  "polls env namespace jobName 0 s = Some s"
| "polls env namespace jobName (Suc n) s = do {
     ((result, err), s) \<leftarrow> waitForJobToFinishWithoutCR env namespace jobName False s;
     if \<not> Requeue result \<and> err = None then None
     else do {
       (_, s) \<leftarrow> localCall (unitCall (timeSleep env)) s;
       polls env namespace jobName n s
     }
   }"

definition pollsEnd :: "'w kube \<Rightarrow> string \<Rightarrow> string \<Rightarrow> 'w st \<Rightarrow> 'w st \<Rightarrow> bool" where
  "pollsEnd env namespace jobName s s' \<longleftrightarrow> (\<exists>n t result. polls env namespace jobName n s = Some t \<and>
     waitForJobToFinishWithoutCR env namespace jobName False t = Some ((result, None), s') \<and> \<not> Requeue result)"

lemma waitUninstalled_polls:
  assumes "waitUninstalled env namespace jobName s = Some r"
  shows "pollsEnd env namespace jobName s (snd r)"
proof (rule waitUninstalled.raw_induct [where P = "\<lambda>env namespace jobName s r. pollsEnd env namespace jobName s (snd r)", OF _ assms])
  fix f :: "'a kube \<Rightarrow> string \<Rightarrow> string \<Rightarrow> 'a st \<Rightarrow> (unit \<times> 'a st) option"
  fix env namespace jobName s r
  assume IH: "\<And>env namespace jobName s r. f env namespace jobName s = Some r \<Longrightarrow> pollsEnd env namespace jobName s (snd r)"
    and run: "do {
     ((result, err), s) \<leftarrow> waitForJobToFinishWithoutCR env namespace jobName False s;
     if \<not> Requeue result \<and> err = None then Some ((), s)
     else do {
       (_, s) \<leftarrow> localCall (unitCall (timeSleep env)) s;
       f env namespace jobName s
     }
   } = Some r"
  from run obtain result err t where w: "waitForJobToFinishWithoutCR env namespace jobName False s = Some ((result, err), t)"
    and rest: "(if \<not> Requeue result \<and> err = None then Some ((), t)
      else do { (_, s) \<leftarrow> localCall (unitCall (timeSleep env)) t; f env namespace jobName s }) = Some r"
    by (auto simp: bind_eq_Some)
  show "pollsEnd env namespace jobName s (snd r)"
  proof (cases "\<not> Requeue result \<and> err = None")
    case True
    with w rest show ?thesis unfolding pollsEnd_def by (intro exI [of _ 0]) auto
  next
    case False
    with rest obtain v where v: "localCall (unitCall (timeSleep env)) t = Some v" "f env namespace jobName (snd v) = Some r"
      by (auto simp: bind_eq_Some)
    from IH [OF v(2)] obtain n x q where "polls env namespace jobName n (snd v) = Some x"
      "waitForJobToFinishWithoutCR env namespace jobName False x = Some ((q, None), snd r)" "\<not> Requeue q"
      unfolding pollsEnd_def by blast
    with w v(1) False show ?thesis unfolding pollsEnd_def
      by (intro exI [of _ "Suc n"] exI [of _ x] exI [of _ q]) (cases v, auto)
  qed
qed

lemma polls_waitUninstalled:
  assumes "polls env namespace jobName n s = Some t"
    and "waitForJobToFinishWithoutCR env namespace jobName False t = Some ((result, None), s')" and "\<not> Requeue result"
  shows "waitUninstalled env namespace jobName s = Some ((), s')"
  using assms
proof (induction n arbitrary: s)
  case 0
  then show ?case by (subst waitUninstalled.simps) simp
next
  case (Suc n)
  from Suc.prems(1) obtain r err u where w: "waitForJobToFinishWithoutCR env namespace jobName False s = Some ((r, err), u)"
    "\<not> (\<not> Requeue r \<and> err = None)" and rest: "do { (_, s) \<leftarrow> localCall (unitCall (timeSleep env)) u; polls env namespace jobName n s } = Some t"
    by (auto simp: bind_eq_Some split: if_splits)
  from rest obtain v where v: "localCall (unitCall (timeSleep env)) u = Some v" "polls env namespace jobName n (snd v) = Some t"
    by (auto simp: bind_eq_Some)
  have "waitUninstalled env namespace jobName (snd v) = Some ((), s')" by (rule Suc.IH [OF v(2) Suc.prems(2,3)])
  with w v(1) show ?case by (subst waitUninstalled.simps) (cases v, auto)
qed

text \<open>A job that is never there keeps the loop going.\<close>

lemma polls_forever:
  assumes get: "\<And>w. J w \<Longrightarrow> \<exists>e w'. kGet env ''Job'' namespace jobName w = (Inl e, w') \<and> J w'"
    and sleep: "\<And>w. J w \<Longrightarrow> J (timeSleep env w)" and "J (world s)"
  shows "\<exists>t. polls env namespace jobName n s = Some t \<and> J (world t)"
  using assms(3)
proof (induction n arbitrary: s)
  case 0
  then show ?case by simp
next
  case (Suc n)
  from get [OF Suc.prems] obtain e w where g: "kGet env ''Job'' namespace jobName (world s) = (Inl e, w)" "J w" by blast
  let ?s = "s\<lparr>world := timeSleep env w, reqs := reqs s @ [ReqGet ''Job'' namespace jobName]\<rparr>"
  have "polls env namespace jobName (Suc n) s = polls env namespace jobName n ?s"
    using g(1) by (cases s) (simp add: waitForJobToFinishWithoutCR_def clientGet_def apiCall_def localCall_def unitCall_def)
  with Suc.IH [of ?s] sleep [OF g(2)] show ?case by simp
qed

lemma sanitize_dotted: "CHR ''.'' \<in> set name \<Longrightarrow> sanitizeString name \<noteq> name"
proof
  assume "CHR ''.'' \<in> set name" "sanitizeString name = name"
  moreover have "CHR ''.'' \<notin> set (sanitizeString name)"
    by (auto simp: sanitizeString_def go_replaceAll_char split: if_splits)
  ultimately show False by simp
qed

lemma eventJob_differs: "CHR ''.'' \<in> set name \<Longrightarrow> getUninstallJobName name \<noteq> eventJobName name"
  using sanitize_dotted by (simp add: getUninstallJobName_def eventJobName_def)

section \<open>Properties\<close>

text \<open>The uninstallation of a node is started exactly when the node was a client or a target before
  the change and is neither after it.\<close>

lemma onNodeUpdate_trigger:
  "onNodeUpdate oldNode newNode =
     (if (hasLabel nvmeshClientLabelKey oldNode \<or> hasLabel nvmeshTargetLabelKey oldNode) \<and>
         \<not> hasLabel nvmeshClientLabelKey newNode \<and> \<not> hasLabel nvmeshTargetLabelKey newNode
      then Some (nodeName newNode) else None)"
  by (auto simp: onNodeUpdate_def Let_def)

text \<open>C26: The poll for the uninstall job ends exactly when, after some number of polls that find the
  job unfinished or fail, one finds it complete; then it ends in the state that poll left.\<close>

theorem waitUninstalled_ends_iff:
  "waitUninstalled env namespace jobName s = Some ((), s') \<longleftrightarrow>
     (\<exists>n t result. polls env namespace jobName n s = Some t \<and>
        waitForJobToFinishWithoutCR env namespace jobName False t = Some ((result, None), s') \<and> \<not> Requeue result)"
  using waitUninstalled_polls [of env namespace jobName s "((), s')"] polls_waitUninstalled [of env namespace jobName _ s]
  unfolding pollsEnd_def by auto

text \<open>C25: For a node whose name has a dot the goroutine never ends: the job is created under the
  sanitized name and awaited under the raw one, so on a server that has no job of that name and gets
  none from anyone else every poll fails, and every failed poll leads to another one.\<close>

theorem uninstallAndWaitToFinish_never_ends:
  assumes "CHR ''.'' \<in> set name"
    and get: "\<And>w. J w \<Longrightarrow> \<exists>e w'. kGet env ''Job'' ''default'' (eventJobName name) w = (Inl e, w') \<and> J w'"
    and sleep: "\<And>w. J w \<Longrightarrow> J (timeSleep env w)"
    and create: "\<And>x w. J w \<Longrightarrow> nameOf x \<noteq> eventJobName name \<Longrightarrow> J (snd (kCreate env x w))"
    and "J (world s)"
  shows "uninstallAndWaitToFinish env name s = None \<and>
    (\<exists>err t. uninstallNode env fakeCR name s = Some (err, t) \<and> (\<forall>n. polls env ''default'' (eventJobName name) n t \<noteq> None))"
proof -
  obtain job err t where u: "uninstallNode env fakeCR name s = Some (err, t)"
    "reqs t = reqs s @ [ReqCreate (Job job)]" "om_name (j_meta job) = getUninstallJobName name" "world t = snd (kCreate env (Job job) (world s))"
    using uninstallNode_creates by blast
  have "J (world t)"
    unfolding u(4) by (rule create [OF assms(5)]) (use u(3) eventJob_differs [OF assms(1)] in \<open>simp add: nameOf_def\<close>)
  then have forever: "\<exists>v. polls env ''default'' (eventJobName name) n t = Some v \<and> J (world v)" for n
    by (intro polls_forever [of J] get sleep)
  have "waitUninstalled env ''default'' (eventJobName name) t = None"
  proof (rule ccontr)
    assume "waitUninstalled env ''default'' (eventJobName name) t \<noteq> None"
    then obtain r where "waitUninstalled env ''default'' (eventJobName name) t = Some r" by blast
    from waitUninstalled_polls [OF this] obtain n v result where p: "polls env ''default'' (eventJobName name) n t = Some v"
      and w: "waitForJobToFinishWithoutCR env ''default'' (eventJobName name) False v = Some ((result, None), snd r)"
      unfolding pollsEnd_def by blast
    from forever [of n] p have "J (world v)" by simp
    from get [OF this] w show False by (auto simp: waitForJobToFinishWithoutCR_def clientGet_def apiCall_def)
  qed
  with u(1) forever show ?thesis by (auto simp: uninstallAndWaitToFinish_def Let_def)
qed

theorem uninstallAndWaitToFinish_never_ends_witness:
  "uninstallAndWaitToFinish plainKube ''node1.local'' (memState emptyMem) = None \<and>
   (\<exists>err t. uninstallNode plainKube fakeCR ''node1.local'' (memState emptyMem) = Some (err, t) \<and>
      (\<forall>n. polls plainKube ''default'' (eventJobName ''node1.local'') n t \<noteq> None))"
proof (rule uninstallAndWaitToFinish_never_ends [where J = "\<lambda>w. \<forall>x\<in>set (m_objs w). nameOf x \<noteq> eventJobName ''node1.local''"])
  show "CHR ''.'' \<in> set ''node1.local''" by simp
next
  fix w :: mem assume J: "\<forall>x\<in>set (m_objs w). nameOf x \<noteq> eventJobName ''node1.local''"
  then have "find (\<lambda>x. keyOf x = (''Job'', ''default'', eventJobName ''node1.local'')) (m_objs w) = None"
    by (auto simp: find_None_iff keyOf_def)
  with J show "\<exists>e w'. kGet plainKube ''Job'' ''default'' (eventJobName ''node1.local'') w = (Inl e, w') \<and>
      (\<forall>x\<in>set (m_objs w'). nameOf x \<noteq> eventJobName ''node1.local'')"
    by (simp add: plainKube_def memGet_def)
  show "\<forall>x\<in>set (m_objs (timeSleep plainKube w)). nameOf x \<noteq> eventJobName ''node1.local''"
    using J by (simp add: plainKube_def)
  fix x assume "nameOf x \<noteq> eventJobName ''node1.local''"
  with J show "\<forall>x\<in>set (m_objs (snd (kCreate plainKube x w))). nameOf x \<noteq> eventJobName ''node1.local''"
    by (auto simp: plainKube_def memCreate_def)
qed (simp add: memState_def emptyMem_def)

end
