(* ===== verification/Process.thy ===== *)
theory Process
  imports Startup Reconciler NodeLabels
begin

text \<open>
  The operator as one process: \<open>SetupWithManager\<close> (controllers/nvmesh_controller.go), which declares
  the events that lead to a cycle, the callbacks of \<open>ListenToNodeLabels\<close> (controllers/node_labels.go),
  and the process they make up, a relation between states whose steps are the cycles of the controller,
  the steps of the goroutines started for nodes, the arrival of events, and whatever others do to the world.
  The goroutine of NodeLabels is cut here at its calls, and shown to be the function of NodeLabels when
  nothing runs beside it.
\<close>

section \<open>SetupWithManager\<close>

text \<open>What the reconciler declares to controller-runtime's builder.\<close>

datatype event_filter = GenerationChangedPredicate

record controller_builder =
  cb_For :: string
  cb_EventFilter :: "event_filter option"
  cb_Owns :: "string list"

definition SetupWithManager :: controller_builder where
  "SetupWithManager = \<lparr>cb_For = ''NVMesh'', cb_EventFilter = Some GenerationChangedPredicate,
     cb_Owns = [''StatefulSet'', ''Deployment'', ''DaemonSet'', ''Service'', ''ServiceAccount'', ''ConfigMap'', ''Secret'',
       ''Service'', ''ClusterRole'', ''ClusterRoleBinding'', ''Role'', ''RoleBinding'', ''CSIDriver'', ''StorageClass'']\<rparr>"

text \<open>An object as a watch delivers it, and the four kinds of events.\<close>

record watched =
  wo_kind :: string
  wo_meta :: obj_meta
  wo_generation :: int

datatype watch_event =
    CreateEvent watched
  | UpdateEvent watched watched   \<comment> \<open>old, new\<close>
  | DeleteEvent watched
  | GenericEvent watched

text \<open>
  controller-runtime turns an event into the namespaces and names to reconcile. Its documented behaviour
  for a builder of this form: an update that leaves the generation is dropped by
  \<open>GenerationChangedPredicate\<close>; the objects of the other events are looked at, one of the kind of
  \<open>For\<close> asks for itself and one of a kind of \<open>Owns\<close> asks for the NVMesh resource that controls it, in its
  own namespace.
\<close>

type_synonym watch_lib = "controller_builder \<Rightarrow> watch_event \<Rightarrow> (string \<times> string) list"

definition controlledBy :: "obj_meta \<Rightarrow> owner_reference option" where
  "controlledBy m = find (\<lambda>r. or_controller r = Some True) (om_ownerReferences m)"

definition isNVMeshRef :: "owner_reference \<Rightarrow> bool" where
  "isNVMeshRef r \<longleftrightarrow> or_kind r = ''NVMesh'' \<and> hd (go_split ''/'' (or_apiVersion r)) = ''nvmesh.excelero.com''"

definition wantedBy :: "controller_builder \<Rightarrow> watched \<Rightarrow> (string \<times> string) set" where
  "wantedBy b x =
     (if wo_kind x = cb_For b then {(om_namespace (wo_meta x), om_name (wo_meta x))} else {}) \<union>
     (if wo_kind x \<in> set (cb_Owns b) then
        (case controlledBy (wo_meta x) of
           Some r \<Rightarrow> if isNVMeshRef r then {(om_namespace (wo_meta x), or_name r)} else {}
         | None \<Rightarrow> {})
      else {})"

fun eventObjects :: "watch_event \<Rightarrow> watched list" where
  "eventObjects (CreateEvent x) = [x]"
| "eventObjects (UpdateEvent old new) = [old, new]"
| "eventObjects (DeleteEvent x) = [x]"
| "eventObjects (GenericEvent x) = [x]"

fun generationUnchanged :: "watch_event \<Rightarrow> bool" where
  "generationUnchanged (UpdateEvent old new) \<longleftrightarrow> wo_generation old = wo_generation new"
| "generationUnchanged _ \<longleftrightarrow> False"

definition documentedWatches :: "watch_lib \<Rightarrow> bool" where
  "documentedWatches lib \<longleftrightarrow> (\<forall>b ev. set (lib b ev) =
     (if cb_EventFilter b = Some GenerationChangedPredicate \<and> generationUnchanged ev then {}
      else \<Union> (wantedBy b ` set (eventObjects ev))))"

section \<open>ListenToNodeLabels\<close>

text \<open>
  What the informer reports. An informer that missed the deletion of a node delivers
  \<open>cache.DeletedFinalStateUnknown\<close> in place of the node.
\<close>

datatype node_event =
    NodeAdded node
  | NodeUpdated node node
  | NodeDeleted node
  | NodeDeletedUnknown string

text \<open>
  The callbacks: the nodes to start a goroutine for; \<open>None\<close> is the failed type assertion of \<open>DeleteFunc\<close>.
\<close>

fun nodeHandler :: "node_event \<Rightarrow> string list option" where
  "nodeHandler (NodeAdded n) = Some []"
| "nodeHandler (NodeUpdated oldNode newNode) =
     Some (case onNodeUpdate oldNode newNode of None \<Rightarrow> [] | Some name \<Rightarrow> [name])"
| "nodeHandler (NodeDeleted n) = Some []"
| "nodeHandler (NodeDeletedUnknown key) = None"

section \<open>The goroutine, call by call\<close>

text \<open>Where a goroutine of \<open>uninstallAndWaitToFinish\<close> stands.\<close>

datatype goroutine_pc = Creating | Polling | Sleeping | Deleting | Ended

type_synonym goroutine = "string \<times> goroutine_pc"

definition goroutineStep :: "'w kube \<Rightarrow> goroutine \<Rightarrow> 'w st \<Rightarrow> (goroutine \<times> 'w st) option" where
  "goroutineStep env g s =
     (case g of (name, pc) \<Rightarrow>
        case pc of
          Creating \<Rightarrow> do {
            (_, s) \<leftarrow> uninstallNode env fakeCR name s;
            Some ((name, Polling), s)
          }
        | Polling \<Rightarrow> do {
            ((result, err), s) \<leftarrow> waitForJobToFinishWithoutCR env ''default'' (eventJobName name) False s;
            Some ((name, if \<not> Requeue result \<and> err = None then Deleting else Sleeping), s)
          }
        | Sleeping \<Rightarrow> do {
            (_, s) \<leftarrow> localCall (unitCall (timeSleep env)) s;
            Some ((name, Polling), s)
          }
        | Deleting \<Rightarrow> do {
            (_, s) \<leftarrow> deleteJob env ''default'' (eventJobName name) s;
            Some ((name, Ended), s)
          }
        | Ended \<Rightarrow> Some ((name, Ended), s))"

text \<open>A goroutine with nothing beside it.\<close>

inductive goroutineRun :: "'w kube \<Rightarrow> goroutine \<times> 'w st \<Rightarrow> goroutine \<times> 'w st \<Rightarrow> bool" for env where
  here: "goroutineRun env c c"
| step: "snd g \<noteq> Ended \<Longrightarrow> goroutineStep env g s = Some c \<Longrightarrow> goroutineRun env c d \<Longrightarrow> goroutineRun env (g, s) d"

inductive_cases goroutineRunE: "goroutineRun env (g, s) d"
inductive_simps goroutineRun_Ended: "goroutineRun env ((name, Ended), s) d"

lemmas goroutineStep_simps =
  goroutineStep_def [of _ "(_, Creating)"] goroutineStep_def [of _ "(_, Polling)"]
  goroutineStep_def [of _ "(_, Sleeping)"] goroutineStep_def [of _ "(_, Deleting)"]

text \<open>From each point, to the end.\<close>

lemma run_Deleting:
  "goroutineRun env ((name, Deleting), s) ((name, Ended), s') \<longleftrightarrow>
     (\<exists>err. deleteJob env ''default'' (eventJobName name) s = Some (err, s'))"
proof
  assume "goroutineRun env ((name, Deleting), s) ((name, Ended), s')"
  then show "\<exists>err. deleteJob env ''default'' (eventJobName name) s = Some (err, s')"
    by (auto elim!: goroutineRunE [of env "(name, Deleting)"] simp: goroutineStep_simps bind_case_prod_Some goroutineRun_Ended)
next
  assume "\<exists>err. deleteJob env ''default'' (eventJobName name) s = Some (err, s')"
  then have "goroutineStep env (name, Deleting) s = Some ((name, Ended), s')"
    by (auto simp: goroutineStep_simps)
  then show "goroutineRun env ((name, Deleting), s) ((name, Ended), s')" by (auto intro: goroutineRun.intros)
qed

text \<open>A run that reaches the end passes through the end of the poll.\<close>

definition pollsThenDeletes :: "'w kube \<Rightarrow> string \<Rightarrow> 'w st \<Rightarrow> 'w st \<Rightarrow> bool" where
  "pollsThenDeletes env name s s' \<longleftrightarrow>
     (\<exists>t err. waitUninstalled env ''default'' (eventJobName name) s = Some ((), t) \<and>
        deleteJob env ''default'' (eventJobName name) t = Some (err, s'))"

lemma pollsThenDeletes_poll:
  assumes "waitForJobToFinishWithoutCR env ''default'' (eventJobName name) False s = Some ((result, err), t)"
  shows "pollsThenDeletes env name s s' \<longleftrightarrow>
    (if \<not> Requeue result \<and> err = None then \<exists>e. deleteJob env ''default'' (eventJobName name) t = Some (e, s')
     else \<exists>u. localCall (unitCall (timeSleep env)) t = Some ((), u) \<and> pollsThenDeletes env name u s')"
  using assms unfolding pollsThenDeletes_def
  by (subst waitUninstalled.simps) (auto simp: bind_case_prod_Some)

lemma goroutineRun_sound:
  assumes "goroutineRun env c d"
  shows "d = ((name, Ended), s') \<Longrightarrow> c = ((name, Polling), s) \<Longrightarrow> pollsThenDeletes env name s s'"
    and "d = ((name, Ended), s') \<Longrightarrow> c = ((name, Sleeping), s) \<Longrightarrow>
      \<exists>u. localCall (unitCall (timeSleep env)) s = Some ((), u) \<and> pollsThenDeletes env name u s'"
  using assms
proof (induction arbitrary: s)
  case (here c)
  { case 1 then show ?case by simp }
  { case 2 then show ?case by simp }
next
  case (step g t c d)
  { case 1
    then have g: "g = (name, Polling)" "s = t" by simp_all
    with step.hyps(2) obtain result err u
      where w: "waitForJobToFinishWithoutCR env ''default'' (eventJobName name) False s = Some ((result, err), u)"
        and c: "c = ((name, if \<not> Requeue result \<and> err = None then Deleting else Sleeping), u)"
      by (auto simp: goroutineStep_simps bind_case_prod_Some)
    show ?case
      using step.hyps(3) step.IH(2) [of u] c 1(1) run_Deleting [of env name u s']
      by (auto simp: pollsThenDeletes_poll [OF w] split: if_splits) }
  { case 2
    then have g: "g = (name, Sleeping)" "s = t" by simp_all
    with step.hyps(2) obtain u where "localCall (unitCall (timeSleep env)) s = Some ((), u)" "c = ((name, Polling), u)"
      by (auto simp: goroutineStep_simps bind_case_prod_Some)
    with step.IH(1) 2(1) show ?case by blast }
qed

lemma goroutineRun_polls:
  assumes "polls env ''default'' (eventJobName name) n s = Some t" and "goroutineRun env ((name, Polling), t) d"
  shows "goroutineRun env ((name, Polling), s) d"
  using assms
proof (induction n arbitrary: s)
  case 0
  then show ?case by simp
next
  case (Suc n)
  from Suc.prems(1) obtain result err u
    where w: "waitForJobToFinishWithoutCR env ''default'' (eventJobName name) False s = Some ((result, err), u)"
      and again: "\<not> (\<not> Requeue result \<and> err = None)"
      and rest: "do { (_, s) \<leftarrow> localCall (unitCall (timeSleep env)) u; polls env ''default'' (eventJobName name) n s } = Some t"
    by (auto simp: bind_case_prod_Some split: if_splits)
  from rest obtain v where v: "localCall (unitCall (timeSleep env)) u = Some ((), v)" "polls env ''default'' (eventJobName name) n v = Some t"
    by (auto simp: bind_case_prod_Some)
  from w again have 1: "goroutineStep env (name, Polling) s = Some ((name, Sleeping), u)"
    by (simp add: goroutineStep_simps split del: if_split) simp
  from v(1) have 2: "goroutineStep env (name, Sleeping) u = Some ((name, Polling), v)"
    by (simp add: goroutineStep_simps)
  show ?case
    by (rule goroutineRun.step [OF _ 1], simp, rule goroutineRun.step [OF _ 2], simp, rule Suc.IH [OF v(2) Suc.prems(2)])
qed

lemma goroutineRun_Polling: "goroutineRun env ((name, Polling), s) ((name, Ended), s') \<longleftrightarrow> pollsThenDeletes env name s s'"
proof
  assume "goroutineRun env ((name, Polling), s) ((name, Ended), s')"
  then show "pollsThenDeletes env name s s'" by (rule goroutineRun_sound(1) [OF _ refl refl])
next
  assume "pollsThenDeletes env name s s'"
  then obtain t err where w: "waitUninstalled env ''default'' (eventJobName name) s = Some ((), t)"
    and d: "deleteJob env ''default'' (eventJobName name) t = Some (err, s')" unfolding pollsThenDeletes_def by blast
  from waitUninstalled_polls [OF w] obtain n u result where p: "polls env ''default'' (eventJobName name) n s = Some u"
    and f: "waitForJobToFinishWithoutCR env ''default'' (eventJobName name) False u = Some ((result, None), t)" "\<not> Requeue result"
    unfolding pollsEnd_def by auto
  from f have 1: "goroutineStep env (name, Polling) u = Some ((name, Deleting), t)" by (simp add: goroutineStep_simps)
  from d have "goroutineRun env ((name, Deleting), t) ((name, Ended), s')" unfolding run_Deleting by blast
  then have "goroutineRun env ((name, Polling), u) ((name, Ended), s')"
    by (intro goroutineRun.step [OF _ 1]) simp_all
  with p show "goroutineRun env ((name, Polling), s) ((name, Ended), s')" by (rule goroutineRun_polls)
qed

section \<open>The process\<close>

text \<open>
  The state of the process: that of the operator, the requests waiting in the controller's queue (a set:
  the queue merges equal ones), whether the manager runs the controllers, the goroutines, and whether the process is still there.
\<close>

record 'w process =
  p_state :: "'w st"
  p_queue :: "(string \<times> string) list"
  p_controllers :: bool
  p_goroutines :: "goroutine list"
  p_alive :: bool

text \<open>
  A process whose \<open>main\<close> has come to the manager. With leader election the manager starts the
  controllers when it is elected, without it at once; the node informer runs in either case.
\<close>

definition startedProcess :: "flag_vars \<Rightarrow> 'w st \<Rightarrow> 'w process" where
  "startedProcess vars s = \<lparr>p_state = s, p_queue = [], p_controllers = \<not> mo_LeaderElection (managerOptions vars),
     p_goroutines = [], p_alive = True\<rparr>"

text \<open>controller-runtime asks again after an error and for a result that says so.\<close>

definition requeued :: "ctrl_result \<times> goerr option \<Rightarrow> bool" where
  "requeued r \<longleftrightarrow> snd r \<noteq> None \<or> Requeue (fst r) \<or> RequeueAfter (fst r) > 0"

inductive processStep :: "'w kube \<Rightarrow> watch_lib \<Rightarrow> 'w process \<Rightarrow> 'w process \<Rightarrow> bool" for env watches where
  nodes: "p_alive p \<Longrightarrow> nodeHandler ev = Some names \<Longrightarrow>
    processStep env watches p (p\<lparr>p_goroutines := p_goroutines p @ map (\<lambda>name. (name, Creating)) names\<rparr>)"
| nodesPanic: "p_alive p \<Longrightarrow> nodeHandler ev = None \<Longrightarrow> processStep env watches p (p\<lparr>p_alive := False\<rparr>)"
| elected: "p_alive p \<Longrightarrow> processStep env watches p (p\<lparr>p_controllers := True\<rparr>)"
| watch: "p_alive p \<Longrightarrow> p_controllers p \<Longrightarrow>
    processStep env watches p (p\<lparr>p_queue := List.union (watches SetupWithManager ev) (p_queue p)\<rparr>)"
| cycle: "p_alive p \<Longrightarrow> p_controllers p \<Longrightarrow> (ns, name) \<in> set (p_queue p) \<Longrightarrow>
    Reconcile env ns name (p_state p) = Some (r, s) \<Longrightarrow>
    processStep env watches p (p\<lparr>p_state := s,
      p_queue := (if requeued r then p_queue p else removeAll (ns, name) (p_queue p))\<rparr>)"
| cyclePanic: "p_alive p \<Longrightarrow> p_controllers p \<Longrightarrow> (ns, name) \<in> set (p_queue p) \<Longrightarrow>
    Reconcile env ns name (p_state p) = None \<Longrightarrow> processStep env watches p (p\<lparr>p_alive := False\<rparr>)"
| goroutine: "p_alive p \<Longrightarrow> i < length (p_goroutines p) \<Longrightarrow>
    goroutineStep env (p_goroutines p ! i) (p_state p) = Some (g, s) \<Longrightarrow>
    processStep env watches p (p\<lparr>p_state := s, p_goroutines := (p_goroutines p)[i := g]\<rparr>)"
| goroutinePanic: "p_alive p \<Longrightarrow> i < length (p_goroutines p) \<Longrightarrow>
    goroutineStep env (p_goroutines p ! i) (p_state p) = None \<Longrightarrow> processStep env watches p (p\<lparr>p_alive := False\<rparr>)"
| others: "processStep env watches p (p\<lparr>p_state := (p_state p)\<lparr>world := w\<rparr>\<rparr>)"

inductive processRun :: "'w kube \<Rightarrow> watch_lib \<Rightarrow> 'w process \<Rightarrow> 'w process \<Rightarrow> bool" for env watches p where
  start: "processRun env watches p p"
| step: "processRun env watches p q \<Longrightarrow> processStep env watches q r \<Longrightarrow> processRun env watches p r"

inductive_cases processStepE: "processStep env watches p q"

text \<open>What the goroutines ask for: that is what uninstalling the nodes of a cluster asks for.\<close>

definition nodeRequest :: "request \<Rightarrow> bool" where
  "nodeRequest q \<longleftrightarrow> stageRequest [] UninstallClusterNodes q"

lemma nodeRequest_intro:
  "isRead q \<Longrightarrow> nodeRequest q"
  "om_name (j_meta j) = getUninstallJobName name \<Longrightarrow> nodeRequest (ReqCreate (Job j))"
  "kindOf x \<in> {''Job'', ''Pod''} \<Longrightarrow> nodeRequest (ReqDelete x)"
  by (auto simp: nodeRequest_def getUninstallJobName_def)

lemma goroutineStep_emits:
  assumes "goroutineStep env g s = Some (g', s')"
  shows "grows nodeRequest s s'"
proof -
  obtain name pc where g: "g = (name, pc)" by (cases g)
  have create: "emits nodeRequest (uninstallNode env fakeCR name)"
    by (rule emits_uninstallNode) (rule nodeRequest_intro)
  have wait: "emits nodeRequest (waitForJobToFinishWithoutCR env ns j False)" for ns j
    by (intro steps_waitForJobToFinish allowsReads_grows preord_grows nodeRequest_intro)
  have sleep: "emits nodeRequest (localCall (unitCall (timeSleep env)))" by (rule emits_localCall)
  have del: "emits nodeRequest (deleteJob env ns j)" for ns j
    by (rule emits_deleteJob) (auto intro: nodeRequest_intro)
  show ?thesis using assms unfolding g
    by (cases pc) (auto simp: goroutineStep_def bind_case_prod_Some preord_refl
        dest: stepsD [OF create] stepsD [OF wait] stepsD [OF sleep] stepsD [OF del])
qed

text \<open>A step of the process, by who made it.\<close>

lemma processStep_cases:
  assumes "processStep env watches p q"
  obtains (quiet) "p_state q = p_state p"
    | (cycle) ns name r where "p_controllers p" "Reconcile env ns name (p_state p) = Some (r, p_state q)"
    | (goroutine) g g' where "goroutineStep env g (p_state p) = Some (g', p_state q)"
    | (others) w where "p_state q = (p_state p)\<lparr>world := w\<rparr>"
  using assms
proof cases
  case (cycle ns name r s)
  then show ?thesis by (intro that(2) [of ns name r]) simp_all
next
  case (goroutine i g s)
  then show ?thesis by (intro that(3) [of "p_goroutines p ! i" g]) simp_all
next
  case (others w)
  then show ?thesis by (intro that(4) [of w]) simp
qed (auto intro: that(1))

text \<open>
  What is kept by every cycle and every goroutine is kept by the process.
\<close>

lemma processRun_grows:
  assumes "processRun env watches p q"
    and cycle: "\<And>ns name s r s'. Reconcile env ns name s = Some (r, s') \<Longrightarrow> grows P s s'"
    and "\<And>q. nodeRequest q \<Longrightarrow> P q"
  shows "grows P (p_state p) (p_state q)"
  using assms(1)
proof induction
  case start
  show ?case by (rule preord_refl [OF preord_grows])
next
  case (step q r)
  from step.hyps(2) have "grows P (p_state q) (p_state r)"
  proof (cases rule: processStep_cases)
    case quiet
    then show ?thesis by (simp add: preord_refl)
  next
    case (cycle ns name res)
    then show ?thesis by (blast intro: assms(2))
  next
    case (goroutine g g')
    from goroutineStep_emits [OF this] show ?thesis by (rule grows_mono) (rule assms(3))
  next
    case (others w)
    then show ?thesis by (simp add: grows_def)
  qed
  with step.IH show ?case by (rule preord_trans [OF preord_grows])
qed

lemma processRun_controllers: "processRun env watches p q \<Longrightarrow> p_controllers p \<Longrightarrow> p_controllers q"
  by (induction rule: processRun.induct) (auto elim: processStepE)

text \<open>As long as the controllers do not run, the process is its goroutines.\<close>

lemma standby_run:
  assumes "processRun env watches p q" and "\<not> p_controllers q" and "p_queue p = []"
  shows "grows nodeRequest (p_state p) (p_state q) \<and> p_queue q = []"
  using assms(1,2)
proof induction
  case start
  show ?case using assms(3) by (simp add: preord_refl)
next
  case (step q r)
  have nq: "\<not> p_controllers q"
    using step.hyps(2) step.prems processRun_controllers [OF processRun.step [OF processRun.start]] by blast
  from step.hyps(2) have "grows nodeRequest (p_state q) (p_state r)"
  proof (cases rule: processStep_cases)
    case (goroutine g g')
    then show ?thesis by (rule goroutineStep_emits)
  qed (use nq in \<open>auto simp: grows_def preord_refl\<close>)
  moreover have "p_queue r = p_queue q" using step.hyps(2) nq by (auto elim: processStepE)
  ultimately show ?case using step.IH [OF nq] by (auto intro: preord_trans [OF preord_grows])
qed

text \<open>A goroutine that polls for a job nobody has keeps polling; so does the second of two for one node, after
  the first has deleted the job.\<close>

lemma poll_of_missing_job:
  assumes get: "\<And>w. J w \<Longrightarrow> \<exists>e w'. kGet env ''Job'' ''default'' (eventJobName name) w = (Inl e, w') \<and> J w'"
    and sleep: "\<And>w. J w \<Longrightarrow> J (timeSleep env w)" and "J (world s)"
  shows "\<not> goroutineRun env ((name, Polling), s) ((name, Ended), s')"
proof
  assume "goroutineRun env ((name, Polling), s) ((name, Ended), s')"
  then obtain t where "waitUninstalled env ''default'' (eventJobName name) s = Some ((), t)"
    unfolding goroutineRun_Polling pollsThenDeletes_def by blast
  from waitUninstalled_polls [OF this] obtain n v result where p: "polls env ''default'' (eventJobName name) n s = Some v"
    and w: "waitForJobToFinishWithoutCR env ''default'' (eventJobName name) False v = Some ((result, None), t)"
    unfolding pollsEnd_def by auto
  from polls_forever [of J, OF get sleep assms(3), of n] p have "J (world v)" by simp
  from get [OF this] w show False by (auto simp: waitForJobToFinishWithoutCR_def clientGet_def apiCall_def)
qed

section \<open>Properties\<close>


text \<open>C22: A change of an object leads to a cycle exactly when it changes the generation of the object and the
  object is the NVMesh resource, or one of the thirteen kinds that are watched and controlled by the resource.
  A change that leaves the generation, as every change of a ConfigMap, a Secret or a Service does on a
  server that keeps none for them, leads to no cycle.\<close>

theorem update_wanted_iff:
  assumes "documentedWatches watches"
  shows "(ns, name) \<in> set (watches SetupWithManager (UpdateEvent old new)) \<longleftrightarrow>
    wo_generation old \<noteq> wo_generation new \<and>
    (\<exists>x\<in>{old, new}. om_namespace (wo_meta x) = ns \<and>
       (wo_kind x = ''NVMesh'' \<and> om_name (wo_meta x) = name \<or>
        wo_kind x \<in> {''StatefulSet'', ''Deployment'', ''DaemonSet'', ''Service'', ''ServiceAccount'', ''ConfigMap'', ''Secret'',
          ''ClusterRole'', ''ClusterRoleBinding'', ''Role'', ''RoleBinding'', ''CSIDriver'', ''StorageClass''} \<and>
        (\<exists>r. controlledBy (wo_meta x) = Some r \<and> isNVMeshRef r \<and> or_name r = name)))"
proof -
  have "(ns, name) \<in> wantedBy SetupWithManager x \<longleftrightarrow> om_namespace (wo_meta x) = ns \<and>
     (wo_kind x = ''NVMesh'' \<and> om_name (wo_meta x) = name \<or>
      wo_kind x \<in> {''StatefulSet'', ''Deployment'', ''DaemonSet'', ''Service'', ''ServiceAccount'', ''ConfigMap'', ''Secret'',
          ''ClusterRole'', ''ClusterRoleBinding'', ''Role'', ''RoleBinding'', ''CSIDriver'', ''StorageClass''} \<and>
      (\<exists>r. controlledBy (wo_meta x) = Some r \<and> isNVMeshRef r \<and> or_name r = name))" for x
    unfolding wantedBy_def SetupWithManager_def by (auto split: option.splits if_splits)
  then show ?thesis
    using assms unfolding documentedWatches_def by (simp add: SetupWithManager_def)
qed

text \<open>C21: A replica that asked for leader election and has not been elected runs no cycle, but it is not idle:
  whatever happens, all it asks for is the uninstallation of nodes, and when the labels of a node are removed it does create the
  uninstall job of that node.\<close>

theorem standby_uninstalls_nodes:
  assumes "enableLeaderElection vars" and "onNodeUpdate oldNode newNode = Some name"
  shows "(\<forall>q. processRun env watches (startedProcess vars s) q \<and> \<not> p_controllers q \<longrightarrow> grows nodeRequest s (p_state q)) \<and>
    (\<exists>q job. processRun env watches (startedProcess vars s) q \<and> \<not> p_controllers q \<and>
       reqs (p_state q) = reqs s @ [ReqCreate (Job job)] \<and> om_name (j_meta job) = getUninstallJobName name \<and>
       ps_nodeName (pt_spec (j_template job)) = name)"
proof
  show "\<forall>q. processRun env watches (startedProcess vars s) q \<and> \<not> p_controllers q \<longrightarrow> grows nodeRequest s (p_state q)"
    using standby_run [of env watches "startedProcess vars s"] by (auto simp: startedProcess_def)
  let ?p = "startedProcess vars s" and ?q = "(startedProcess vars s)\<lparr>p_goroutines := [(name, Creating)]\<rparr>"
  have 1: "processStep env watches ?p ?q"
    using processStep.nodes [of ?p "NodeUpdated oldNode newNode" "[name]" env watches] assms(2)
    by (simp add: startedProcess_def)
  obtain job err t where u: "uninstallNode env fakeCR name s = Some (err, t)" "reqs t = reqs s @ [ReqCreate (Job job)]"
    "om_name (j_meta job) = getUninstallJobName name" "ps_nodeName (pt_spec (j_template job)) = name"
    using uninstallNode_creates [of env fakeCR name s] by blast
  from u(1) have g: "goroutineStep env (name, Creating) s = Some ((name, Polling), t)" by (simp add: goroutineStep_simps)
  have 2: "processStep env watches ?q (?q\<lparr>p_state := t, p_goroutines := [(name, Polling)]\<rparr>)"
    using processStep.goroutine [of ?q 0 env "(name, Polling)" t watches] g by (simp add: startedProcess_def)
  show "\<exists>q job. processRun env watches ?p q \<and> \<not> p_controllers q \<and> reqs (p_state q) = reqs s @ [ReqCreate (Job job)] \<and>
      om_name (j_meta job) = getUninstallJobName name \<and> ps_nodeName (pt_spec (j_template job)) = name"
    by (intro exI conjI, rule processRun.step [OF processRun.step [OF processRun.start 1] 2])
      (use u assms(1) in \<open>simp_all add: startedProcess_def managerOptions_def\<close>)
qed

section \<open>Witnesses\<close>

text \<open>A library that behaves as documented.\<close>

definition wantedList :: "controller_builder \<Rightarrow> watched \<Rightarrow> (string \<times> string) list" where
  "wantedList b x =
     (if wo_kind x = cb_For b then [(om_namespace (wo_meta x), om_name (wo_meta x))] else []) @
     (if wo_kind x \<in> set (cb_Owns b) then
        (case controlledBy (wo_meta x) of
           Some r \<Rightarrow> if isNVMeshRef r then [(om_namespace (wo_meta x), or_name r)] else []
         | None \<Rightarrow> [])
      else [])"

definition listWatches :: watch_lib where
  "listWatches b ev =
     (if cb_EventFilter b = Some GenerationChangedPredicate \<and> generationUnchanged ev then []
      else concat (map (wantedList b) (eventObjects ev)))"

lemma set_wantedList: "set (wantedList b x) = wantedBy b x"
  by (simp only: wantedList_def wantedBy_def set_append if_distrib [of set] option.case_distrib [of set] list.set)

lemma listWatches_documented: "documentedWatches listWatches"
  by (simp add: documentedWatches_def listWatches_def set_wantedList)

text \<open>An object the resource controls.\<close>

definition ownedObject :: "string \<Rightarrow> int \<Rightarrow> watched" where
  "ownedObject kind gen = \<lparr>wo_kind = kind,
     wo_meta = (newMeta ''conf'' ''ns'')\<lparr>om_ownerReferences := [\<lparr>or_apiVersion = ''nvmesh.excelero.com/v1'', or_kind = ''NVMesh'',
       or_name = ''cluster'', or_uid = ''u'', or_blockOwnerDeletion = Some True, or_controller = Some True\<rparr>]\<rparr>,
     wo_generation = gen\<rparr>"

theorem update_wanted_iff_witness:
  "(''ns'', ''cluster'') \<in> set (listWatches SetupWithManager (UpdateEvent (ownedObject ''DaemonSet'' 1) (ownedObject ''DaemonSet'' 2))) \<and>
   (''ns'', ''cluster'') \<notin> set (listWatches SetupWithManager (UpdateEvent (ownedObject ''ConfigMap'' 0) (ownedObject ''ConfigMap'' 0)))"
proof -
  have ref: "isNVMeshRef \<lparr>or_apiVersion = ''nvmesh.excelero.com/v1'', or_kind = ''NVMesh'',
       or_name = ''cluster'', or_uid = ''u'', or_blockOwnerDeletion = Some True, or_controller = Some True\<rparr>"
    by (simp add: isNVMeshRef_def)
  show ?thesis
    using update_wanted_iff [OF listWatches_documented, of "''ns''" "''cluster''" "ownedObject ''DaemonSet'' 1" "ownedObject ''DaemonSet'' 2"]
      update_wanted_iff [OF listWatches_documented, of "''ns''" "''cluster''" "ownedObject ''ConfigMap'' 0" "ownedObject ''ConfigMap'' 0"]
    by (simp add: ownedObject_def newMeta_def controlledBy_def ref)
qed

definition labelledNode :: "labels \<Rightarrow> node" where
  "labelledNode ls = \<lparr>node_meta = (newMeta ''node1'' '''')\<lparr>om_labels := Some ls\<rparr>\<rparr>"

theorem standby_uninstalls_nodes_witness:
  "\<exists>q job. processRun plainKube listWatches (startedProcess (defaultFlags\<lparr>enableLeaderElection := True\<rparr>) (memState emptyMem)) q \<and>
     \<not> p_controllers q \<and> reqs (p_state q) = [ReqCreate (Job job)] \<and> om_name (j_meta job) = ''n-uninstall-node1''"
proof -
  have up: "onNodeUpdate (labelledNode [(nvmeshClientLabelKey, '''')]) (labelledNode []) = Some ''node1''"
    by (simp add: onNodeUpdate_def hasLabel_def labelledNode_def newMeta_def nodeName_def gomap_has_def
        nvmeshClientLabelKey_def nvmeshTargetLabelKey_def)
  have name: "getUninstallJobName ''node1'' = ''n-uninstall-node1''" by code_simp
  have "enableLeaderElection (defaultFlags\<lparr>enableLeaderElection := True\<rparr>)" by simp
  from standby_uninstalls_nodes [OF this up, of plainKube listWatches "memState emptyMem"] show ?thesis
    by (simp add: name memState_def) blast
qed

end
