(* ===== verification/DynamicClient.thy ===== *)
theory DynamicClient
  imports CtrlUtils
begin

text \<open>
  The part of pkg/controllers/ctrl_utils.go and pkg/yamlutils/yamlutils.go that handles objects of kinds
  the operator has no Go type for, through client-go's dynamic client: custom resources whose definition
  may not be installed. No code of the repository calls its entry point \<open>reconcileUnstructuredObjects\<close>;
  the watches it would open are those \<open>stopAllUnstructuredWatchers\<close> stops. The dynamic client, the
  discovery of resources and the decoder are the fields of the record \<open>dynamic\<close>. The goroutine that drains a
  watch only logs and is left out.
\<close>

text \<open>An \<open>unstructured.Unstructured\<close>: its metadata, and the rest of its fields as they were read.\<close>

record unstructured =
  un_meta :: obj_meta
  un_rest :: string

record group_version_kind =
  gvk_GroupVersion :: string
  gvk_Kind :: string

record 'w dynamic =
  dDecode :: "string \<Rightarrow> goerr + unstructured \<times> group_version_kind"
  dFindGVR :: "group_version_kind \<Rightarrow> 'w \<Rightarrow> (goerr + string) \<times> 'w"
  dWatch :: "string \<Rightarrow> string \<Rightarrow> string \<Rightarrow> 'w \<Rightarrow> (goerr + nat) \<times> 'w"
  dGet :: "string \<Rightarrow> string \<Rightarrow> string \<Rightarrow> 'w \<Rightarrow> goerr option \<times> 'w"
  dCreate :: "string \<Rightarrow> string \<Rightarrow> unstructured \<Rightarrow> 'w \<Rightarrow> goerr option \<times> 'w"
  dDelete :: "string \<Rightarrow> string \<Rightarrow> string \<Rightarrow> 'w \<Rightarrow> goerr option \<times> 'w"
  dEncode :: "unstructured \<Rightarrow> string"

section \<open>The code\<close>

definition UnstructuredToString :: "'w dynamic \<Rightarrow> unstructured \<Rightarrow> string" where
  "UnstructuredToString dyn obj = dEncode dyn obj"

text \<open>A file that cannot be read panics.\<close>

definition YamlFileToUnstructured ::
  "'w kube \<Rightarrow> 'w dynamic \<Rightarrow> string \<Rightarrow> 'w st \<Rightarrow> ((goerr + unstructured \<times> group_version_kind) \<times> 'w st) option" where
  "YamlFileToUnstructured env dyn filename s = do {
     (r, s) \<leftarrow> YamlFileToString env filename s;
     case r of
       Inl err \<Rightarrow> None
     | Inr yamlString \<Rightarrow>
         (case dDecode dyn yamlString of
            Inl err \<Rightarrow> Some (Inl (WrappedError (''Error while trying to read from YAML file. filename: '' @ filename @
              '', content: '' @ yamlString) err), s)
          | Inr (obj, gvk) \<Rightarrow> Some (Inr (obj, gvk), s))
   }"

definition findGVR :: "'w dynamic \<Rightarrow> group_version_kind \<Rightarrow> 'w st \<Rightarrow> ((goerr + string) \<times> 'w st) option" where
  "findGVR dyn gvk = localCall (dFindGVR dyn gvk)"

text \<open>The resource a client is returned for is its name and the namespace.\<close>

definition getDynamicClientResource ::
  "'w dynamic \<Rightarrow> group_version_kind \<Rightarrow> string \<Rightarrow> 'w st \<Rightarrow> ((goerr + string \<times> string) \<times> 'w st) option" where
  "getDynamicClientResource dyn gvk namespace s = do {
     (r, s) \<leftarrow> findGVR dyn gvk s;
     Some (case r of Inl err \<Rightarrow> Inl err | Inr gvr \<Rightarrow> Inr (gvr, namespace), s)
   }"

definition addUnstructuredWatch ::
  "'w dynamic \<Rightarrow> string \<times> string \<Rightarrow> unstructured \<Rightarrow> 'w st \<Rightarrow> (goerr option \<times> 'w st) option" where
  "addUnstructuredWatch dyn res obj s = do {
     (r, s) \<leftarrow> localCall (dWatch dyn (fst res) (snd res) (om_name (un_meta obj))) s;
     case r of
       Inl err \<Rightarrow> Some (Some err, s)
     | Inr watcher \<Rightarrow> Some (None, s\<lparr>watchers := watchers s @ [watcher]\<rparr>)
   }"

definition wrapDynamic :: "string \<Rightarrow> goerr option \<Rightarrow> goerr list" where
  "wrapDynamic msg err = (case err of None \<Rightarrow> [] | Some e \<Rightarrow> [WrappedError msg e])"

text \<open>The part of the loop's body after the watch: what it adds to the list of errors.\<close>

definition reconcileUnstructured ::
  "'w kube \<Rightarrow> 'w dynamic \<Rightarrow> nvmesh \<Rightarrow> bool \<Rightarrow> string \<times> string \<Rightarrow> unstructured \<Rightarrow> group_version_kind \<Rightarrow> 'w st \<Rightarrow>
   (goerr list \<times> 'w st) option" where
  "reconcileUnstructured env dyn cr shouldCreate res obj gvk s =
     (let (gvr, namespace) = res;
          objName = om_name (un_meta obj)
      in do {
        (err, s) \<leftarrow> localCall (dGet dyn gvr namespace objName) s;
        if err \<noteq> None \<and> \<not> realError isNotFound err then
          (if shouldCreate then do {
             let obj = un_meta_update (\<lambda>m. setControllerReferenceOnUnstructured env cr m (gvk_GroupVersion gvk) (gvk_Kind gvk)) obj;
             (err, s) \<leftarrow> localCall (dCreate dyn gvr namespace obj) s;
             Some (wrapDynamic (''Error while trying to create object using dynamic client '' @ gvr @ ''. Object: '' @
               UnstructuredToString dyn obj) err, s)
           }
           else Some ([], s))
        else if err \<noteq> None then Some (wrapDynamic (''Error while trying to get object using dynamic client '' @ gvr) err, s)
        else if shouldCreate then Some ([], s)
        else do {
          (err, s) \<leftarrow> localCall (dDelete dyn gvr namespace objName) s;
          Some (wrapDynamic (''Error while trying to delete object using dynamic client '' @ gvr) err, s)
        }
      })"

type_synonym unstructured_updater = "nvmesh \<Rightarrow> unstructured \<Rightarrow> group_version_kind \<Rightarrow> unstructured \<times> group_version_kind"

fun reconcileUnstructuredFiles ::
  "'w kube \<Rightarrow> 'w dynamic \<Rightarrow> nvmesh \<Rightarrow> bool \<Rightarrow> unstructured_updater \<Rightarrow> string list \<Rightarrow> goerr list \<Rightarrow> 'w st \<Rightarrow>
   (goerr option \<times> 'w st) option" where
  "reconcileUnstructuredFiles env dyn cr shouldCreate processFunc [] errList s = Some (firstError errList, s)"
| "reconcileUnstructuredFiles env dyn cr shouldCreate processFunc (file # files) errList s = do {
     (r, s) \<leftarrow> YamlFileToUnstructured env dyn file s;
     case r of
       Inl err \<Rightarrow> Some (Some (WrappedError (''Error while trying to read Unstructured Object from YAML file '' @ file) err), s)
     | Inr x \<Rightarrow> do {
         let (obj, gvk) = processFunc cr (fst x) (snd x);
         (r, s) \<leftarrow> getDynamicClientResource dyn gvk (getNamespaceForObject cr (gvk_Kind gvk)) s;
         case r of
           Inl _ \<Rightarrow> reconcileUnstructuredFiles env dyn cr shouldCreate processFunc files errList s
         | Inr res \<Rightarrow> do {
             (err, s) \<leftarrow> (if shouldCreate then addUnstructuredWatch dyn res obj s else Some (None, s));
             if err \<noteq> None then Some (err, s)
             else do {
               (errs, s) \<leftarrow> reconcileUnstructured env dyn cr shouldCreate res obj gvk s;
               reconcileUnstructuredFiles env dyn cr shouldCreate processFunc files (errList @ errs) s
             }
           }
       }
   }"

definition reconcileUnstructuredObjects ::
  "'w kube \<Rightarrow> 'w dynamic \<Rightarrow> nvmesh \<Rightarrow> string \<Rightarrow> bool \<Rightarrow> unstructured_updater \<Rightarrow> 'w st \<Rightarrow> (goerr option \<times> 'w st) option" where
  "reconcileUnstructuredObjects env dyn cr directoryPath shouldCreate processFunc s = do {
     (r, s) \<leftarrow> listFilesInSubDirs env directoryPath s;
     case r of
       Inl err \<Rightarrow> Some (Some err, s)
     | Inr files \<Rightarrow> reconcileUnstructuredFiles env dyn cr shouldCreate processFunc files [] s
   }"

section \<open>What it may do\<close>

definition dynamicReads :: "'w dynamic \<Rightarrow> ('w st \<Rightarrow> 'w st \<Rightarrow> bool) \<Rightarrow> bool" where
  "dynamicReads dyn R \<longleftrightarrow> (\<forall>gvk. steps R (localCall (dFindGVR dyn gvk))) \<and>
     (\<forall>gvr ns name. steps R (localCall (dGet dyn gvr ns name)))"

lemma steps_YamlFileToUnstructured:
  assumes "preord R" "allowsReads env R"
  shows "steps R (YamlFileToUnstructured env dyn file)"
  unfolding YamlFileToUnstructured_def YamlFileToString_def
  by (intro steps_intro assms allowsReadsD [OF assms(2)])

text \<open>The loop does what the watch and the treatment of one object do.\<close>

lemma steps_reconcileUnstructuredObjects:
  assumes R: "preord R" "allowsReads env R" "dynamicReads dyn R"
    and watch: "\<And>res obj. shouldCreate \<Longrightarrow> steps R (addUnstructuredWatch dyn res obj)"
    and one: "\<And>res obj gvk. steps R (reconcileUnstructured env dyn cr shouldCreate res obj gvk)"
  shows "steps R (reconcileUnstructuredObjects env dyn cr dir shouldCreate processFunc)"
proof -
  have find: "steps R (getDynamicClientResource dyn gvk ns)" for gvk ns
    unfolding getDynamicClientResource_def findGVR_def
    by (intro steps_intro R(1)) (use R(3) in \<open>simp add: dynamicReads_def\<close>)
  have "steps R (reconcileUnstructuredFiles env dyn cr shouldCreate processFunc files errs)" for files errs
  proof (induction files arbitrary: errs)
    case Nil
    show ?case unfolding reconcileUnstructuredFiles.simps by (intro steps_intro R(1))
  next
    case (Cons f files)
    show ?case unfolding reconcileUnstructuredFiles.simps Let_def
      by (intro steps_intro R(1) steps_YamlFileToUnstructured R(2) find watch one Cons)
  qed
  then show ?thesis
    unfolding reconcileUnstructuredObjects_def listFilesInSubDirs_def
    by (intro steps_intro R(1) allowsReadsD [OF R(2)])
qed

text \<open>Removing opens no watch and creates nothing; creating deletes nothing.\<close>

lemma steps_removeUnstructured:
  assumes "preord R" "allowsReads env R" "dynamicReads dyn R" "\<And>gvr ns name. steps R (localCall (dDelete dyn gvr ns name))"
  shows "steps R (reconcileUnstructuredObjects env dyn cr dir False processFunc)"
proof (rule steps_reconcileUnstructuredObjects [OF assms(1-3)])
  show "steps R (reconcileUnstructured env dyn cr False res obj gvk)" for res obj gvk
    unfolding reconcileUnstructured_def Let_def
    by (intro steps_intro assms) (use assms(3) in \<open>simp_all add: dynamicReads_def\<close>)
qed simp

lemma steps_createUnstructured:
  assumes "preord R" "allowsReads env R" "dynamicReads dyn R"
    and "\<And>res obj. steps R (addUnstructuredWatch dyn res obj)" "\<And>gvr ns obj. steps R (localCall (dCreate dyn gvr ns obj))"
  shows "steps R (reconcileUnstructuredObjects env dyn cr dir True processFunc)"
proof (rule steps_reconcileUnstructuredObjects [OF assms(1-4)])
  show "steps R (reconcileUnstructured env dyn cr True res obj gvk)" for res obj gvk
    unfolding reconcileUnstructured_def Let_def
    by (intro steps_intro assms) (use assms(3) in \<open>simp_all add: dynamicReads_def\<close>)
qed

section \<open>The watches\<close>

text \<open>Stopping the watches stops each one that was ever opened: the list is never emptied.\<close>

lemma stopAllUnstructuredWatchers_run:
  "\<exists>w. stopAllUnstructuredWatchers env s = Some ((), s\<lparr>world := w, reqs := reqs s @ map ReqStopWatch (watchers s)\<rparr>)"
proof -
  have "\<exists>w. stopWatchers env ws s = Some ((), s\<lparr>world := w, reqs := reqs s @ map ReqStopWatch ws\<rparr>)" for ws
  proof (induction ws arbitrary: s)
    case Nil
    show ?case by (intro exI [of _ "world s"]) simp
  next
    case (Cons n ws)
    from Cons [of "s\<lparr>world := kStopWatch env n (world s), reqs := reqs s @ [ReqStopWatch n]\<rparr>"]
    show ?case by (simp add: apiCall_def unitCall_def)
  qed
  then show ?thesis by (simp add: stopAllUnstructuredWatchers_def)
qed

end
