(* ===== verification/Store.thy ===== *)
theory Store
  imports Main "HOL-Library.Monad_Syntax"
begin

text \<open>
  Memory with sharing, for the one component where it matters: the generated deep copies. A store is a
  list of cells, an address an index into it, and allocation appends a cell; nothing is freed. A value
  of a Go type is represented by its fields with, for a pointer, a map or a slice, the address of the cell it refers to.

  The contract of a deep copy is a pair of locales: \<open>shape\<close> says what it takes for a representation to
  denote a value (well-formed in a store, the value, the addresses it is read from), \<open>deep_copy\<close> adds a copy
  function that gives an equal value out of new cells only. Lists, pointers, maps and slices inherit
  the contract from what they hold.
\<close>

type_synonym addr = nat

text \<open>A pointer or a map, nil or an address; a slice, nil or an array with an offset and a length.\<close>

type_synonym ref = "addr option"
type_synonym slice = "(addr \<times> nat \<times> nat) option"

definition deref :: "('c \<Rightarrow> 'a option) \<Rightarrow> 'c list \<Rightarrow> addr \<Rightarrow> 'a option" where
  "deref get h a = (if a < length h then get (h ! a) else None)"

lemma deref_append: "deref get h a = Some x \<Longrightarrow> deref get (h @ l) a = Some x"
  by (simp add: deref_def nth_append split: if_splits)

locale shape =
  fixes good :: "'c list \<Rightarrow> 'a \<Rightarrow> bool"
    and view :: "'c list \<Rightarrow> 'a \<Rightarrow> 'v"
    and refs :: "'c list \<Rightarrow> 'a \<Rightarrow> addr set"
  assumes bounded: "good h x \<Longrightarrow> refs h x \<subseteq> {..<length h}"
    and local: "good h x \<Longrightarrow> length h \<le> length h' \<Longrightarrow> (\<And>i. i \<in> refs h x \<Longrightarrow> h' ! i = h ! i) \<Longrightarrow>
      good h' x \<and> view h' x = view h x \<and> refs h' x = refs h x"
begin

lemma append:
  assumes "good h x"
  shows "good (h @ l) x" and "view (h @ l) x = view h x" and "refs (h @ l) x = refs h x"
proof -
  have "i \<in> refs h x \<Longrightarrow> (h @ l) ! i = h ! i" for i using bounded [OF assms] by (auto simp: nth_append)
  from local [OF assms _ this] show "good (h @ l) x" "view (h @ l) x = view h x" "refs (h @ l) x = refs h x" by simp_all
qed

text \<open>A write to a cell it is not read from.\<close>

lemma overwrite:
  assumes "good h x" and "a \<notin> refs h x"
  shows "good (h[a := c]) x" and "view (h[a := c]) x = view h x" and "refs (h[a := c]) x = refs h x"
  using local [OF assms(1), of "h[a := c]"] assms(2) by (metis length_list_update nth_list_update_neq order_refl)+

end

locale deep_copy = shape good view refs
  for good :: "'c list \<Rightarrow> 'a \<Rightarrow> bool" and view :: "'c list \<Rightarrow> 'a \<Rightarrow> 'v" and refs :: "'c list \<Rightarrow> 'a \<Rightarrow> addr set" +
  fixes copy :: "'a \<Rightarrow> 'c list \<Rightarrow> ('a \<times> 'c list) option"
  assumes copies: "good h x \<Longrightarrow> \<exists>y l. copy x h = Some (y, h @ l) \<and> good (h @ l) y \<and> view (h @ l) y = view h x \<and>
      refs (h @ l) y \<subseteq> {length h..<length h + length l}"
begin

text \<open>Copied from a store that has grown since, the value is still the one of the start.\<close>

lemma copy_later:
  assumes "good h x"
  obtains y l where "copy x (h @ k) = Some (y, h @ k @ l)" and "good (h @ k @ l) y" and "view (h @ k @ l) y = view h x"
    and "refs (h @ k @ l) y \<subseteq> {length h + length k..<length h + length k + length l}"
proof -
  from copies [OF append(1) [OF assms], of k] obtain y l where "copy x (h @ k) = Some (y, (h @ k) @ l)"
    "good ((h @ k) @ l) y" "view ((h @ k) @ l) y = view (h @ k) x" "refs ((h @ k) @ l) y \<subseteq> {length (h @ k)..<length (h @ k) + length l}"
    by blast
  then show thesis by (intro that [of y l]) (simp_all add: append(2) [OF assms])
qed

text \<open>Whatever is written to the cells there were before, the copy keeps its value; whatever is written to
  the new ones, the original does.\<close>

lemma independent:
  assumes "good h x" and "copy x h = Some (y, h')"
  shows "length g = length h' \<Longrightarrow> (\<And>i. length h \<le> i \<Longrightarrow> i < length h' \<Longrightarrow> g ! i = h' ! i) \<Longrightarrow> view g y = view h x"
    and "length g = length h' \<Longrightarrow> (\<And>i. i < length h \<Longrightarrow> g ! i = h' ! i) \<Longrightarrow> view g x = view h x"
proof -
  from copies [OF assms(1)] assms(2) obtain l where h': "h' = h @ l" and y: "good (h @ l) y" "view (h @ l) y = view h x"
    "refs (h @ l) y \<subseteq> {length h..<length h + length l}" by auto
  { assume g: "length g = length h'" "\<And>i. length h \<le> i \<Longrightarrow> i < length h' \<Longrightarrow> g ! i = h' ! i"
    have "i \<in> refs (h @ l) y \<Longrightarrow> g ! i = (h @ l) ! i" for i using g(2) [of i] y(3) h' by auto
    from local [OF y(1) _ this] g(1) y(2) h' show "view g y = view h x" by simp }
  { assume g: "length g = length h'" "\<And>i. i < length h \<Longrightarrow> g ! i = h' ! i"
    have "i \<in> refs h x \<Longrightarrow> g ! i = h ! i" for i using g(2) [of i] bounded [OF assms(1)] h' by (auto simp: nth_append)
    from local [OF assms(1) _ this] g(1) h' show "view g x = view h x" by simp }
qed

end

section \<open>Plain values\<close>

text \<open>\<open>*out = *in\<close> for a type without references\<close>

definition assign :: "'a \<Rightarrow> 'c list \<Rightarrow> ('a \<times> 'c list) option" where
  "assign x h = Some (x, h)"

lemma assign_deep_copy: "deep_copy (\<lambda>h x. True) (\<lambda>h. f) (\<lambda>h x. {}) assign"
  by unfold_locales (auto simp: assign_def intro!: exI [of _ "[]"])

section \<open>Lists\<close>

fun copyElems :: "('a \<Rightarrow> 'c list \<Rightarrow> ('a \<times> 'c list) option) \<Rightarrow> 'a list \<Rightarrow> 'c list \<Rightarrow> ('a list \<times> 'c list) option" where
  "copyElems copy [] h = Some ([], h)"
| "copyElems copy (x # xs) h = do {
     (y, h) \<leftarrow> copy x h;
     (ys, h) \<leftarrow> copyElems copy xs h;
     Some (y # ys, h)
   }"

definition goodElems :: "('c list \<Rightarrow> 'a \<Rightarrow> bool) \<Rightarrow> 'c list \<Rightarrow> 'a list \<Rightarrow> bool" where
  "goodElems good h xs \<longleftrightarrow> list_all (good h) xs"

definition viewElems :: "('c list \<Rightarrow> 'a \<Rightarrow> 'v) \<Rightarrow> 'c list \<Rightarrow> 'a list \<Rightarrow> 'v list" where
  "viewElems view h xs = map (view h) xs"

definition refsElems :: "('c list \<Rightarrow> 'a \<Rightarrow> addr set) \<Rightarrow> 'c list \<Rightarrow> 'a list \<Rightarrow> addr set" where
  "refsElems refs h xs = \<Union> (refs h ` set xs)"

lemmas elems_defs = goodElems_def viewElems_def refsElems_def

lemma shape_elems:
  fixes good :: "'c list \<Rightarrow> 'a \<Rightarrow> bool"
  assumes "shape good view refs"
  shows "shape (goodElems good) (viewElems view) (refsElems refs)"
proof
  fix h :: "'c list" and xs :: "'a list"
  assume "goodElems good h xs"
  then show "refsElems refs h xs \<subseteq> {..<length h}"
    using shape.bounded [OF assms] by (fastforce simp: elems_defs list_all_iff)
next
  fix h h' :: "'c list" and xs :: "'a list"
  assume good: "goodElems good h xs" and len: "length h \<le> length h'" and same: "\<And>i. i \<in> refsElems refs h xs \<Longrightarrow> h' ! i = h ! i"
  have "good h' x \<and> view h' x = view h x \<and> refs h' x = refs h x" if "x \<in> set xs" for x
    using that good same by (intro shape.local [OF assms _ len]) (auto simp: elems_defs list_all_iff)
  then show "goodElems good h' xs \<and> viewElems view h' xs = viewElems view h xs \<and> refsElems refs h' xs = refsElems refs h xs"
    by (auto simp: elems_defs list_all_iff)
qed

lemma deep_copy_elems:
  assumes "deep_copy good view refs copy"
  shows "deep_copy (goodElems good) (viewElems view) (refsElems refs) (copyElems copy)"
proof -
  note sh = deep_copy.axioms(1) [OF assms]
  have "goodElems good h xs \<Longrightarrow> \<exists>ys l. copyElems copy xs h = Some (ys, h @ l) \<and> goodElems good (h @ l) ys \<and>
      viewElems view (h @ l) ys = viewElems view h xs \<and> refsElems refs (h @ l) ys \<subseteq> {length h..<length h + length l}" for h xs
  proof (induction xs arbitrary: h)
    case Nil
    then show ?case by (auto simp: elems_defs)
  next
    case (Cons x xs)
    then have x: "good h x" and xs: "goodElems good h xs" by (simp_all add: goodElems_def)
    from deep_copy.copies [OF assms x] obtain y k where y: "copy x h = Some (y, h @ k)" "good (h @ k) y"
      "view (h @ k) y = view h x" "refs (h @ k) y \<subseteq> {length h..<length h + length k}" by blast
    note later = shape.append [OF shape_elems [OF sh] xs, of k]
    from Cons.IH [OF later(1)] obtain ys l where ys: "copyElems copy xs (h @ k) = Some (ys, (h @ k) @ l)"
      "goodElems good ((h @ k) @ l) ys" "viewElems view ((h @ k) @ l) ys = viewElems view (h @ k) xs"
      "refsElems refs ((h @ k) @ l) ys \<subseteq> {length (h @ k)..<length (h @ k) + length l}" by blast
    have refs: "refsElems refs (h @ k @ l) (y # ys) \<subseteq> {length h..<length h + length (k @ l)}"
      using y(4) ys(4) shape.append(3) [OF sh y(2), of l] by (fastforce simp: refsElems_def)
    show ?case
      by (intro exI [of _ "y # ys"] exI [of _ "k @ l"])
        (use refs y ys later(2) shape.append(1,2) [OF sh y(2), of l] in \<open>simp add: goodElems_def viewElems_def\<close>)
  qed
  with shape_elems [OF sh] show ?thesis unfolding deep_copy_def deep_copy_axioms_def by blast
qed

section \<open>A new cell\<close>

text \<open>
  \<open>new\<close> or \<open>make\<close>, and then the copy of the content \<open>x\<close> into it. Nothing reads the cell in between.
\<close>

definition copyNew :: "('a \<Rightarrow> 'c) \<Rightarrow> ('a \<Rightarrow> 'c list \<Rightarrow> ('a \<times> 'c list) option) \<Rightarrow> 'a \<Rightarrow> 'c list \<Rightarrow> (addr \<times> 'c list) option" where
  "copyNew mk copy x h = do {
     let out = length h;
     (y, h) \<leftarrow> copy x (h @ [mk x]);
     Some (out, h[out := mk y])
   }"

lemma copyNew_copies:
  assumes "deep_copy good view refs copy" and "good h x"
  obtains y l where "copyNew mk copy x h = Some (length h, h @ mk y # l)" and "good (h @ mk y # l) y"
    and "view (h @ mk y # l) y = view h x" and "refs (h @ mk y # l) y \<subseteq> {Suc (length h)..<Suc (length h + length l)}"
proof -
  note sh = deep_copy.axioms(1) [OF assms(1)]
  from deep_copy.copy_later [OF assms, of "[mk x]"] obtain y l where y: "copy x (h @ [mk x]) = Some (y, h @ mk x # l)"
    "good (h @ mk x # l) y" "view (h @ mk x # l) y = view h x" "refs (h @ mk x # l) y \<subseteq> {Suc (length h)..<Suc (length h + length l)}"
    by auto
  have upd: "(h @ mk x # l)[length h := mk y] = h @ mk y # l" by simp
  have "length h \<notin> refs (h @ mk x # l) y" using y(4) by auto
  note w = shape.overwrite [OF sh y(2) this, of "mk y", unfolded upd]
  show thesis
    by (rule that [of y l]) (use w y in \<open>simp_all add: copyNew_def Let_def\<close>)
qed

section \<open>Pointers, maps and slices\<close>

text \<open>The part of an array a slice shows.\<close>

definition window :: "('c \<Rightarrow> 'a list option) \<Rightarrow> nat \<Rightarrow> nat \<Rightarrow> 'c \<Rightarrow> 'a list option" where
  "window get off n c = get c \<bind> (\<lambda>xs. if off + n \<le> length xs then Some (take n (drop off xs)) else None)"

text \<open>What is at an address; \<open>get\<close> reads a cell of the right type.\<close>

definition goodAt :: "('c \<Rightarrow> 'a option) \<Rightarrow> ('c list \<Rightarrow> 'a \<Rightarrow> bool) \<Rightarrow> 'c list \<Rightarrow> addr \<Rightarrow> bool" where
  "goodAt get good h a \<longleftrightarrow> (case deref get h a of None \<Rightarrow> False | Some x \<Rightarrow> good h x)"

definition viewAt :: "('c \<Rightarrow> 'a option) \<Rightarrow> ('c list \<Rightarrow> 'a \<Rightarrow> 'v) \<Rightarrow> 'c list \<Rightarrow> addr \<Rightarrow> 'v option" where
  "viewAt get view h a = map_option (view h) (deref get h a)"

definition refsAt :: "('c \<Rightarrow> 'a option) \<Rightarrow> ('c list \<Rightarrow> 'a \<Rightarrow> addr set) \<Rightarrow> 'c list \<Rightarrow> addr \<Rightarrow> addr set" where
  "refsAt get refs h a = insert a (case deref get h a of None \<Rightarrow> {} | Some x \<Rightarrow> refs h x)"

lemmas at_defs = goodAt_def viewAt_def refsAt_def

lemma at_shape:
  fixes good :: "'c list \<Rightarrow> 'a \<Rightarrow> bool"
  assumes "shape good view refs"
  shows "shape (goodAt get good) (viewAt get view) (refsAt get refs)"
proof
  fix h :: "'c list" and a
  assume good: "goodAt get good h a"
  then show "refsAt get refs h a \<subseteq> {..<length h}"
    using shape.bounded [OF assms] by (fastforce simp: at_defs deref_def split: option.splits if_splits)
  fix h' :: "'c list"
  assume len: "length h \<le> length h'" and same: "\<And>i. i \<in> refsAt get refs h a \<Longrightarrow> h' ! i = h ! i"
  from good obtain x where x: "deref get h a = Some x" "good h x" by (auto simp: goodAt_def split: option.splits)
  have "good h' x \<and> view h' x = view h x \<and> refs h' x = refs h x"
    using same x(1) by (intro shape.local [OF assms x(2) len]) (simp add: refsAt_def)
  moreover have "deref get h' a = Some x"
    using x(1) len same [of a] by (auto simp: deref_def refsAt_def split: if_splits)
  ultimately show "goodAt get good h' a \<and> viewAt get view h' a = viewAt get view h a \<and> refsAt get refs h' a = refsAt get refs h a"
    using x by (simp add: at_defs)
qed

text \<open>A new cell for what is at an address.\<close>

definition copyAt ::
  "('c \<Rightarrow> 'a option) \<Rightarrow> ('a \<Rightarrow> 'c) \<Rightarrow> ('a \<Rightarrow> 'c list \<Rightarrow> ('a \<times> 'c list) option) \<Rightarrow> addr \<Rightarrow> 'c list \<Rightarrow> (addr \<times> 'c list) option" where
  "copyAt get mk copy a h = deref get h a \<bind> (\<lambda>x. copyNew mk copy x h)"

lemma copyAt_copies:
  assumes dc: "deep_copy good view refs copy" and good: "goodAt get good h a"
    and get': "\<And>x y g. deref get h a = Some x \<Longrightarrow> view g y = view h x \<Longrightarrow> get' (mk y) = Some y"
  shows "\<exists>l. copyAt get mk copy a h = Some (length h, h @ l) \<and> goodAt get' good (h @ l) (length h) \<and>
      viewAt get' view (h @ l) (length h) = viewAt get view h a \<and> refsAt get' refs (h @ l) (length h) \<subseteq> {length h..<length h + length l}"
proof -
  from good obtain x where x: "deref get h a = Some x" "good h x" by (auto simp: goodAt_def split: option.splits)
  from copyNew_copies [OF dc x(2), of mk] obtain y l where y: "copyNew mk copy x h = Some (length h, h @ mk y # l)"
    "good (h @ mk y # l) y" "view (h @ mk y # l) y = view h x" "refs (h @ mk y # l) y \<subseteq> {Suc (length h)..<Suc (length h + length l)}"
    by blast
  have run: "copyAt get mk copy a h = Some (length h, h @ mk y # l)" by (simp add: copyAt_def x(1) y(1))
  have "get' (mk y) = Some y"
    by (rule get' [OF x(1) y(3)])
  then have "deref get' (h @ mk y # l) (length h) = Some y" by (simp add: deref_def)
  then show ?thesis using x(1) run y by (intro exI [of _ "mk y # l"]) (auto simp: at_defs)
qed

text \<open>A pointer or a map, which may be nil.\<close>

definition goodRef :: "('c list \<Rightarrow> 'a \<Rightarrow> bool) \<Rightarrow> 'c list \<Rightarrow> 'a option \<Rightarrow> bool" where
  "goodRef good h p \<longleftrightarrow> (case p of None \<Rightarrow> True | Some a \<Rightarrow> good h a)"

definition viewRef :: "('c list \<Rightarrow> 'a \<Rightarrow> 'v option) \<Rightarrow> 'c list \<Rightarrow> 'a option \<Rightarrow> 'v option" where
  "viewRef view h p = p \<bind> view h"

definition refsRef :: "('c list \<Rightarrow> 'a \<Rightarrow> addr set) \<Rightarrow> 'c list \<Rightarrow> 'a option \<Rightarrow> addr set" where
  "refsRef refs h p = (case p of None \<Rightarrow> {} | Some a \<Rightarrow> refs h a)"

text \<open>\<open>if in != nil\<close>\<close>

definition copyRef :: "('a \<Rightarrow> 'c list \<Rightarrow> ('a \<times> 'c list) option) \<Rightarrow> 'a option \<Rightarrow> 'c list \<Rightarrow> ('a option \<times> 'c list) option" where
  "copyRef copy p h =
     (case p of
        None \<Rightarrow> Some (None, h)
      | Some a \<Rightarrow> do { (b, h) \<leftarrow> copy a h; Some (Some b, h) })"

lemmas ref_defs = goodRef_def viewRef_def refsRef_def

lemma ref_deep_copy:
  assumes "deep_copy good view refs copy"
  shows "deep_copy (goodRef good) (viewRef view) (refsRef refs) (copyRef copy)"
proof
  note sh = deep_copy.axioms(1) [OF assms]
  fix h p assume g: "goodRef good h p"
  then show "refsRef refs h p \<subseteq> {..<length h}"
    using shape.bounded [OF sh] by (fastforce simp: ref_defs split: option.splits)
  show "\<exists>q l. copyRef copy p h = Some (q, h @ l) \<and> goodRef good (h @ l) q \<and> viewRef view (h @ l) q = viewRef view h p \<and>
      refsRef refs (h @ l) q \<subseteq> {length h..<length h + length l}"
  proof (cases p)
    case None
    then show ?thesis by (auto simp: copyRef_def ref_defs)
  next
    case (Some a)
    with g deep_copy.copies [OF assms, of h a] show ?thesis by (fastforce simp: copyRef_def ref_defs)
  qed
  fix h' assume len: "length h \<le> length h'" and same: "\<And>i. i \<in> refsRef refs h p \<Longrightarrow> h' ! i = h ! i"
  show "goodRef good h' p \<and> viewRef view h' p = viewRef view h p \<and> refsRef refs h' p = refsRef refs h p"
  proof (cases p)
    case None
    then show ?thesis by (simp add: ref_defs)
  next
    case (Some a)
    with g same shape.local [OF sh _ len, of a] show ?thesis by (auto simp: ref_defs)
  qed
qed

text \<open>The cells of type \<open>mk\<close>, to which a pointer or a map refers.\<close>

lemma at_deep_copy:
  assumes dc: "deep_copy good view refs copy" and "\<And>x. get (mk x) = Some x"
  shows "deep_copy (goodAt get good) (viewAt get view) (refsAt get refs) (copyAt get mk copy)"
proof -
  note sh = at_shape [OF deep_copy.axioms(1) [OF dc], of get]
  have "goodAt get good h a \<Longrightarrow> \<exists>b l. copyAt get mk copy a h = Some (b, h @ l) \<and> goodAt get good (h @ l) b \<and>
      viewAt get view (h @ l) b = viewAt get view h a \<and> refsAt get refs (h @ l) b \<subseteq> {length h..<length h + length l}" for h a
    using copyAt_copies [OF dc, of get h a get mk] assms(2) by blast
  with sh show ?thesis unfolding deep_copy_def deep_copy_axioms_def by blast
qed

text \<open>A slice: the new array has the elements the slice shows, from its start.\<close>

definition goodSlice :: "('c \<Rightarrow> 'a list option) \<Rightarrow> ('c list \<Rightarrow> 'a \<Rightarrow> bool) \<Rightarrow> 'c list \<Rightarrow> addr \<times> nat \<times> nat \<Rightarrow> bool" where
  "goodSlice get good h s \<longleftrightarrow> (case s of (a, off, n) \<Rightarrow> goodAt (window get off n) (goodElems good) h a)"

definition viewSlice :: "('c \<Rightarrow> 'a list option) \<Rightarrow> ('c list \<Rightarrow> 'a \<Rightarrow> 'v) \<Rightarrow> 'c list \<Rightarrow> addr \<times> nat \<times> nat \<Rightarrow> 'v list option" where
  "viewSlice get view h s = (case s of (a, off, n) \<Rightarrow> viewAt (window get off n) (viewElems view) h a)"

definition refsSlice :: "('c \<Rightarrow> 'a list option) \<Rightarrow> ('c list \<Rightarrow> 'a \<Rightarrow> addr set) \<Rightarrow> 'c list \<Rightarrow> addr \<times> nat \<times> nat \<Rightarrow> addr set" where
  "refsSlice get refs h s = (case s of (a, off, n) \<Rightarrow> refsAt (window get off n) (refsElems refs) h a)"

definition copySlice ::
  "('c \<Rightarrow> 'a list option) \<Rightarrow> ('a list \<Rightarrow> 'c) \<Rightarrow> ('a \<Rightarrow> 'c list \<Rightarrow> ('a \<times> 'c list) option) \<Rightarrow>
   addr \<times> nat \<times> nat \<Rightarrow> 'c list \<Rightarrow> ((addr \<times> nat \<times> nat) \<times> 'c list) option" where
  "copySlice get mk copy s h =
     (case s of (a, off, n) \<Rightarrow> do {
        (b, h) \<leftarrow> copyAt (window get off n) mk (copyElems copy) a h;
        Some ((b, 0, n), h)
      })"

lemmas slice_defs = goodSlice_def viewSlice_def refsSlice_def

lemma slice_deep_copy:
  assumes dc: "deep_copy good view refs copy" and get: "\<And>xs. get (mk xs) = Some xs"
  shows "deep_copy (goodSlice get good) (viewSlice get view) (refsSlice get refs) (copySlice get mk copy)"
proof
  fix h s assume g: "goodSlice get good h s"
  obtain a off n where s: "s = (a, off, n)" by (cases s)
  note sh = at_shape [OF shape_elems [OF deep_copy.axioms(1) [OF dc]], of "window get off n"]
  from g show "refsSlice get refs h s \<subseteq> {..<length h}"
    using shape.bounded [OF sh, of h a] by (simp add: slice_defs s)
  have "window get 0 n (mk ys) = Some ys"
    if "deref (window get off n) h a = Some xs" "viewElems view k ys = viewElems view h xs" for xs ys k
  proof -
    from that(1) have "length xs = n" by (auto simp: deref_def window_def bind_eq_Some_conv split: if_splits)
    with that(2) have "length ys = n" unfolding viewElems_def by (metis length_map)
    then show ?thesis by (simp add: window_def get)
  qed
  from copyAt_copies [OF deep_copy_elems [OF dc], of "window get off n" h a "window get 0 n" mk, OF _ this] g
  show "\<exists>t l. copySlice get mk copy s h = Some (t, h @ l) \<and> goodSlice get good (h @ l) t \<and>
      viewSlice get view (h @ l) t = viewSlice get view h s \<and> refsSlice get refs (h @ l) t \<subseteq> {length h..<length h + length l}"
    by (fastforce simp: copySlice_def slice_defs s)
  fix h' assume "length h \<le> length h'" and "\<And>i. i \<in> refsSlice get refs h s \<Longrightarrow> h' ! i = h ! i"
  with shape.local [OF sh, of h a h'] g
  show "goodSlice get good h' s \<and> viewSlice get view h' s = viewSlice get view h s \<and> refsSlice get refs h' s = refsSlice get refs h s"
    by (simp add: slice_defs s)
qed

section \<open>Structs\<close>

definition goodPair :: "('c list \<Rightarrow> 'a \<Rightarrow> bool) \<Rightarrow> ('c list \<Rightarrow> 'b \<Rightarrow> bool) \<Rightarrow> 'c list \<Rightarrow> 'a \<times> 'b \<Rightarrow> bool" where
  "goodPair g g' h p \<longleftrightarrow> g h (fst p) \<and> g' h (snd p)"

definition viewPair :: "('c list \<Rightarrow> 'a \<Rightarrow> 'v) \<Rightarrow> ('c list \<Rightarrow> 'b \<Rightarrow> 'w) \<Rightarrow> 'c list \<Rightarrow> 'a \<times> 'b \<Rightarrow> 'v \<times> 'w" where
  "viewPair v v' h p = (v h (fst p), v' h (snd p))"

definition refsPair :: "('c list \<Rightarrow> 'a \<Rightarrow> addr set) \<Rightarrow> ('c list \<Rightarrow> 'b \<Rightarrow> addr set) \<Rightarrow> 'c list \<Rightarrow> 'a \<times> 'b \<Rightarrow> addr set" where
  "refsPair r r' h p = r h (fst p) \<union> r' h (snd p)"

text \<open>One field after the other.\<close>

definition copyPair ::
  "('a \<Rightarrow> 'c list \<Rightarrow> ('a \<times> 'c list) option) \<Rightarrow> ('b \<Rightarrow> 'c list \<Rightarrow> ('b \<times> 'c list) option) \<Rightarrow>
   'a \<times> 'b \<Rightarrow> 'c list \<Rightarrow> (('a \<times> 'b) \<times> 'c list) option" where
  "copyPair f f' p h = do {
     (x, h) \<leftarrow> f (fst p) h;
     (y, h) \<leftarrow> f' (snd p) h;
     Some ((x, y), h)
   }"

lemmas pair_defs = goodPair_def viewPair_def refsPair_def

lemma pair_deep_copy:
  assumes 1: "deep_copy g v r f" and 2: "deep_copy g' v' r' f'"
  shows "deep_copy (goodPair g g') (viewPair v v') (refsPair r r') (copyPair f f')"
proof
  note sh = deep_copy.axioms(1) [OF 1] deep_copy.axioms(1) [OF 2]
  fix h p assume good: "goodPair g g' h p"
  then have gp: "g h (fst p)" "g' h (snd p)" by (simp_all add: goodPair_def)
  show "refsPair r r' h p \<subseteq> {..<length h}"
    using shape.bounded [OF sh(1) gp(1)] shape.bounded [OF sh(2) gp(2)] by (simp add: refsPair_def)
  from deep_copy.copies [OF 1 gp(1)] obtain x k where x: "f (fst p) h = Some (x, h @ k)" "g (h @ k) x" "v (h @ k) x = v h (fst p)"
    "r (h @ k) x \<subseteq> {length h..<length h + length k}" by blast
  from deep_copy.copy_later [OF 2 gp(2), of k] obtain y l where y: "f' (snd p) (h @ k) = Some (y, h @ k @ l)" "g' (h @ k @ l) y"
    "v' (h @ k @ l) y = v' h (snd p)" "r' (h @ k @ l) y \<subseteq> {length h + length k..<length h + length k + length l}" .
  note x' = shape.append [OF sh(1) x(2), of l, unfolded append_assoc]
  have "r (h @ k @ l) x \<union> r' (h @ k @ l) y \<subseteq> {length h..<length h + length (k @ l)}"
    using x(4) y(4) x'(3) by fastforce
  then show "\<exists>q l. copyPair f f' p h = Some (q, h @ l) \<and> goodPair g g' (h @ l) q \<and> viewPair v v' (h @ l) q = viewPair v v' h p \<and>
      refsPair r r' (h @ l) q \<subseteq> {length h..<length h + length l}"
    by (intro exI [of _ "(x, y)"] exI [of _ "k @ l"]) (use x y x' in \<open>simp add: pair_defs copyPair_def\<close>)
  fix h' assume len: "length h \<le> length h'" and same: "\<And>i. i \<in> refsPair r r' h p \<Longrightarrow> h' ! i = h ! i"
  show "goodPair g g' h' p \<and> viewPair v v' h' p = viewPair v v' h p \<and> refsPair r r' h' p = refsPair r r' h p"
    using shape.local [OF sh(1) gp(1) len] shape.local [OF sh(2) gp(2) len] same by (simp add: pair_defs)
qed

text \<open>
  A struct, of which \<open>sel\<close> are the fields with references: \<open>*out = *in\<close>, and then those fields.
\<close>

lemma struct_deep_copy:
  assumes dc: "deep_copy g v r f"
    and good: "\<And>h s. good h s \<longleftrightarrow> g h (sel s)" and refs: "\<And>h s. refs h s = r h (sel s)"
    and copy: "\<And>h s. copy s h = f (sel s) h \<bind> (\<lambda>(y, h). Some (upd y s, h))"
    and upd: "\<And>y s. sel (upd y s) = y" "\<And>s. upd (sel s) s = s"
    and view: "\<And>h h' y s. v h' y = v h (sel s) \<Longrightarrow> view h' (upd y s) = view h s"
  shows "deep_copy good view refs copy"
proof
  note sh = deep_copy.axioms(1) [OF dc]
  fix h s assume "good h s"
  then have gs: "g h (sel s)" by (simp add: good)
  show "refs h s \<subseteq> {..<length h}" unfolding refs by (rule shape.bounded [OF sh gs])
  from deep_copy.copies [OF dc gs] obtain y l where y: "f (sel s) h = Some (y, h @ l)" "g (h @ l) y" "v (h @ l) y = v h (sel s)"
    "r (h @ l) y \<subseteq> {length h..<length h + length l}" by blast
  then show "\<exists>t l. copy s h = Some (t, h @ l) \<and> good (h @ l) t \<and> view (h @ l) t = view h s \<and>
      refs (h @ l) t \<subseteq> {length h..<length h + length l}"
    by (intro exI [of _ "upd y s"] exI [of _ l]) (simp add: copy good refs upd view)
  fix h' assume "length h \<le> length h'" and "\<And>i. i \<in> refs h s \<Longrightarrow> h' ! i = h ! i"
  from shape.local [OF sh gs this(1)] this(2) have "g h' (sel s)" "v h' (sel s) = v h (sel s)" "r h' (sel s) = r h (sel s)"
    by (simp_all add: refs)
  with view [of h' "sel s" h s] show "good h' s \<and> view h' s = view h s \<and> refs h' s = refs h s"
    by (simp add: good refs upd)
qed

section \<open>Representations\<close>

text \<open>The three parts of a shape in one, and how they are made for composite types.\<close>

record ('c, 'a, 'v) rep =
  r_good :: "'c list \<Rightarrow> 'a \<Rightarrow> bool"
  r_view :: "'c list \<Rightarrow> 'a \<Rightarrow> 'v"
  r_refs :: "'c list \<Rightarrow> 'a \<Rightarrow> addr set"

definition deepCopies :: "('c, 'a, 'v) rep \<Rightarrow> ('a \<Rightarrow> 'c list \<Rightarrow> ('a \<times> 'c list) option) \<Rightarrow> bool" where
  "deepCopies R copy \<longleftrightarrow> deep_copy (r_good R) (r_view R) (r_refs R) copy"

definition plain :: "('a \<Rightarrow> 'v) \<Rightarrow> ('c, 'a, 'v) rep" where
  "plain f = \<lparr>r_good = \<lambda>h x. True, r_view = \<lambda>h. f, r_refs = \<lambda>h x. {}\<rparr>"

definition elemsRep :: "('c, 'a, 'v) rep \<Rightarrow> ('c, 'a list, 'v list) rep" where
  "elemsRep R = \<lparr>r_good = goodElems (r_good R), r_view = viewElems (r_view R), r_refs = refsElems (r_refs R)\<rparr>"

definition refRep :: "('c \<Rightarrow> 'a option) \<Rightarrow> ('c, 'a, 'v) rep \<Rightarrow> ('c, ref, 'v option) rep" where
  "refRep get R = \<lparr>r_good = goodRef (goodAt get (r_good R)), r_view = viewRef (viewAt get (r_view R)),
     r_refs = refsRef (refsAt get (r_refs R))\<rparr>"

definition sliceRep :: "('c \<Rightarrow> 'a list option) \<Rightarrow> ('c, 'a, 'v) rep \<Rightarrow> ('c, slice, 'v list option) rep" where
  "sliceRep get R = \<lparr>r_good = goodRef (goodSlice get (r_good R)), r_view = viewRef (viewSlice get (r_view R)),
     r_refs = refsRef (refsSlice get (r_refs R))\<rparr>"

definition pairRep :: "('c, 'a, 'v) rep \<Rightarrow> ('c, 'b, 'w) rep \<Rightarrow> ('c, 'a \<times> 'b, 'v \<times> 'w) rep" where
  "pairRep R S = \<lparr>r_good = goodPair (r_good R) (r_good S), r_view = viewPair (r_view R) (r_view S),
     r_refs = refsPair (r_refs R) (r_refs S)\<rparr>"

text \<open>A struct, from its fields with references.\<close>

definition structRep :: "('c, 'a, 'v) rep \<Rightarrow> ('s \<Rightarrow> 'a) \<Rightarrow> ('s \<Rightarrow> 'v \<Rightarrow> 'w) \<Rightarrow> ('c, 's, 'w) rep" where
  "structRep R sel val = \<lparr>r_good = \<lambda>h s. r_good R h (sel s), r_view = \<lambda>h s. val s (r_view R h (sel s)),
     r_refs = \<lambda>h s. r_refs R h (sel s)\<rparr>"

named_theorems copies_intro

lemma copies_plain [copies_intro]: "deepCopies (plain f) assign"
  unfolding deepCopies_def plain_def rep.simps by (rule assign_deep_copy)

lemma copies_elems [copies_intro]: "deepCopies R f \<Longrightarrow> deepCopies (elemsRep R) (copyElems f)"
  unfolding deepCopies_def elemsRep_def rep.simps by (rule deep_copy_elems)

lemma copies_at: "deepCopies R f \<Longrightarrow> (\<And>x. get (mk x) = Some x) \<Longrightarrow>
    deep_copy (goodAt get (r_good R)) (viewAt get (r_view R)) (refsAt get (r_refs R)) (copyAt get mk f)"
  unfolding deepCopies_def by (rule at_deep_copy)

lemma copies_ref: "deepCopies R f \<Longrightarrow> (\<And>x. get (mk x) = Some x) \<Longrightarrow> deepCopies (refRep get R) (copyRef (copyAt get mk f))"
  unfolding deepCopies_def refRep_def rep.simps by (rule ref_deep_copy) (rule at_deep_copy)

lemma copies_slice:
  "deepCopies R f \<Longrightarrow> (\<And>x. get (mk x) = Some x) \<Longrightarrow> deepCopies (sliceRep get R) (copyRef (copySlice get mk f))"
  unfolding deepCopies_def sliceRep_def rep.simps by (rule ref_deep_copy) (rule slice_deep_copy)

lemma copies_pair [copies_intro]: "deepCopies R f \<Longrightarrow> deepCopies S g \<Longrightarrow> deepCopies (pairRep R S) (copyPair f g)"
  unfolding deepCopies_def pairRep_def rep.simps by (rule pair_deep_copy)

lemma copies_struct:
  assumes "deepCopies R f"
    and "\<And>h s. copy s h = f (sel s) h \<bind> (\<lambda>(y, h). Some (upd y s, h))"
    and "\<And>y s. sel (upd y s) = y" and "\<And>s. upd (sel s) s = s" and "\<And>y s v. val (upd y s) v = val s v"
  shows "deepCopies (structRep R sel val) copy"
  unfolding deepCopies_def structRep_def rep.simps
  by (rule struct_deep_copy [OF assms(1) [unfolded deepCopies_def], where sel = sel and upd = upd])
    (simp_all add: assms(2-5))

text \<open>What a copy is, of a value behind a pointer or not.\<close>

lemma deepCopies_run:
  assumes "deepCopies R f" and "r_good R h x"
  obtains y l where "f x h = Some (y, h @ l)" and "r_good R (h @ l) y" and "r_view R (h @ l) y = r_view R h x"
    and "r_refs R (h @ l) y \<subseteq> {length h..<length h + length l}"
  using deep_copy.copies [OF assms(1) [unfolded deepCopies_def] assms(2)] by blast

text \<open>
  \<open>separateCopy R h x h' y\<close>: the cells there were are unchanged, \<open>y\<close> has the value of \<open>x\<close> and is read from new cells only,
  and neither sees what is written, now or later, to cells of the other.
\<close>

definition separateCopy :: "('c, 'a, 'v) rep \<Rightarrow> 'c list \<Rightarrow> 'a \<Rightarrow> 'c list \<Rightarrow> 'a \<Rightarrow> bool" where
  "separateCopy R h x h' y \<longleftrightarrow>
     take (length h) h' = h \<and> r_good R h' y \<and> r_view R h' y = r_view R h x \<and> (\<forall>a\<in>r_refs R h' y. length h \<le> a) \<and>
     (\<forall>g. length g = length h' \<longrightarrow>
        (drop (length h) g = drop (length h) h' \<longrightarrow> r_view R g y = r_view R h x) \<and>
        (take (length h) g = h \<longrightarrow> r_view R g x = r_view R h x))"

lemma deepCopies_separate:
  assumes "deepCopies R f" and "r_good R h x"
  shows "\<exists>y h'. f x h = Some (y, h') \<and> separateCopy R h x h' y"
proof -
  from deepCopies_run [OF assms] obtain y l where y: "f x h = Some (y, h @ l)" "r_good R (h @ l) y"
    "r_view R (h @ l) y = r_view R h x" "r_refs R (h @ l) y \<subseteq> {length h..<length h + length l}" .
  note ind = deep_copy.independent [OF assms(1) [unfolded deepCopies_def] assms(2) y(1)]
  have "drop (length h) g = drop (length h) (h @ l) \<longrightarrow> r_view R g y = r_view R h x"
    and "take (length h) g = h \<longrightarrow> r_view R g x = r_view R h x" if g: "length g = length (h @ l)" for g
  proof -
    show "drop (length h) g = drop (length h) (h @ l) \<longrightarrow> r_view R g y = r_view R h x"
    proof
      assume d: "drop (length h) g = drop (length h) (h @ l)"
      show "r_view R g y = r_view R h x"
      proof (rule ind(1) [OF g])
        fix i assume i: "length h \<le> i" "i < length (h @ l)"
        from d have "drop (length h) g ! (i - length h) = l ! (i - length h)" by simp
        then show "g ! i = (h @ l) ! i" using i g by (simp add: nth_append)
      qed
    qed
    show "take (length h) g = h \<longrightarrow> r_view R g x = r_view R h x"
    proof
      assume t: "take (length h) g = h"
      show "r_view R g x = r_view R h x"
      proof (rule ind(2) [OF g])
        fix i assume i: "i < length h"
        then have "take (length h) g ! i = g ! i" by simp
        then show "g ! i = (h @ l) ! i" using i t by (simp add: nth_append)
      qed
    qed
  qed
  with y show ?thesis by (intro exI [of _ y] exI [of _ "h @ l"]) (auto simp: separateCopy_def)
qed

end
