(* ===== verification/DeepCopy.thy ===== *)
theory DeepCopy
  imports ApiTypes Store
begin

text \<open>
  api/v1/zz_generated.deepcopy.go: the generated copies of the custom resource, on the store of Store, with the
  resource as it lies in memory. The records \<open>m_\<close> are the structs of api/v1/nvmesh_types.go with references
  where Go has pointers, maps and slices (ApiTypes has their values; structs without references are used from there);
  the functions \<open>view\<close> read the value of ApiTypes out of a store. The structs of the Kubernetes
  libraries inside (\<open>ObjectMeta\<close>, \<open>ListMeta\<close>, \<open>PersistentVolumeClaimSpec\<close>) are of an open type \<open>'x\<close>, with their
  own \<open>DeepCopyInto\<close> as parameters. The time of a condition is copied by assignment, as its documentation says.
\<close>

section \<open>The resource in memory\<close>

record m_exclude =
  mx_SerialNumbers :: slice
  mx_DevicePaths :: slice

record m_core =
  mc_Version :: string
  mc_ImageRegistry :: string
  mc_ImageVersionTag :: string
  mc_Disabled :: bool
  mc_ConfiguredNICs :: string
  mc_TCPOnly :: bool
  mc_AzureOptimized :: bool
  mc_ExcludeDrives :: ref
  mc_ModuleParams :: string

record 'x m_mongo =
  mm_External :: bool
  mm_Address :: string
  mm_DataVolumeClaim :: 'x

record 'x m_management =
  mg_Version :: string
  mg_ImageRegistry :: string
  mg_Replicas :: int32
  mg_MongoDB :: "'x m_mongo"
  mg_ExternalIPs :: slice
  mg_NoSSL :: bool
  mg_Disabled :: bool
  mg_BackupsVolumeClaim :: 'x
  mg_DisableAutoFormatDrives :: bool
  mg_DisableAutoEvictMissingDrives :: bool

record m_operator =
  mp_IgnoreVolumeAttachmentOnDelete :: bool
  mp_IgnorePersistentVolumesOnDelete :: bool
  mp_SkipUninstall :: bool
  mp_FileServer :: ref

record m_action =
  ma_Name :: string
  ma_Args :: ref

record 'x m_spec =
  ms_Core :: m_core
  ms_Management :: "'x m_management"
  ms_CSI :: nvmesh_csi
  ms_Operator :: m_operator
  ms_Debug :: debug_options
  ms_Actions :: slice

record m_status =
  mt_WebUIURL :: string
  mt_ActionsStatus :: ref
  mt_Conditions :: slice

type_synonym type_meta = "string \<times> string"   \<comment> \<open>kind, API version\<close>

record 'x m_nvmesh =
  mn_TypeMeta :: type_meta
  mn_ObjectMeta :: 'x
  mn_Spec :: "'x m_spec"
  mn_Status :: m_status

record 'x m_nvmesh_list =
  ml_TypeMeta :: type_meta
  ml_ListMeta :: 'x
  ml_Items :: slice

text \<open>What a cell holds: a map, the array behind a slice, or a struct.\<close>

datatype 'x cell =
    is_StringMap: StringMap (un_StringMap: labels)
  | is_StatusMap: StatusMap (un_StatusMap: "(string \<times> ref) list")
  | is_Strings: Strings (un_Strings: "string list")
  | is_Actions: Actions (un_Actions: "m_action list")
  | is_Conditions: Conditions (un_Conditions: "cluster_condition list")
  | is_Items: Items (un_Items: "'x m_nvmesh list")
  | is_Exclude: Exclude (un_Exclude: m_exclude)
  | is_FileServer: FileServer (un_FileServer: operator_file_server_spec)
  | is_Action: Action (un_Action: m_action)
  | is_Condition: Condition (un_Condition: cluster_condition)
  | is_DebugOpts: DebugOpts (un_DebugOpts: debug_options)
  | is_CSI: CSI (un_CSI: nvmesh_csi)
  | is_Core: Core (un_Core: m_core)
  | is_Mongo: Mongo (un_Mongo: "'x m_mongo")
  | is_Management: Management (un_Management: "'x m_management")
  | is_Operator: Operator (un_Operator: m_operator)
  | is_Spec: Spec (un_Spec: "'x m_spec")
  | is_Status: Status (un_Status: m_status)
  | is_NVMesh: NVMesh (un_NVMesh: "'x m_nvmesh")
  | is_NVMeshList: NVMeshList (un_NVMeshList: "'x m_nvmesh_list")
  | LibraryCell 'x

type_synonym 'x store = "'x cell list"

text \<open>A cell read at its type.\<close>

definition at_type :: "('x cell \<Rightarrow> bool) \<Rightarrow> ('x cell \<Rightarrow> 'a) \<Rightarrow> 'x cell \<Rightarrow> 'a option" where
  "at_type is un c = (if is c then Some (un c) else None)"

section \<open>The libraries' structs\<close>

record list_meta =
  lm_ResourceVersion :: string
  lm_Continue :: string
  lm_RemainingItemCount :: "int option"

record 'x copy_lib =
  lib_good :: "'x store \<Rightarrow> 'x \<Rightarrow> bool"
  lib_refs :: "'x store \<Rightarrow> 'x \<Rightarrow> addr set"
  lib_ObjectMeta :: "'x store \<Rightarrow> 'x \<Rightarrow> cr_meta"
  lib_ListMeta :: "'x store \<Rightarrow> 'x \<Rightarrow> list_meta"
  lib_PvcSpec :: "'x store \<Rightarrow> 'x \<Rightarrow> pvc_spec"
  ObjectMeta_DeepCopyInto :: "'x \<Rightarrow> 'x store \<Rightarrow> ('x \<times> 'x store) option"
  ListMeta_DeepCopyInto :: "'x \<Rightarrow> 'x store \<Rightarrow> ('x \<times> 'x store) option"
  PersistentVolumeClaimSpec_DeepCopyInto :: "'x \<Rightarrow> 'x store \<Rightarrow> ('x \<times> 'x store) option"

text \<open>Their documented behaviour: each is a deep copy.\<close>

definition documentedCopies :: "'x copy_lib \<Rightarrow> bool" where
  "documentedCopies L \<longleftrightarrow>
     deep_copy (lib_good L) (lib_ObjectMeta L) (lib_refs L) (ObjectMeta_DeepCopyInto L) \<and>
     deep_copy (lib_good L) (lib_ListMeta L) (lib_refs L) (ListMeta_DeepCopyInto L) \<and>
     deep_copy (lib_good L) (lib_PvcSpec L) (lib_refs L) (PersistentVolumeClaimSpec_DeepCopyInto L)"

section \<open>The generated functions\<close>

text \<open>
  \<open>DeepCopyInto\<close> gives the struct it writes into \<open>out\<close>, which starts as \<open>*in\<close>. The copy of a slice of strings is
  \<open>copy(*out, *in)\<close>, of a slice of structs a loop over \<open>DeepCopyInto\<close>, of a map a loop over its entries.
\<close>

definition copyStringMap :: "ref \<Rightarrow> 'x store \<Rightarrow> (ref \<times> 'x store) option" where
  "copyStringMap = copyRef (copyAt (at_type is_StringMap un_StringMap) StringMap assign)"

definition copyStrings :: "slice \<Rightarrow> 'x store \<Rightarrow> (slice \<times> 'x store) option" where
  "copyStrings = copyRef (copySlice (at_type is_Strings un_Strings) Strings assign)"

definition ActionStatus_DeepCopyInto :: "addr \<Rightarrow> 'x store \<Rightarrow> (addr \<times> 'x store) option" where
  "ActionStatus_DeepCopyInto = copyAt (at_type is_StringMap un_StringMap) StringMap assign"

definition ClusterAction_DeepCopyInto :: "m_action \<Rightarrow> 'x store \<Rightarrow> (m_action \<times> 'x store) option" where
  "ClusterAction_DeepCopyInto a h = do {
     (args, h) \<leftarrow> copyStringMap (ma_Args a) h;
     Some (a\<lparr>ma_Args := args\<rparr>, h)
   }"

definition ClusterCondition_DeepCopyInto :: "cluster_condition \<Rightarrow> 'x store \<Rightarrow> (cluster_condition \<times> 'x store) option" where
  "ClusterCondition_DeepCopyInto c h = do {
     (t, h) \<leftarrow> assign (cond_LastTransitionTime c) h;
     Some (c\<lparr>cond_LastTransitionTime := t\<rparr>, h)
   }"

definition DebugOptions_DeepCopyInto :: "debug_options \<Rightarrow> 'x store \<Rightarrow> (debug_options \<times> 'x store) option" where
  "DebugOptions_DeepCopyInto d = assign d"

definition NVMeshCSI_DeepCopyInto :: "nvmesh_csi \<Rightarrow> 'x store \<Rightarrow> (nvmesh_csi \<times> 'x store) option" where
  "NVMeshCSI_DeepCopyInto c = assign c"

definition OperatorFileServerSpec_DeepCopyInto ::
  "operator_file_server_spec \<Rightarrow> 'x store \<Rightarrow> (operator_file_server_spec \<times> 'x store) option" where
  "OperatorFileServerSpec_DeepCopyInto f = assign f"

definition ExcludeNVMeDrivesSpec_DeepCopyInto :: "m_exclude \<Rightarrow> 'x store \<Rightarrow> (m_exclude \<times> 'x store) option" where
  "ExcludeNVMeDrivesSpec_DeepCopyInto x h = do {
     (serials, h) \<leftarrow> copyStrings (mx_SerialNumbers x) h;
     (paths, h) \<leftarrow> copyStrings (mx_DevicePaths x) h;
     Some (x\<lparr>mx_SerialNumbers := serials, mx_DevicePaths := paths\<rparr>, h)
   }"

definition MongoDBCluster_DeepCopyInto :: "'x copy_lib \<Rightarrow> 'x m_mongo \<Rightarrow> 'x store \<Rightarrow> ('x m_mongo \<times> 'x store) option" where
  "MongoDBCluster_DeepCopyInto L m h = do {
     (claim, h) \<leftarrow> PersistentVolumeClaimSpec_DeepCopyInto L (mm_DataVolumeClaim m) h;
     Some (m\<lparr>mm_DataVolumeClaim := claim\<rparr>, h)
   }"

definition NVMeshCore_DeepCopyInto :: "m_core \<Rightarrow> 'x store \<Rightarrow> (m_core \<times> 'x store) option" where
  "NVMeshCore_DeepCopyInto c h = do {
     (drives, h) \<leftarrow> copyRef (copyAt (at_type is_Exclude un_Exclude) Exclude ExcludeNVMeDrivesSpec_DeepCopyInto) (mc_ExcludeDrives c) h;
     Some (c\<lparr>mc_ExcludeDrives := drives\<rparr>, h)
   }"

definition NVMeshManagement_DeepCopyInto :: "'x copy_lib \<Rightarrow> 'x m_management \<Rightarrow> 'x store \<Rightarrow> ('x m_management \<times> 'x store) option" where
  "NVMeshManagement_DeepCopyInto L m h = do {
     (mongo, h) \<leftarrow> MongoDBCluster_DeepCopyInto L (mg_MongoDB m) h;
     (ips, h) \<leftarrow> copyStrings (mg_ExternalIPs m) h;
     (claim, h) \<leftarrow> PersistentVolumeClaimSpec_DeepCopyInto L (mg_BackupsVolumeClaim m) h;
     Some (m\<lparr>mg_MongoDB := mongo, mg_ExternalIPs := ips, mg_BackupsVolumeClaim := claim\<rparr>, h)
   }"

definition NVMeshOperatorSpec_DeepCopyInto :: "m_operator \<Rightarrow> 'x store \<Rightarrow> (m_operator \<times> 'x store) option" where
  "NVMeshOperatorSpec_DeepCopyInto p h = do {
     (server, h) \<leftarrow> copyRef (copyAt (at_type is_FileServer un_FileServer) FileServer assign) (mp_FileServer p) h;
     Some (p\<lparr>mp_FileServer := server\<rparr>, h)
   }"

definition copyActions :: "slice \<Rightarrow> 'x store \<Rightarrow> (slice \<times> 'x store) option" where
  "copyActions = copyRef (copySlice (at_type is_Actions un_Actions) Actions ClusterAction_DeepCopyInto)"

definition copyConditions :: "slice \<Rightarrow> 'x store \<Rightarrow> (slice \<times> 'x store) option" where
  "copyConditions = copyRef (copySlice (at_type is_Conditions un_Conditions) Conditions ClusterCondition_DeepCopyInto)"

definition NVMeshSpec_DeepCopyInto :: "'x copy_lib \<Rightarrow> 'x m_spec \<Rightarrow> 'x store \<Rightarrow> ('x m_spec \<times> 'x store) option" where
  "NVMeshSpec_DeepCopyInto L s h = do {
     (cor, h) \<leftarrow> NVMeshCore_DeepCopyInto (ms_Core s) h;
     (man, h) \<leftarrow> NVMeshManagement_DeepCopyInto L (ms_Management s) h;
     (oper, h) \<leftarrow> NVMeshOperatorSpec_DeepCopyInto (ms_Operator s) h;
     (actions, h) \<leftarrow> copyActions (ms_Actions s) h;
     Some (s\<lparr>ms_Core := cor, ms_Management := man, ms_Operator := oper, ms_Actions := actions\<rparr>, h)
   }"

text \<open>The statuses of the actions: a map to maps, some of which may be nil.\<close>

definition copyStatusEntry :: "string \<times> ref \<Rightarrow> 'x store \<Rightarrow> ((string \<times> ref) \<times> 'x store) option" where
  "copyStatusEntry = copyPair assign copyStringMap"

definition copyStatusMap :: "ref \<Rightarrow> 'x store \<Rightarrow> (ref \<times> 'x store) option" where
  "copyStatusMap = copyRef (copyAt (at_type is_StatusMap un_StatusMap) StatusMap (copyElems copyStatusEntry))"

definition NVMeshStatus_DeepCopyInto :: "m_status \<Rightarrow> 'x store \<Rightarrow> (m_status \<times> 'x store) option" where
  "NVMeshStatus_DeepCopyInto t h = do {
     (statuses, h) \<leftarrow> copyStatusMap (mt_ActionsStatus t) h;
     (conditions, h) \<leftarrow> copyConditions (mt_Conditions t) h;
     Some (t\<lparr>mt_ActionsStatus := statuses, mt_Conditions := conditions\<rparr>, h)
   }"

definition NVMesh_DeepCopyInto :: "'x copy_lib \<Rightarrow> 'x m_nvmesh \<Rightarrow> 'x store \<Rightarrow> ('x m_nvmesh \<times> 'x store) option" where
  "NVMesh_DeepCopyInto L n h = do {
     (meta, h) \<leftarrow> ObjectMeta_DeepCopyInto L (mn_ObjectMeta n) h;
     (sp, h) \<leftarrow> NVMeshSpec_DeepCopyInto L (mn_Spec n) h;
     (st, h) \<leftarrow> NVMeshStatus_DeepCopyInto (mn_Status n) h;
     Some (n\<lparr>mn_ObjectMeta := meta, mn_Spec := sp, mn_Status := st\<rparr>, h)
   }"

definition copyItems :: "'x copy_lib \<Rightarrow> slice \<Rightarrow> 'x store \<Rightarrow> (slice \<times> 'x store) option" where
  "copyItems L = copyRef (copySlice (at_type is_Items un_Items) Items (NVMesh_DeepCopyInto L))"

definition NVMeshList_DeepCopyInto :: "'x copy_lib \<Rightarrow> 'x m_nvmesh_list \<Rightarrow> 'x store \<Rightarrow> ('x m_nvmesh_list \<times> 'x store) option" where
  "NVMeshList_DeepCopyInto L n h = do {
     (meta, h) \<leftarrow> ListMeta_DeepCopyInto L (ml_ListMeta n) h;
     (its, h) \<leftarrow> copyItems L (ml_Items n) h;
     Some (n\<lparr>ml_ListMeta := meta, ml_Items := its\<rparr>, h)
   }"

text \<open>\<open>DeepCopy\<close>: nil for nil, and otherwise a new struct and the copy into it.\<close>

definition ActionStatus_DeepCopy :: "ref \<Rightarrow> 'x store \<Rightarrow> (ref \<times> 'x store) option" where
  "ActionStatus_DeepCopy = copyRef ActionStatus_DeepCopyInto"

definition ClusterAction_DeepCopy :: "ref \<Rightarrow> 'x store \<Rightarrow> (ref \<times> 'x store) option" where
  "ClusterAction_DeepCopy = copyRef (copyAt (at_type is_Action un_Action) Action ClusterAction_DeepCopyInto)"

definition ClusterCondition_DeepCopy :: "ref \<Rightarrow> 'x store \<Rightarrow> (ref \<times> 'x store) option" where
  "ClusterCondition_DeepCopy = copyRef (copyAt (at_type is_Condition un_Condition) Condition ClusterCondition_DeepCopyInto)"

definition DebugOptions_DeepCopy :: "ref \<Rightarrow> 'x store \<Rightarrow> (ref \<times> 'x store) option" where
  "DebugOptions_DeepCopy = copyRef (copyAt (at_type is_DebugOpts un_DebugOpts) DebugOpts DebugOptions_DeepCopyInto)"

definition ExcludeNVMeDrivesSpec_DeepCopy :: "ref \<Rightarrow> 'x store \<Rightarrow> (ref \<times> 'x store) option" where
  "ExcludeNVMeDrivesSpec_DeepCopy = copyRef (copyAt (at_type is_Exclude un_Exclude) Exclude ExcludeNVMeDrivesSpec_DeepCopyInto)"

definition MongoDBCluster_DeepCopy :: "'x copy_lib \<Rightarrow> ref \<Rightarrow> 'x store \<Rightarrow> (ref \<times> 'x store) option" where
  "MongoDBCluster_DeepCopy L = copyRef (copyAt (at_type is_Mongo un_Mongo) Mongo (MongoDBCluster_DeepCopyInto L))"

definition NVMesh_DeepCopy :: "'x copy_lib \<Rightarrow> ref \<Rightarrow> 'x store \<Rightarrow> (ref \<times> 'x store) option" where
  "NVMesh_DeepCopy L = copyRef (copyAt (at_type is_NVMesh un_NVMesh) NVMesh (NVMesh_DeepCopyInto L))"

text \<open>\<open>DeepCopyObject\<close> turns a nil pointer into a nil interface.\<close>

definition NVMesh_DeepCopyObject :: "'x copy_lib \<Rightarrow> ref \<Rightarrow> 'x store \<Rightarrow> (ref \<times> 'x store) option" where
  "NVMesh_DeepCopyObject L p h = do {
     (c, h) \<leftarrow> NVMesh_DeepCopy L p h;
     Some (case c of None \<Rightarrow> None | Some a \<Rightarrow> Some a, h)
   }"

definition NVMeshCSI_DeepCopy :: "ref \<Rightarrow> 'x store \<Rightarrow> (ref \<times> 'x store) option" where
  "NVMeshCSI_DeepCopy = copyRef (copyAt (at_type is_CSI un_CSI) CSI NVMeshCSI_DeepCopyInto)"

definition NVMeshCore_DeepCopy :: "ref \<Rightarrow> 'x store \<Rightarrow> (ref \<times> 'x store) option" where
  "NVMeshCore_DeepCopy = copyRef (copyAt (at_type is_Core un_Core) Core NVMeshCore_DeepCopyInto)"

definition NVMeshList_DeepCopy :: "'x copy_lib \<Rightarrow> ref \<Rightarrow> 'x store \<Rightarrow> (ref \<times> 'x store) option" where
  "NVMeshList_DeepCopy L = copyRef (copyAt (at_type is_NVMeshList un_NVMeshList) NVMeshList (NVMeshList_DeepCopyInto L))"

definition NVMeshList_DeepCopyObject :: "'x copy_lib \<Rightarrow> ref \<Rightarrow> 'x store \<Rightarrow> (ref \<times> 'x store) option" where
  "NVMeshList_DeepCopyObject L p h = do {
     (c, h) \<leftarrow> NVMeshList_DeepCopy L p h;
     Some (case c of None \<Rightarrow> None | Some a \<Rightarrow> Some a, h)
   }"

definition NVMeshManagement_DeepCopy :: "'x copy_lib \<Rightarrow> ref \<Rightarrow> 'x store \<Rightarrow> (ref \<times> 'x store) option" where
  "NVMeshManagement_DeepCopy L = copyRef (copyAt (at_type is_Management un_Management) Management (NVMeshManagement_DeepCopyInto L))"

definition NVMeshOperatorSpec_DeepCopy :: "ref \<Rightarrow> 'x store \<Rightarrow> (ref \<times> 'x store) option" where
  "NVMeshOperatorSpec_DeepCopy = copyRef (copyAt (at_type is_Operator un_Operator) Operator NVMeshOperatorSpec_DeepCopyInto)"

definition NVMeshSpec_DeepCopy :: "'x copy_lib \<Rightarrow> ref \<Rightarrow> 'x store \<Rightarrow> (ref \<times> 'x store) option" where
  "NVMeshSpec_DeepCopy L = copyRef (copyAt (at_type is_Spec un_Spec) Spec (NVMeshSpec_DeepCopyInto L))"

definition NVMeshStatus_DeepCopy :: "ref \<Rightarrow> 'x store \<Rightarrow> (ref \<times> 'x store) option" where
  "NVMeshStatus_DeepCopy = copyRef (copyAt (at_type is_Status un_Status) Status NVMeshStatus_DeepCopyInto)"

definition OperatorFileServerSpec_DeepCopy :: "ref \<Rightarrow> 'x store \<Rightarrow> (ref \<times> 'x store) option" where
  "OperatorFileServerSpec_DeepCopy = copyRef (copyAt (at_type is_FileServer un_FileServer) FileServer OperatorFileServerSpec_DeepCopyInto)"

section \<open>The values in a store\<close>

definition stringMapRep :: "('x cell, ref, labels option) rep" where
  "stringMapRep = refRep (at_type is_StringMap un_StringMap) (plain (\<lambda>m. m))"

definition stringsRep :: "('x cell, slice, string list option) rep" where
  "stringsRep = sliceRep (at_type is_Strings un_Strings) (plain (\<lambda>s. s))"

definition actionRep :: "('x cell, m_action, cluster_action) rep" where
  "actionRep = structRep stringMapRep ma_Args (\<lambda>a args. \<lparr>act_Name = ma_Name a, act_Args = args\<rparr>)"

definition conditionRep :: "('x cell, cluster_condition, cluster_condition) rep" where
  "conditionRep = structRep (plain (\<lambda>t. t)) cond_LastTransitionTime (\<lambda>c t. c\<lparr>cond_LastTransitionTime := t\<rparr>)"

definition excludeRep :: "('x cell, m_exclude, exclude_nvme_drives_spec) rep" where
  "excludeRep = structRep (pairRep stringsRep stringsRep) (\<lambda>x. (mx_SerialNumbers x, mx_DevicePaths x))
     (\<lambda>x (serials, paths). \<lparr>ex_SerialNumbers = serials, ex_DevicePaths = paths\<rparr>)"

definition coreRep :: "('x cell, m_core, nvmesh_core) rep" where
  "coreRep = structRep (refRep (at_type is_Exclude un_Exclude) excludeRep) mc_ExcludeDrives
     (\<lambda>c drives. \<lparr>core_Version = mc_Version c, core_ImageRegistry = mc_ImageRegistry c, core_ImageVersionTag = mc_ImageVersionTag c,
        core_Disabled = mc_Disabled c, core_ConfiguredNICs = mc_ConfiguredNICs c, core_TCPOnly = mc_TCPOnly c,
        core_AzureOptimized = mc_AzureOptimized c, core_ExcludeDrives = drives, core_ModuleParams = mc_ModuleParams c\<rparr>)"

definition libRep :: "'x copy_lib \<Rightarrow> ('x copy_lib \<Rightarrow> 'x store \<Rightarrow> 'x \<Rightarrow> 'v) \<Rightarrow> ('x cell, 'x, 'v) rep" where
  "libRep L v = \<lparr>r_good = lib_good L, r_view = v L, r_refs = lib_refs L\<rparr>"

definition mongoRep :: "'x copy_lib \<Rightarrow> ('x cell, 'x m_mongo, mongodb_cluster) rep" where
  "mongoRep L = structRep (libRep L lib_PvcSpec) mm_DataVolumeClaim
     (\<lambda>m claim. \<lparr>mongo_External = mm_External m, mongo_Address = mm_Address m, mongo_DataVolumeClaim = claim\<rparr>)"

definition managementRep :: "'x copy_lib \<Rightarrow> ('x cell, 'x m_management, nvmesh_management) rep" where
  "managementRep L = structRep (pairRep (mongoRep L) (pairRep stringsRep (libRep L lib_PvcSpec)))
     (\<lambda>m. (mg_MongoDB m, mg_ExternalIPs m, mg_BackupsVolumeClaim m))
     (\<lambda>m (mongo, ips, claim). \<lparr>mgmt_Version = mg_Version m, mgmt_ImageRegistry = mg_ImageRegistry m, mgmt_Replicas = mg_Replicas m,
        mgmt_MongoDB = mongo, mgmt_ExternalIPs = ips, mgmt_NoSSL = mg_NoSSL m, mgmt_Disabled = mg_Disabled m,
        mgmt_BackupsVolumeClaim = claim, mgmt_DisableAutoFormatDrives = mg_DisableAutoFormatDrives m,
        mgmt_DisableAutoEvictMissingDrives = mg_DisableAutoEvictMissingDrives m\<rparr>)"

definition operatorRep :: "('x cell, m_operator, nvmesh_operator_spec) rep" where
  "operatorRep = structRep (refRep (at_type is_FileServer un_FileServer) (plain (\<lambda>f. f))) mp_FileServer
     (\<lambda>p server. \<lparr>op_IgnoreVolumeAttachmentOnDelete = mp_IgnoreVolumeAttachmentOnDelete p,
        op_IgnorePersistentVolumesOnDelete = mp_IgnorePersistentVolumesOnDelete p, op_SkipUninstall = mp_SkipUninstall p,
        op_FileServer = server\<rparr>)"

text \<open>nil and the empty slice are one list in ApiTypes.\<close>

definition elementsOf :: "'a list option \<Rightarrow> 'a list" where
  "elementsOf xs = (case xs of None \<Rightarrow> [] | Some xs \<Rightarrow> xs)"

definition specRep :: "'x copy_lib \<Rightarrow> ('x cell, 'x m_spec, nvmesh_spec) rep" where
  "specRep L = structRep
     (pairRep coreRep (pairRep (managementRep L) (pairRep operatorRep (sliceRep (at_type is_Actions un_Actions) actionRep))))
     (\<lambda>s. (ms_Core s, ms_Management s, ms_Operator s, ms_Actions s))
     (\<lambda>s (cor, man, oper, actions). \<lparr>spec_Core = cor, spec_Management = man, spec_CSI = ms_CSI s, spec_Operator = oper,
        spec_Debug = ms_Debug s, spec_Actions = elementsOf actions\<rparr>)"

definition statusMapRep :: "('x cell, ref, (string \<times> labels option) list option) rep" where
  "statusMapRep = refRep (at_type is_StatusMap un_StatusMap) (elemsRep (pairRep (plain (\<lambda>k. k)) stringMapRep))"

definition statusRep :: "('x cell, m_status, nvmesh_status) rep" where
  "statusRep = structRep (pairRep statusMapRep (sliceRep (at_type is_Conditions un_Conditions) conditionRep))
     (\<lambda>t. (mt_ActionsStatus t, mt_Conditions t))
     (\<lambda>t (statuses, conditions). \<lparr>st_WebUIURL = mt_WebUIURL t,
        st_ActionsStatus = map_option (map (\<lambda>(k, m). (k, elementsOf m))) statuses, st_Conditions = elementsOf conditions\<rparr>)"

definition nvmeshRep :: "'x copy_lib \<Rightarrow> ('x cell, 'x m_nvmesh, type_meta \<times> nvmesh) rep" where
  "nvmeshRep L = structRep (pairRep (libRep L lib_ObjectMeta) (pairRep (specRep L) statusRep))
     (\<lambda>n. (mn_ObjectMeta n, mn_Spec n, mn_Status n))
     (\<lambda>n (meta, sp, st). (mn_TypeMeta n, \<lparr>cr_ObjectMeta = meta, cr_Spec = sp, cr_Status = st\<rparr>))"

definition nvmeshListRep :: "'x copy_lib \<Rightarrow> ('x cell, 'x m_nvmesh_list, type_meta \<times> list_meta \<times> (type_meta \<times> nvmesh) list option) rep" where
  "nvmeshListRep L = structRep (pairRep (libRep L lib_ListMeta) (sliceRep (at_type is_Items un_Items) (nvmeshRep L)))
     (\<lambda>n. (ml_ListMeta n, ml_Items n)) (\<lambda>n (meta, its). (ml_TypeMeta n, meta, its))"

section \<open>Every function is a deep copy\<close>

lemma at_type_simps [simp]:
  "at_type is_StringMap un_StringMap (StringMap m) = Some m" "at_type is_Strings un_Strings (Strings xs) = Some xs"
  "at_type is_StatusMap un_StatusMap (StatusMap ms) = Some ms" "at_type is_Actions un_Actions (Actions as) = Some as"
  "at_type is_Conditions un_Conditions (Conditions cs) = Some cs" "at_type is_Items un_Items (Items ns) = Some ns"
  "at_type is_Exclude un_Exclude (Exclude x) = Some x" "at_type is_FileServer un_FileServer (FileServer f) = Some f"
  "at_type is_NVMesh un_NVMesh (NVMesh n) = Some n" "at_type is_NVMeshList un_NVMeshList (NVMeshList l) = Some l"
  by (simp_all add: at_type_def)

lemma copies_stringMap [copies_intro]: "deepCopies stringMapRep copyStringMap"
  unfolding stringMapRep_def copyStringMap_def by (intro copies_ref copies_intro) simp

lemma copies_strings [copies_intro]: "deepCopies stringsRep copyStrings"
  unfolding stringsRep_def copyStrings_def by (intro copies_slice copies_intro) simp

lemma copies_action [copies_intro]: "deepCopies actionRep ClusterAction_DeepCopyInto"
  unfolding actionRep_def
  by (rule copies_struct [OF copies_stringMap, where upd = "\<lambda>args. ma_Args_update (\<lambda>_. args)"])
    (simp_all add: ClusterAction_DeepCopyInto_def)

lemma copies_condition [copies_intro]: "deepCopies conditionRep ClusterCondition_DeepCopyInto"
  unfolding conditionRep_def
  by (rule copies_struct [OF copies_plain, where upd = "\<lambda>t. cond_LastTransitionTime_update (\<lambda>_. t)"])
    (simp_all add: ClusterCondition_DeepCopyInto_def)

lemma copies_exclude [copies_intro]: "deepCopies excludeRep ExcludeNVMeDrivesSpec_DeepCopyInto"
  unfolding excludeRep_def
  by (rule copies_struct [OF copies_pair [OF copies_strings copies_strings],
        where upd = "\<lambda>(serials, paths) x. x\<lparr>mx_SerialNumbers := serials, mx_DevicePaths := paths\<rparr>"])
    (simp_all add: ExcludeNVMeDrivesSpec_DeepCopyInto_def copyPair_def split_def)

lemma copies_core [copies_intro]: "deepCopies coreRep NVMeshCore_DeepCopyInto"
  unfolding coreRep_def
  by (rule copies_struct [OF copies_ref [OF copies_exclude], where upd = "\<lambda>drives. mc_ExcludeDrives_update (\<lambda>_. drives)"])
    (simp_all add: NVMeshCore_DeepCopyInto_def)

lemma copies_operator [copies_intro]: "deepCopies operatorRep NVMeshOperatorSpec_DeepCopyInto"
  unfolding operatorRep_def
  by (rule copies_struct [OF copies_ref [OF copies_plain], where upd = "\<lambda>server. mp_FileServer_update (\<lambda>_. server)"])
    (simp_all add: NVMeshOperatorSpec_DeepCopyInto_def)

lemma copies_actions [copies_intro]: "deepCopies (sliceRep (at_type is_Actions un_Actions) actionRep) copyActions"
  unfolding copyActions_def by (intro copies_slice copies_intro) simp

lemma copies_conditions [copies_intro]: "deepCopies (sliceRep (at_type is_Conditions un_Conditions) conditionRep) copyConditions"
  unfolding copyConditions_def by (intro copies_slice copies_intro) simp

lemma copies_statusMap [copies_intro]: "deepCopies statusMapRep copyStatusMap"
  unfolding statusMapRep_def copyStatusMap_def copyStatusEntry_def by (intro copies_ref copies_intro) simp

lemma copies_status [copies_intro]: "deepCopies statusRep NVMeshStatus_DeepCopyInto"
  unfolding statusRep_def
  by (rule copies_struct [OF copies_pair [OF copies_statusMap copies_conditions],
        where upd = "\<lambda>(statuses, conditions) t. t\<lparr>mt_ActionsStatus := statuses, mt_Conditions := conditions\<rparr>"])
    (simp_all add: NVMeshStatus_DeepCopyInto_def copyPair_def split_def)

lemma copies_lib:
  assumes "documentedCopies L"
  shows "deepCopies (libRep L lib_ObjectMeta) (ObjectMeta_DeepCopyInto L)"
    and "deepCopies (libRep L lib_ListMeta) (ListMeta_DeepCopyInto L)"
    and "deepCopies (libRep L lib_PvcSpec) (PersistentVolumeClaimSpec_DeepCopyInto L)"
  using assms by (simp_all add: documentedCopies_def deepCopies_def libRep_def)

lemma copies_mongo: "documentedCopies L \<Longrightarrow> deepCopies (mongoRep L) (MongoDBCluster_DeepCopyInto L)"
  unfolding mongoRep_def
  by (rule copies_struct [OF copies_lib(3), where upd = "\<lambda>claim. mm_DataVolumeClaim_update (\<lambda>_. claim)"])
    (simp_all add: MongoDBCluster_DeepCopyInto_def)

lemma copies_management: "documentedCopies L \<Longrightarrow> deepCopies (managementRep L) (NVMeshManagement_DeepCopyInto L)"
  unfolding managementRep_def
  by (rule copies_struct [OF copies_pair [OF copies_mongo copies_pair [OF copies_strings copies_lib(3)]],
        where upd = "\<lambda>(mongo, ips, claim) m. m\<lparr>mg_MongoDB := mongo, mg_ExternalIPs := ips, mg_BackupsVolumeClaim := claim\<rparr>"])
    (simp_all add: NVMeshManagement_DeepCopyInto_def copyPair_def split_def)

lemma copies_spec: "documentedCopies L \<Longrightarrow> deepCopies (specRep L) (NVMeshSpec_DeepCopyInto L)"
  unfolding specRep_def
  by (rule copies_struct [OF copies_pair [OF copies_core copies_pair [OF copies_management copies_pair [OF copies_operator copies_actions]]],
        where upd = "\<lambda>(cor, man, oper, actions) s. s\<lparr>ms_Core := cor, ms_Management := man, ms_Operator := oper, ms_Actions := actions\<rparr>"])
    (simp_all add: NVMeshSpec_DeepCopyInto_def copyPair_def split_def)

lemma copies_nvmesh: "documentedCopies L \<Longrightarrow> deepCopies (nvmeshRep L) (NVMesh_DeepCopyInto L)"
  unfolding nvmeshRep_def
  by (rule copies_struct [OF copies_pair [OF copies_lib(1) copies_pair [OF copies_spec copies_status]],
        where upd = "\<lambda>(meta, sp, st) n. n\<lparr>mn_ObjectMeta := meta, mn_Spec := sp, mn_Status := st\<rparr>"])
    (simp_all add: NVMesh_DeepCopyInto_def copyPair_def split_def)

lemma copies_items: "documentedCopies L \<Longrightarrow> deepCopies (sliceRep (at_type is_Items un_Items) (nvmeshRep L)) (copyItems L)"
  unfolding copyItems_def by (intro copies_slice copies_nvmesh) simp_all

lemma copies_nvmeshList: "documentedCopies L \<Longrightarrow> deepCopies (nvmeshListRep L) (NVMeshList_DeepCopyInto L)"
  unfolding nvmeshListRep_def
  by (rule copies_struct [OF copies_pair [OF copies_lib(2) copies_items],
        where upd = "\<lambda>(meta, its) n. n\<lparr>ml_ListMeta := meta, ml_Items := its\<rparr>"])
    (simp_all add: NVMeshList_DeepCopyInto_def copyPair_def split_def)

text \<open>The contracts of Store, on the parts of the resource that need no library.\<close>

interpretation stringMaps: deep_copy "r_good stringMapRep" "r_view stringMapRep" "r_refs stringMapRep" copyStringMap
  by (rule copies_stringMap [unfolded deepCopies_def])

interpretation clusterActions: deep_copy "r_good actionRep" "r_view actionRep" "r_refs actionRep" ClusterAction_DeepCopyInto
  by (rule copies_action [unfolded deepCopies_def])

interpretation coreSpecs: deep_copy "r_good coreRep" "r_view coreRep" "r_refs coreRep" NVMeshCore_DeepCopyInto
  by (rule copies_core [unfolded deepCopies_def])

interpretation statuses: deep_copy "r_good statusRep" "r_view statusRep" "r_refs statusRep" NVMeshStatus_DeepCopyInto
  by (rule copies_status [unfolded deepCopies_def])

text \<open>A status written through the copy, as the operator writes its task statuses, is not seen through the original.\<close>

lemma status_write_unseen:
  assumes "r_good statusRep h t" and "NVMeshStatus_DeepCopyInto t h = Some (u, h')" and "length h \<le> a"
  shows "r_view statusRep (h'[a := c]) t = r_view statusRep h t"
  by (rule statuses.independent(2) [OF assms(1,2)]) (use assms(3) in simp_all)

section \<open>Pointers to resources\<close>

definition nvmeshPtr :: "'x copy_lib \<Rightarrow> ('x cell, ref, (type_meta \<times> nvmesh) option) rep" where
  "nvmeshPtr L = refRep (at_type is_NVMesh un_NVMesh) (nvmeshRep L)"

definition nvmeshListPtr :: "'x copy_lib \<Rightarrow> ('x cell, ref, (type_meta \<times> list_meta \<times> (type_meta \<times> nvmesh) list option) option) rep" where
  "nvmeshListPtr L = refRep (at_type is_NVMeshList un_NVMeshList) (nvmeshListRep L)"

lemma copies_nvmeshPtr: "documentedCopies L \<Longrightarrow> deepCopies (nvmeshPtr L) (NVMesh_DeepCopy L)"
  unfolding nvmeshPtr_def NVMesh_DeepCopy_def by (intro copies_ref copies_nvmesh) simp_all

lemma copies_nvmeshListPtr: "documentedCopies L \<Longrightarrow> deepCopies (nvmeshListPtr L) (NVMeshList_DeepCopy L)"
  unfolding nvmeshListPtr_def NVMeshList_DeepCopy_def by (intro copies_ref copies_nvmeshList) simp_all

lemma case_option_id: "(case c of None \<Rightarrow> None | Some a \<Rightarrow> Some a) = c"
  by (cases c) simp_all

lemma DeepCopyObject_eq:
  "NVMesh_DeepCopyObject L = NVMesh_DeepCopy L" "NVMeshList_DeepCopyObject L = NVMeshList_DeepCopy L"
  by (intro ext, simp add: NVMesh_DeepCopyObject_def NVMeshList_DeepCopyObject_def case_option_id)+

text \<open>The other \<open>DeepCopy\<close> functions.\<close>

lemma copies_pointers:
  "deepCopies (refRep (at_type is_StringMap un_StringMap) (plain (\<lambda>m. m))) ActionStatus_DeepCopy"
  "deepCopies (refRep (at_type is_Action un_Action) actionRep) ClusterAction_DeepCopy"
  "deepCopies (refRep (at_type is_Condition un_Condition) conditionRep) ClusterCondition_DeepCopy"
  "deepCopies (refRep (at_type is_DebugOpts un_DebugOpts) (plain (\<lambda>d. d))) DebugOptions_DeepCopy"
  "deepCopies (refRep (at_type is_Exclude un_Exclude) excludeRep) ExcludeNVMeDrivesSpec_DeepCopy"
  "deepCopies (refRep (at_type is_CSI un_CSI) (plain (\<lambda>c. c))) NVMeshCSI_DeepCopy"
  "deepCopies (refRep (at_type is_Core un_Core) coreRep) NVMeshCore_DeepCopy"
  "deepCopies (refRep (at_type is_Operator un_Operator) operatorRep) NVMeshOperatorSpec_DeepCopy"
  "deepCopies (refRep (at_type is_Status un_Status) statusRep) NVMeshStatus_DeepCopy"
  "deepCopies (refRep (at_type is_FileServer un_FileServer) (plain (\<lambda>f. f))) OperatorFileServerSpec_DeepCopy"
  unfolding ActionStatus_DeepCopy_def ActionStatus_DeepCopyInto_def ClusterAction_DeepCopy_def ClusterCondition_DeepCopy_def
    DebugOptions_DeepCopy_def DebugOptions_DeepCopyInto_def ExcludeNVMeDrivesSpec_DeepCopy_def NVMeshCSI_DeepCopy_def
    NVMeshCSI_DeepCopyInto_def NVMeshCore_DeepCopy_def NVMeshOperatorSpec_DeepCopy_def NVMeshStatus_DeepCopy_def
    OperatorFileServerSpec_DeepCopy_def OperatorFileServerSpec_DeepCopyInto_def
  by (intro copies_ref copies_intro; simp add: at_type_def)+

lemma copies_lib_pointers:
  assumes "documentedCopies L"
  shows "deepCopies (refRep (at_type is_Mongo un_Mongo) (mongoRep L)) (MongoDBCluster_DeepCopy L)"
    and "deepCopies (refRep (at_type is_Management un_Management) (managementRep L)) (NVMeshManagement_DeepCopy L)"
    and "deepCopies (refRep (at_type is_Spec un_Spec) (specRep L)) (NVMeshSpec_DeepCopy L)"
  unfolding MongoDBCluster_DeepCopy_def NVMeshManagement_DeepCopy_def NVMeshSpec_DeepCopy_def
  by (intro copies_ref copies_mongo copies_management copies_spec assms; simp add: at_type_def)+

section \<open>Properties\<close>

text \<open>C19: A resource that is copied, as the client's cache copies every resource it hands out, is separate from its
  copy: copying does not panic and changes no cell, the copy has the same value, field by field through pointers, maps and slices, and is
  read from new cells only; so nothing written through one of the two, by any number of writes, shows in the
  other. A nil pointer is copied to nil.\<close>

theorem NVMesh_DeepCopyObject_separate:
  assumes "documentedCopies L" and "r_good (nvmeshPtr L) h p"
  shows "\<exists>q h'. NVMesh_DeepCopyObject L p h = Some (q, h') \<and> (q = None \<longleftrightarrow> p = None) \<and> separateCopy (nvmeshPtr L) h p h' q"
proof -
  from deepCopies_separate [OF copies_nvmeshPtr [OF assms(1)] assms(2)] obtain q h'
    where c: "NVMesh_DeepCopy L p h = Some (q, h')" "separateCopy (nvmeshPtr L) h p h' q" by blast
  from c(1) have "q = None \<longleftrightarrow> p = None"
    by (cases p) (auto simp: NVMesh_DeepCopy_def copyRef_def bind_case_prod_Some)
  with c show ?thesis by (simp add: DeepCopyObject_eq)
qed

text \<open>So are lists of resources, with every resource in them.\<close>

lemma NVMeshList_DeepCopyObject_separate:
  assumes "documentedCopies L" and "r_good (nvmeshListPtr L) h p"
  shows "\<exists>q h'. NVMeshList_DeepCopyObject L p h = Some (q, h') \<and> separateCopy (nvmeshListPtr L) h p h' q"
  using deepCopies_separate [OF copies_nvmeshListPtr [OF assms(1)] assms(2)] by (simp add: DeepCopyObject_eq)

text \<open>Libraries whose structs have no references.\<close>

definition valueLib :: "(cr_meta \<times> list_meta \<times> pvc_spec) copy_lib" where
  "valueLib = \<lparr>lib_good = \<lambda>h x. True, lib_refs = \<lambda>h x. {}, lib_ObjectMeta = \<lambda>h. fst, lib_ListMeta = \<lambda>h x. fst (snd x),
     lib_PvcSpec = \<lambda>h x. snd (snd x), ObjectMeta_DeepCopyInto = assign, ListMeta_DeepCopyInto = assign,
     PersistentVolumeClaimSpec_DeepCopyInto = assign\<rparr>"

lemma valueLib_documented: "documentedCopies valueLib"
  unfolding documentedCopies_def valueLib_def copy_lib.simps by (intro conjI assign_deep_copy)

definition sampleStruct :: "cr_meta \<times> list_meta \<times> pvc_spec" where
  "sampleStruct = (cr_ObjectMeta zeroNVMesh, \<lparr>lm_ResourceVersion = ''1'', lm_Continue = [], lm_RemainingItemCount = None\<rparr>, zeroPvcSpec)"

text \<open>A resource with drives to leave out and an action with an argument.\<close>

definition sampleStore :: "(cr_meta \<times> list_meta \<times> pvc_spec) store" where
  "sampleStore =
    [StringMap [(''nodes'', ''all'')],
     Actions [\<lparr>ma_Name = ''collect-logs'', ma_Args = Some 0\<rparr>],
     Strings [''/dev/nvme0n1'', ''/dev/nvme1n1''],
     Exclude \<lparr>mx_SerialNumbers = None, mx_DevicePaths = Some (2, 1, 1)\<rparr>,
     NVMesh \<lparr>mn_TypeMeta = (''NVMesh'', ''nvmesh.excelero.com/v1''), mn_ObjectMeta = sampleStruct,
       mn_Spec = \<lparr>
         ms_Core = \<lparr>mc_Version = ''2.2'', mc_ImageRegistry = [], mc_ImageVersionTag = [], mc_Disabled = False, mc_ConfiguredNICs = [],
           mc_TCPOnly = True, mc_AzureOptimized = False, mc_ExcludeDrives = Some 3, mc_ModuleParams = []\<rparr>,
         ms_Management = \<lparr>mg_Version = [], mg_ImageRegistry = [], mg_Replicas = 1,
           mg_MongoDB = \<lparr>mm_External = False, mm_Address = [], mm_DataVolumeClaim = sampleStruct\<rparr>, mg_ExternalIPs = None,
           mg_NoSSL = False, mg_Disabled = False, mg_BackupsVolumeClaim = sampleStruct, mg_DisableAutoFormatDrives = False,
           mg_DisableAutoEvictMissingDrives = False\<rparr>,
         ms_CSI = spec_CSI (cr_Spec zeroNVMesh),
         ms_Operator = \<lparr>mp_IgnoreVolumeAttachmentOnDelete = False, mp_IgnorePersistentVolumesOnDelete = False,
           mp_SkipUninstall = False, mp_FileServer = None\<rparr>,
         ms_Debug = spec_Debug (cr_Spec zeroNVMesh), ms_Actions = Some (1, 0, 1)\<rparr>,
       mn_Status = \<lparr>mt_WebUIURL = [], mt_ActionsStatus = None, mt_Conditions = None\<rparr>\<rparr>]"

theorem NVMesh_DeepCopyObject_separate_witness:
  "\<exists>h'. NVMesh_DeepCopyObject valueLib (Some 4) sampleStore = Some (Some 5, h') \<and> length h' = 10 \<and>
     separateCopy (nvmeshPtr valueLib) sampleStore (Some 4) h' (Some 5) \<and>
     map_option (spec_Actions \<circ> cr_Spec \<circ> snd) (r_view (nvmeshPtr valueLib) h' (Some 5)) =
       Some [\<lparr>act_Name = ''collect-logs'', act_Args = Some [(''nodes'', ''all'')]\<rparr>]"
proof -
  have good: "r_good (nvmeshPtr valueLib) sampleStore (Some 4)" by code_simp
  from NVMesh_DeepCopyObject_separate [OF valueLib_documented good] obtain q h'
    where c: "NVMesh_DeepCopyObject valueLib (Some 4) sampleStore = Some (q, h')"
      "separateCopy (nvmeshPtr valueLib) sampleStore (Some 4) h' q" by blast
  have "map_option (\<lambda>(q, h). (q, length h)) (NVMesh_DeepCopyObject valueLib (Some 4) sampleStore) = Some (Some 5, 10)"
    by code_simp
  with c have "q = Some 5" "length h' = 10" by simp_all
  moreover have "map_option (spec_Actions \<circ> cr_Spec \<circ> snd) (r_view (nvmeshPtr valueLib) sampleStore (Some 4)) =
      Some [\<lparr>act_Name = ''collect-logs'', act_Args = Some [(''nodes'', ''all'')]\<rparr>]" by code_simp
  ultimately show ?thesis using c by (auto simp: separateCopy_def)
qed

end
