(* ===== verification/Spec2Isabelle.thy ===== *)
theory Spec2Isabelle
  imports SteadyCycle Teardown Process DynamicClient DeepCopy
begin

text \<open>
  A model of the NVMesh Kubernetes operator (the Go code under src/pkg): a controller that keeps a
  storage cluster in the state a custom resource of kind NVMesh describes. controller-runtime calls
  \<open>Reconcile\<close> whenever the resource or an object the operator owns changes, or when an earlier
  call asked for another cycle. Everything the operator knows between two cycles is in the API server:
  in the objects it created, in the finalizers of the resource and in the task statuses and conditions
  of its status. The operations are Isabelle functions that pass the state along; the process around them,
  with its goroutines, is a relation between states.

  \<^bold>\<open>How Go is represented.\<close> A struct is a record, of the fields the code names. A function that reads
  or changes anything outside itself takes the state \<open>'w st\<close> last and returns
  \<open>(result \<times> 'w st) option\<close>, where \<open>None\<close> is a panic (a nil pointer followed, an index out of
  range, a failed type assertion; for the one loop that need not end, also no return). An error is a value of \<open>goerr option\<close>, \<open>None\<close> for nil; a Go function
  that returns a value or an error returns a sum or a pair, as its callers use it. An int32 is a
  \<open>32 word\<close>, read by \<open>sint\<close>. A map is an association list with distinct keys (\<open>gomap_ok\<close>); where Go
  ranges over one, the order is a parameter (\<open>mapOrder\<close>) or shown not to matter. A resource handed on by pointer is
  passed in and returned. Log lines are left out, with the requests they are computed from kept.

  \<^bold>\<open>What is outside the repository\<close> is the record \<open>kube\<close> of KubeClient: the API server behind the
  client, the MongoDB server behind its driver, the file system with the YAML assets, the clock, the YAML
  decoder and a few library functions, each over an arbitrary world \<open>'w\<close> that may change between
  any two calls. The theorems hold for every \<open>kube\<close>; where the code relies on documented behaviour it is a
  named hypothesis: \<open>retries\<close> (RetryOnConflict runs the function again on a conflict, up to some number of
  times, and returns the last result), \<open>ownerRefOnly\<close> (SetControllerReference changes owner references
  only), \<open>serves\<close> and \<open>losesOnlyDeleted\<close> (the server keeps what it accepted until it is deleted), \<open>staticAssets\<close>
  and \<open>staticDir\<close> (the files do not change), \<open>documentedWatches\<close> (which events controller-runtime turns into
  cycles), \<open>refersByMeta\<close> and \<open>statusSubresource\<close> (an owner reference is made from metadata; a write of the status
  touches nothing else), \<open>echoesStatus\<close> (it is answered with what was written), \<open>documentedCopies\<close> (the deep copies of the library's structs are deep). MemKube is a
  concrete server that meets those about the server, and the witnesses run on it or on variations of it. The state also
  records every request in order (\<open>reqs\<close>); no code reads it, the theorems speak about it.

  \<^bold>\<open>The theories, in the order of their imports.\<close>
  \<^item> Prelude: strings, numbers, maps and slices of Go; errors; shared lemmas.
  \<^item> KubeTypes, ApiTypes: the Kubernetes objects (fields as used) and the custom resource
    (api/v1/nvmesh_types.go, every field).
  \<^item> KubeClient: the parameters, the calls, the calculus \<open>steps\<close> of what a computation may do
    (rules \<open>steps_intro\<close>), RetryOnConflict.
  \<^item> Conditions (conditions/conditions.go), YamlUtils (yamlutils/yamlutils.go), ReflectUtils
    (reflectutils/object_json_path.go) and ReflectObjects (the two kinds of objects compared by it).
  \<^item> CtrlUtils (controllers/ctrl_utils.go): creating, updating and removing the objects of an asset
    directory. ComponentLoop: the contract of a component as the locales \<open>nvmesh_component\<close> and
    \<open>steady_component\<close> (what \<open>InitObject\<close> and \<open>ShouldUpdateObject\<close> must keep), and what the loop
    guarantees for any component: nothing deleted when creating, everything labelled and in the right
    namespace, everything on the server when no error is reported, no request when nothing changed.
  \<^item> CoreController, CsiController, MgmtController (core_controller.go, csi_controller.go,
    mgmt_controller.go with mongo_client.go): the three components, each with its interpretation of
    the contract (\<open>corec\<close>, \<open>csic\<close>, \<open>mgmtc\<close>). The core configuration file is shown to survive a round
    trip, and an update of it to converge.
  \<^item> Jobs (jobs.go), Validation (validation.go), ClusterNodes (the node look-ups of uninstall.go and
    collect_logs.go).
  \<^item> StatusUpdater (status_updater.go): \<open>UpdateStatus\<close>, \<open>ManageError\<close>, \<open>ManageSuccess\<close>.
  \<^item> TaskStatus and Actions (nvmesh_actions.go), CollectLogs (collect_logs.go): actions made of tasks
    that go on over several cycles. The locale \<open>task_store\<close> is the contract of the store of finished
    tasks (interpretation \<open>tasks\<close>); \<open>tasksDone\<close> is its abstraction, a counter; \<open>statusOk\<close>
    says that the statuses are maps.
  \<^item> Uninstall (uninstall.go): the eight stages; one cycle refines a step of the counter, and
    \<open>uninstallCycles\<close>, an inductive relation, strings cycles together to state the order of all their requests.
  \<^item> Finalizer (finalizer.go): the resource keeps its finalizer until the deletion is permitted and
    every stage is finished. Teardown: a deletion over many cycles comes to its end when the work of each stage succeeds once
    in a while.
  \<^item> DynamicClient: the rest of ctrl_utils.go, objects of kinds without a Go type. No code calls it.
  \<^item> NodeLabels (node_labels.go): the uninstallation of a node whose labels were removed.
  \<^item> Reconciler (nvmesh_controller.go): the components in turn, and the whole cycle. Deployment: what the
    three components achieve together, everything on the server at the end and, when it was there
    before, no write. SteadyCycle: whole cycles on a cluster that is as the resource asks, which go on for ever
    with the same requests and the same status.
  \<^item> Startup (main.go, operator_options.go, events.go): the command line, parsed as package flag does, and
    the set-up calls of the process with every way out.
  \<^item> Process (\<open>SetupWithManager\<close>, \<open>ListenToNodeLabels\<close>): the process as a relation between states, whose
    steps are arriving events, cycles, the calls of the goroutines of NodeLabels, the election, and changes others make. The
    goroutine taken call by call is shown to be the function of NodeLabels.
  \<^item> Store, DeepCopy (api/v1/zz_generated.deepcopy.go): memory as a list of cells, the contract of a deep copy as the locales
    \<open>shape\<close> and \<open>deep_copy\<close>, inherited by lists, pointers, maps, slices and structs, and every generated
    function as an instance.
  \<^item> This theory: what only the composition of the finalizer, the components, the status and the goroutines shows: a deletion
    that is not permitted starts nothing, over any number of cycles (\<open>operatorRun\<close>) and in any run of the process, and the task
    statuses stay maps.

  \<^bold>\<open>Bounds and termination.\<close> Every loop of the code but one runs over a finite list and is a structural
  recursion. The exception is the poll in \<open>uninstallAndWaitToFinish\<close>, a \<open>partial_function\<close>; it is
  characterised by the number of polls, and shown not to end for the names it cannot handle. The number of attempts
  of RetryOnConflict is open (\<open>retries\<close> says there is one), so no theorem depends on it. No fuel is used.

  \<^bold>\<open>Not modelled.\<close>
  \<^item> The libraries behind the set-up: of the manager, the informer and the event recorder only what they return and
    which events they deliver. api/v1/doc.go and groupversion_info.go hold markers and library values.
  \<^item> \<open>listenOnChanAndReconcile\<close>, a goroutine that only logs.
  \<^item> Finer interleavings than whole cycles and whole calls of a goroutine: the requests of another actor are changes of the
    world between two calls, which every theorem over all worlds covers; a goroutine shares no
    variable with the cycles.
  \<^item> Pointer aliasing between the resource and an object built from it (\<open>&cr.Spec.Management.Replicas\<close>):
    the objects hold the value the field had. Only the deep copies are on an explicit store.
\<close>

section \<open>A deletion that is not permitted\<close>

text \<open>What a cycle may ask for while the resource is being deleted and a volume is attached.\<close>

definition blockedRequest :: "nvmesh \<Rightarrow> request \<Rightarrow> bool" where
  "blockedRequest cr q \<longleftrightarrow>
     (case q of
        ReqCreate x \<Rightarrow> namespaceOf x = crNamespace cr \<and> hasOperatorLabels cr x
      | ReqUpdateStatus c \<Rightarrow> IsStatusConditionFalse (st_Conditions (cr_Status c)) Ready
      | ReqDelete _ \<Rightarrow> False
      | ReqUpdateCR _ \<Rightarrow> False
      | _ \<Rightarrow> True)"

lemma blockedRequest_simps [simp]:
  "isRead q \<Longrightarrow> blockedRequest cr q" "isUpdate q \<Longrightarrow> blockedRequest cr q" "blockedRequest cr (ReqStopWatch n)"
  "blockedRequest cr (ReqEvent c t r m)"
  "namespaceOf x = crNamespace cr \<Longrightarrow> hasOperatorLabels cr x \<Longrightarrow> blockedRequest cr (ReqCreate x)"
  "IsStatusConditionFalse (st_Conditions (cr_Status c)) Ready \<Longrightarrow> blockedRequest cr (ReqUpdateStatus c)"
  by (cases q; simp add: blockedRequest_def)+

lemma initializeEmptyFields_keeps [simp]:
  "cr_ObjectMeta (initializeEmptyFieldsOnCustomResource env cr) = cr_ObjectMeta cr"
  "oper (initializeEmptyFieldsOnCustomResource env cr) = oper cr"
  by (simp_all add: initializeEmptyFieldsOnCustomResource_def Let_def)

lemma initializeEmptyFields_names [simp]:
  "crNamespace (initializeEmptyFieldsOnCustomResource env cr) = crNamespace cr"
  "crName (initializeEmptyFieldsOnCustomResource env cr) = crName cr"
  by (simp_all add: crNamespace_def crName_def)

lemma initializeEmptyFields_labels [simp]:
  "hasOperatorLabels (initializeEmptyFieldsOnCustomResource env cr) = hasOperatorLabels cr"
  by (rule ext) (simp add: hasOperatorLabels_def split: option.split)

lemma emits_stopAllUnstructuredWatchers: "emits (blockedRequest cr) (stopAllUnstructuredWatchers env)"
proof -
  have "emits (blockedRequest cr) (stopWatchers env ws)" for ws
  proof (induction ws)
    case Nil
    show ?case unfolding stopWatchers.simps by (intro steps_intro)
  next
    case (Cons w ws)
    show ?case unfolding stopWatchers.simps by (intro steps_intro Cons emits_apiCall) simp
  qed
  then show ?thesis unfolding stopAllUnstructuredWatchers_def steps_def by blast
qed

definition stillAttached :: "'w kube \<Rightarrow> bool" where
  "stillAttached env \<longleftrightarrow> (\<forall>w. \<exists>vas w'. kListVolumeAttachments env w = ((None, vas), w') \<and> attachedHere vas)"

lemma handleFinalizer_blocked:
  assumes "isBeingDeleted cr" and "clusterFinalizerName \<in> set (crm_Finalizers (cr_ObjectMeta cr))"
    and "\<not> op_IgnoreVolumeAttachmentOnDelete (oper cr)" and "stillAttached env"
    and "handleFinalizer env cr s = Some (((result, err), cr'), s')"
  shows "cr' = cr" and "err \<noteq> None" and "grows isRead s s'"
proof -
  from assms(4) obtain vas w where "kListVolumeAttachments env (world s) = ((None, vas), w)" "attachedHere vas"
    unfolding stillAttached_def by blast
  with verifyNoVolumeAttachments_eq [of env s None vas w cr] have v: "e \<noteq> None"
    if "verifyNoVolumeAttachments env cr s = Some (e, t)" for e t
    using that by (auto split: if_splits)
  from assms(1,2,5) have run: "doBeforeDeletingNVMesh env cr s = Some (((result, err), cr'), s')"
    by (simp add: handleFinalizer_def hasFinalizer_def)
  have "isAllowedToDeleteCluster env cr s \<noteq> Some (None, t)" for t
    using v assms(3) by (auto simp: isAllowedToDeleteCluster_def bind_case_prod_Some split: if_splits)
  with run obtain e where a: "isAllowedToDeleteCluster env cr s = Some (Some e, s')" "err = Some e" "cr' = cr"
    by (cases rule: doBeforeDeleting_cases) auto
  then show "cr' = cr" "err \<noteq> None" "grows isRead s s'"
    using stepsD [OF emits_isAllowedToDeleteCluster a(1)] by simp_all
qed

text \<open>However the cycle fails, it is reported in the same way.\<close>

lemma blocked_report:
  assumes "retries (retryDefaultRetry env)" and "grows (blockedRequest cr) s t"
    and "ManageError env c e RequeueWithDefaultBackOff t = Some ((result, err), s')"
  shows "err = None \<and> Requeue result \<and> grows (blockedRequest cr) s s'"
proof -
  note r = ManageError_run [OF assms(1,3)]
  then have "grows (blockedRequest cr) t s'" by (auto elim: grows_mono)
  with assms(2) have "grows (blockedRequest cr) s s'" by (rule preord_trans [OF preord_grows])
  with r show ?thesis by (auto simp: RequeueWithDefaultBackOff_def requeueSoon_def)
qed

text \<open>What comes before the finalizer.\<close>

lemma emits_prologue:
  assumes "retries (retryDefaultBackoff env)" "ownerRefOnly env"
  shows "emits (blockedRequest cr) (\<lambda>s. do {
     (_, s) \<leftarrow> stopAllUnstructuredWatchers env s;
     makeSureServiceAccountExists env (initializeEmptyFieldsOnCustomResource env cr) s })"
proof -
  have "emits (blockedRequest cr) (makeSureServiceAccountExists env (initializeEmptyFieldsOnCustomResource env cr))"
    by (intro steps_makeSureServiceAccountExists allowsCreatesFor_grows assms) simp_all
  then show ?thesis by (intro steps_intro emits_stopAllUnstructuredWatchers)
qed

text \<open>The ways a cycle that got hold of the resource goes up to the finalizer.\<close>

lemma reconcileCR_cases:
  assumes "reconcileCR env cr s = Some (r, s')"
  obtains (invalid) e where "ManageError env (initializeEmptyFieldsOnCustomResource env cr) e RequeueWithDefaultBackOff s = Some (r, s')"
    | (account) e t where "(do { (_, s) \<leftarrow> stopAllUnstructuredWatchers env s;
          makeSureServiceAccountExists env (initializeEmptyFieldsOnCustomResource env cr) s }) = Some (Some e, t)"
        "ManageError env (initializeEmptyFieldsOnCustomResource env cr) e RequeueWithDefaultBackOff t = Some (r, s')"
    | (finalizer) t result err c u where "(do { (_, s) \<leftarrow> stopAllUnstructuredWatchers env s;
          makeSureServiceAccountExists env (initializeEmptyFieldsOnCustomResource env cr) s }) = Some (None, t)"
        "handleFinalizer env (initializeEmptyFieldsOnCustomResource env cr) t = Some (((result, err), c), u)"
        "(case err of
            Some err \<Rightarrow> ManageError env c err RequeueWithDefaultBackOff u
          | None \<Rightarrow> if Requeue result then ManageSuccess env (Some c) result u else reconcileRest env c u) = Some (r, s')"
proof -
  let ?cr = "initializeEmptyFieldsOnCustomResource env cr"
  show thesis
  proof (cases "isValid ?cr")
    case (Some e)
    with assms show thesis by (intro invalid [of e]) (simp add: reconcileCR_def Let_def)
  next
    case None
    from assms [unfolded reconcileCR_def Let_def None option.case] obtain w s1 e t
      where pro: "stopAllUnstructuredWatchers env s = Some (w, s1)" "makeSureServiceAccountExists env ?cr s1 = Some (e, t)"
        and rest: "(case e of
            Some err \<Rightarrow> ManageError env ?cr err RequeueWithDefaultBackOff t
          | None \<Rightarrow> do {
              (((finResult, err), cr), s) \<leftarrow> handleFinalizer env ?cr t;
              case err of
                Some err \<Rightarrow> ManageError env cr err RequeueWithDefaultBackOff s
              | None \<Rightarrow>
                  if Requeue finResult then ManageSuccess env (Some cr) finResult s
                  else reconcileRest env cr s
            }) = Some (r, s')"
      unfolding bind_case_prod_Some by blast
    show thesis
    proof (cases e)
      case None
      with rest pro show thesis by (auto simp: bind_case_prod_Some intro: finalizer)
    next
      case (Some x)
      with rest pro show thesis by (intro account [of x t]) simp_all
    qed
  qed
qed

lemma reconcileCR_blocked:
  assumes env: "retries (retryDefaultRetry env)" "retries (retryDefaultBackoff env)" "ownerRefOnly env"
    and del: "isBeingDeleted cr" "clusterFinalizerName \<in> set (crm_Finalizers (cr_ObjectMeta cr))"
    and att: "\<not> op_IgnoreVolumeAttachmentOnDelete (oper cr)" "stillAttached env"
    and run: "reconcileCR env cr s = Some ((result, err), s')"
  shows "err = None \<and> Requeue result \<and> grows (blockedRequest cr) s s'"
  using run
proof (cases rule: reconcileCR_cases)
  case (invalid e)
  then show ?thesis by (rule blocked_report [OF env(1) preord_refl [OF preord_grows]])
next
  case (account e t)
  show ?thesis by (rule blocked_report [OF env(1) stepsD [OF emits_prologue [OF env(2,3)] account(1)] account(2)])
next
  case (finalizer t res e c u)
  have "isBeingDeleted (initializeEmptyFieldsOnCustomResource env cr)" using del(1) by (simp add: isBeingDeleted_def)
  from handleFinalizer_blocked [OF this _ _ att(2) finalizer(2)] del(2) att(1)
  obtain x where x: "e = Some x" and "grows isRead t u" by auto
  then have "grows (blockedRequest cr) t u" by (auto elim: grows_mono)
  from preord_trans [OF preord_grows stepsD [OF emits_prologue [OF env(2,3)] finalizer(1)] this]
  show ?thesis by (rule blocked_report [OF env(1)]) (use finalizer(3) x in simp)
qed

lemma Reconcile_waits_for_detach:
  assumes "retries (retryDefaultRetry env)" and "retries (retryDefaultBackoff env)" and "ownerRefOnly env"
    and "kGetCR env namespace name (world s) = (Inr cr, w)" and "isBeingDeleted cr"
    and "clusterFinalizerName \<in> set (crm_Finalizers (cr_ObjectMeta cr))"
    and "\<not> op_IgnoreVolumeAttachmentOnDelete (oper cr)" and "stillAttached env"
    and "Reconcile env namespace name s = Some ((result, err), s')"
  shows "err = None \<and> Requeue result \<and> grows (blockedRequest cr) s s'"
proof -
  let ?t = "s\<lparr>reconcileCycles := reconcileCycles s + 1, world := w, reqs := reqs s @ [ReqGetCR namespace name]\<rparr>"
  have "reconcileCR env cr ?t = Some ((result, err), s')"
    using assms(4,9) by (simp add: Reconcile_def Let_def clientGetCR_def apiCall_def)
  from reconcileCR_blocked [OF assms(1-3,5-8) this]
  have "err = None" "Requeue result" and g: "grows (blockedRequest cr) ?t s'" by simp_all
  moreover have "grows (blockedRequest cr) s ?t" by (simp add: grows_def)
  from preord_trans [OF preord_grows this g] have "grows (blockedRequest cr) s s'" .
  ultimately show ?thesis by blast
qed

section \<open>Many cycles\<close>

text \<open>The operator between two moments: cycles for one resource, and in between anyone may change the world.\<close>

inductive operatorRun :: "'w kube \<Rightarrow> string \<Rightarrow> string \<Rightarrow> 'w st \<Rightarrow> 'w st \<Rightarrow> bool" for env namespace name s where
  starts: "operatorRun env namespace name s s"
| others: "operatorRun env namespace name s t \<Longrightarrow> operatorRun env namespace name s (t\<lparr>world := w\<rparr>)"
| cycles: "operatorRun env namespace name s t \<Longrightarrow> Reconcile env namespace name t = Some (r, u) \<Longrightarrow> operatorRun env namespace name s u"

text \<open>Whenever it is read, the resource is one whose deletion waits for the operator.\<close>

definition alwaysLeaving :: "'w kube \<Rightarrow> string \<Rightarrow> string \<Rightarrow> bool" where
  "alwaysLeaving env namespace name \<longleftrightarrow>
     (\<forall>w. \<exists>cr w'. kGetCR env namespace name w = (Inr cr, w') \<and> isBeingDeleted cr \<and>
        clusterFinalizerName \<in> set (crm_Finalizers (cr_ObjectMeta cr)) \<and> \<not> op_IgnoreVolumeAttachmentOnDelete (oper cr))"

definition harmless :: "request \<Rightarrow> bool" where
  "harmless q \<longleftrightarrow>
     (case q of
        ReqDelete _ \<Rightarrow> False
      | ReqUpdateCR _ \<Rightarrow> False
      | ReqUpdateStatus c \<Rightarrow> IsStatusConditionFalse (st_Conditions (cr_Status c)) Ready
      | _ \<Rightarrow> True)"

lemma blocked_harmless: "blockedRequest cr q \<Longrightarrow> harmless q"
  by (cases q) (simp_all add: blockedRequest_def harmless_def)

lemma Reconcile_harmless:
  assumes "retries (retryDefaultRetry env)" "retries (retryDefaultBackoff env)" "ownerRefOnly env"
    and "alwaysLeaving env namespace name" "stillAttached env" "Reconcile env namespace name s = Some (r, s')"
  shows "grows harmless s s'"
proof -
  from assms(4) obtain cr w where "kGetCR env namespace name (world s) = (Inr cr, w)" "isBeingDeleted cr"
    "clusterFinalizerName \<in> set (crm_Finalizers (cr_ObjectMeta cr))" "\<not> op_IgnoreVolumeAttachmentOnDelete (oper cr)"
    unfolding alwaysLeaving_def by blast
  from Reconcile_waits_for_detach [OF assms(1-3) this assms(5)] assms(6)
  have "grows (blockedRequest cr) s s'" by (cases r) simp
  then show ?thesis by (rule grows_mono) (rule blocked_harmless)
qed

section \<open>The whole process\<close>

text \<open>Whatever resource is read, it is one whose deletion waits for the operator.\<close>

definition onlyLeaving :: "'w kube \<Rightarrow> bool" where
  "onlyLeaving env \<longleftrightarrow>
     (\<forall>namespace name w cr w'. kGetCR env namespace name w = (Inr cr, w') \<longrightarrow> isBeingDeleted cr \<and>
        clusterFinalizerName \<in> set (crm_Finalizers (cr_ObjectMeta cr)) \<and> \<not> op_IgnoreVolumeAttachmentOnDelete (oper cr))"

text \<open>What the process may ask for meanwhile: the goroutines also delete the uninstall job of a node, with its pods.\<close>

definition waitingRequest :: "request \<Rightarrow> bool" where
  "waitingRequest q \<longleftrightarrow> (case q of ReqDelete x \<Rightarrow> kindOf x \<in> {''Job'', ''Pod''} | _ \<Rightarrow> harmless q)"

lemma harmless_waiting: "harmless q \<Longrightarrow> waitingRequest q"
  by (cases q) (simp_all add: waitingRequest_def harmless_def)

lemma nodeRequest_waiting: "nodeRequest q \<Longrightarrow> waitingRequest q"
  by (cases q) (simp_all add: nodeRequest_def waitingRequest_def harmless_def)

lemma Reconcile_waiting:
  assumes env: "retries (retryDefaultRetry env)" "retries (retryDefaultBackoff env)" "ownerRefOnly env"
    and "onlyLeaving env" and "stillAttached env" and run: "Reconcile env namespace name s = Some (r, s')"
  shows "grows waitingRequest s s'"
proof -
  obtain x w where get: "kGetCR env namespace name (world s) = (x, w)" by (cases "kGetCR env namespace name (world s)")
  let ?t = "s\<lparr>reconcileCycles := reconcileCycles s + 1, world := w, reqs := reqs s @ [ReqGetCR namespace name]\<rparr>"
  have "grows harmless s s'"
  proof (cases x)
    case (Inl e)
    have t: "grows (blockedRequest zeroNVMesh) s ?t" by (simp add: grows_def)
    from run Inl get have rest: "(if isNotFound e then ManageSuccess env None DoNotRequeue ?t
        else ManageError env zeroNVMesh e RequeueWithDefaultBackOff ?t) = Some (r, s')"
      by (simp add: Reconcile_def Let_def clientGetCR_def apiCall_def split: if_splits)
    show ?thesis
    proof (cases "isNotFound e")
      case True
      with rest have "s' = ?t" by (simp add: ManageSuccess_def)
      with t show ?thesis by (auto elim: grows_mono intro: blocked_harmless)
    next
      case False
      with rest have "ManageError env zeroNVMesh e RequeueWithDefaultBackOff ?t = Some ((fst r, snd r), s')" by simp
      from blocked_report [OF env(1) t this] show ?thesis by (auto elim: grows_mono intro: blocked_harmless)
    qed
  next
    case (Inr cr)
    with assms(4) get have cr: "isBeingDeleted cr" "clusterFinalizerName \<in> set (crm_Finalizers (cr_ObjectMeta cr))"
      "\<not> op_IgnoreVolumeAttachmentOnDelete (oper cr)"
      unfolding onlyLeaving_def by blast+
    from Reconcile_waits_for_detach [OF env get [unfolded Inr] cr assms(5)] run
    have "grows (blockedRequest cr) s s'" by (cases r) simp
    then show ?thesis by (rule grows_mono) (rule blocked_harmless)
  qed
  then show ?thesis by (rule grows_mono) (rule harmless_waiting)
qed

section \<open>Properties\<close>

text \<open>While a resource is being deleted, an attached volume of the driver is reported at every look
  and the resource does not waive the check, nothing is undone: over any number of cycles and whatever
  others do to the world in between, the cycles delete nothing and never write the resource, so the
  finalizer stays, and every status they write says the resource is not ready.\<close>

theorem operator_waits_for_detach:
  assumes "operatorRun env namespace name s t"
    and "retries (retryDefaultRetry env)" and "retries (retryDefaultBackoff env)" and "ownerRefOnly env"
    and "alwaysLeaving env namespace name" and "stillAttached env"
  shows "grows harmless s t"
  using assms(1)
proof induction
  case starts
  show ?case by (rule preord_refl [OF preord_grows])
next
  case (others t w)
  then show ?case by (simp add: grows_def)
next
  case (cycles t r u)
  show ?case by (rule preord_trans [OF preord_grows cycles.IH Reconcile_harmless [OF assms(2-6) cycles.hyps(2)]])
qed


text \<open>A server on which a volume is attached and the resource is being deleted.\<close>

definition leavingCR :: nvmesh where
  "leavingCR = sampleCR\<lparr>cr_ObjectMeta := (cr_ObjectMeta sampleCR)\<lparr>crm_DeletionTimestamp := Some 1, crm_Finalizers := [clusterFinalizerName]\<rparr>\<rparr>"

definition attachedKube :: "mem kube" where
  "attachedKube = plainKube\<lparr>kListVolumeAttachments := (\<lambda>w. ((None, m_vas attachedMem), w)),
     kGetCR := (\<lambda>ns name w. (Inr leavingCR, w))\<rparr>"

definition leavingMem :: mem where
  "leavingMem = emptyMem\<lparr>m_cr := Some leavingCR\<rparr>"

theorem operator_waits_for_detach_witness:
  "\<exists>t. operatorRun attachedKube ''ns'' ''cluster'' (memState leavingMem) t \<and> reconcileCycles t = 1 \<and>
     grows harmless (memState leavingMem) t"
proof -
  have "map_option (\<lambda>(r, s). reconcileCycles s) (Reconcile attachedKube ''ns'' ''cluster'' (memState leavingMem)) = Some 1"
    by code_simp
  then obtain r s' where r: "Reconcile attachedKube ''ns'' ''cluster'' (memState leavingMem) = Some (r, s')" "reconcileCycles s' = 1"
    by auto
  from operatorRun.cycles [OF operatorRun.starts r(1)]
  have run: "operatorRun attachedKube ''ns'' ''cluster'' (memState leavingMem) s'" .
  have env: "retries (retryDefaultRetry attachedKube)" "retries (retryDefaultBackoff attachedKube)"
    by (simp_all add: attachedKube_def plainKube_def)
  have own: "ownerRefOnly attachedKube"
    using memKube_ownerRefOnly [of "[]" "\<lambda>_. (None, None)"] by (simp add: ownerRefOnly_def attachedKube_def plainKube_def)
  have leaving: "alwaysLeaving attachedKube ''ns'' ''cluster''"
    by (simp add: alwaysLeaving_def attachedKube_def leavingCR_def isBeingDeleted_def sampleCR_def zeroNVMesh_def)
  have att: "stillAttached attachedKube"
    by (simp add: stillAttached_def attachedKube_def attachedMem_def attachedHere_def)
  from operator_waits_for_detach [OF run env own leaving att] run r(2) show ?thesis by blast
qed

definition leavingUpdate :: watch_event where
  "leavingUpdate = UpdateEvent \<lparr>wo_kind = ''NVMesh'', wo_meta = newMeta ''cluster'' ''ns'', wo_generation = 1\<rparr>
     \<lparr>wo_kind = ''NVMesh'', wo_meta = newMeta ''cluster'' ''ns'', wo_generation = 2\<rparr>"




end
